(* ===== verification/Prelude.thy ===== *)
theory Prelude
  imports Main "HOL-Library.Extended_Nat"
begin

section \<open>Prelude: the JavaScript primitives the game code relies on\<close>

text \<open>
  The game is written in TypeScript. This theory models the few runtime primitives its
  engine uses, so that the component theories can be read line by line against the
  source:
  \<^item> \<open>x || 0\<close> on an optional number (\<open>or_zero\<close>);
  \<^item> \<open>String.prototype.toLowerCase\<close> and \<open>trim\<close> on ASCII text
    (\<open>js_toLowerCase\<close>, \<open>js_trim\<close>); a string is a \<open>char list\<close>, one byte per
    character, so case folding and whitespace outside ASCII are not modelled;
  \<^item> \<open>Map<string, number>\<close> as an association list in insertion order
    (\<open>js_map_has\<close>, \<open>js_map_set\<close>): a JS map keeps its keys distinct and
    \<open>set\<close> on a present key overwrites its value in place;
  \<^item> reading an array index that may be out of range (\<open>js_at\<close>): \<open>undefined\<close>
    is \<open>None\<close>.
  The collection \<open>js_simps\<close> holds the evaluation rules of these primitives; the
  component proofs add it to \<open>simp\<close>.
\<close>

named_theorems js_simps "evaluation rules of the modelled JavaScript primitives"

subsection \<open>Optional numbers\<close>

definition or_zero :: "int option \<Rightarrow> int" where
  "or_zero x = (case x of None \<Rightarrow> 0 | Some v \<Rightarrow> v)"

subsection \<open>Strings\<close>

definition js_lower_char :: "char \<Rightarrow> char" where
  "js_lower_char c =
     (let n = (of_char c :: nat) in if 65 \<le> n \<and> n \<le> 90 then char_of (n + 32) else c)"

definition js_toLowerCase :: "string \<Rightarrow> string" where
  "js_toLowerCase s = map js_lower_char s"

definition js_upper_char :: "char \<Rightarrow> char" where
  "js_upper_char c =
     (let n = (of_char c :: nat) in if 97 \<le> n \<and> n \<le> 122 then char_of (n - 32) else c)"

definition js_toUpperCase :: "string \<Rightarrow> string" where
  "js_toUpperCase s = map js_upper_char s"

definition js_is_space :: "char \<Rightarrow> bool" where
  "js_is_space c \<longleftrightarrow> of_char c \<in> {9, 10, 11, 12, 13, 32 :: nat}"

definition js_trim :: "string \<Rightarrow> string" where
  "js_trim s = rev (dropWhile js_is_space (rev (dropWhile js_is_space s)))"

subsection \<open>Maps from names to numbers\<close>

type_synonym 'v js_map = "(string \<times> 'v) list"

definition js_map_has :: "'v js_map \<Rightarrow> string \<Rightarrow> bool" where
  "js_map_has m k \<longleftrightarrow> k \<in> fst ` set m"

fun js_map_set :: "'v js_map \<Rightarrow> string \<Rightarrow> 'v \<Rightarrow> 'v js_map" where
  "js_map_set [] k v = [(k, v)]"
| "js_map_set ((k', v') # m) k v = (if k' = k then (k, v) # m else (k', v') # js_map_set m k v)"

subsection \<open>Array reads\<close>

definition js_at :: "'a list \<Rightarrow> int \<Rightarrow> 'a option" where
  "js_at xs i = (if 0 \<le> i \<and> i < int (length xs) then Some (xs ! nat i) else None)"

subsection \<open>Numbers as strings\<close>

text \<open>
  \<open>String(n)\<close> of a natural number (\<open>js_nat_toString\<close>, decimal digits without
  leading zeros) and \<open>parseInt(s)\<close> with its default radix (\<open>js_parseInt\<close>: leading
  white space, an optional sign, then the longest run of decimal digits; no digit is
  \<open>NaN\<close>, here \<open>None\<close>). The \<open>0x\<close> prefix that switches \<open>parseInt\<close> to radix 16 is
  not modelled: the game only parses strings it printed with \<open>toString\<close>.
\<close>

definition js_is_digit :: "char \<Rightarrow> bool" where
  "js_is_digit c \<longleftrightarrow> 48 \<le> (of_char c :: nat) \<and> (of_char c :: nat) \<le> 57"

definition digit_value :: "char \<Rightarrow> nat" where
  "digit_value c = of_char c - 48"

definition digits_value :: "string \<Rightarrow> nat" where
  "digits_value ds = foldl (\<lambda>n c. 10 * n + digit_value c) 0 ds"

fun js_nat_toString :: "nat \<Rightarrow> string" where
  "js_nat_toString n =
     (if n < 10 then [char_of (48 + n)]
      else js_nat_toString (n div 10) @ [char_of (48 + n mod 10)])"

definition js_parseInt :: "string \<Rightarrow> int option" where
  "js_parseInt str =
     (let s = dropWhile js_is_space str;
          (sign, rest) = (case s of
                            c # r \<Rightarrow> if c = CHR ''-'' then (-1, r)
                                     else if c = CHR ''+'' then (1, r) else (1, s)
                          | [] \<Rightarrow> (1, []));
          ds = takeWhile js_is_digit rest
      in if ds = [] then None else Some (sign * int (digits_value ds)))"

text \<open>\<open>String(i)\<close> of an integer: a minus sign before the digits of a negative one.\<close>

definition js_int_toString :: "int \<Rightarrow> string" where
  "js_int_toString i =
     (if i < 0 then CHR ''-'' # js_nat_toString (nat (- i)) else js_nat_toString (nat i))"

subsection \<open>Truthiness and defaults\<close>

text \<open>
  \<open>v || d\<close> on an optional string (\<open>null\<close> and the empty string are falsy), and the
  truthiness of an optional string field (\<open>a.title\<close> in a condition).
\<close>

definition js_or_str :: "string option \<Rightarrow> string \<Rightarrow> string" where
  "js_or_str v d = (case v of None \<Rightarrow> d | Some s \<Rightarrow> if s = [] then d else s)"

definition js_truthy_str :: "string option \<Rightarrow> bool" where
  "js_truthy_str v \<longleftrightarrow> (case v of None \<Rightarrow> False | Some s \<Rightarrow> s \<noteq> [])"

subsection \<open>Array slices\<close>

text \<open>\<open>xs.slice(k)\<close>: a negative start counts from the end.\<close>

definition js_slice :: "'a list \<Rightarrow> int \<Rightarrow> 'a list" where
  "js_slice xs k =
     (if k < 0 then drop (nat (max 0 (int (length xs) + k))) xs else drop (nat k) xs)"

subsection \<open>Lemmas on the primitives\<close>

lemma or_zero_simps [simp, js_simps]: "or_zero None = 0" "or_zero (Some v) = v"
  by (simp_all add: or_zero_def)

lemmas [js_simps] = js_upper_char_def js_toUpperCase_def js_lower_char_def js_toLowerCase_def js_is_space_def js_trim_def
  char_of_eq_iff

lemma js_lower_char_idem [simp]: "js_lower_char (js_lower_char c) = js_lower_char c"
  by (simp add: js_lower_char_def Let_def char_of_eq_iff take_bit_eq_mod)

lemma js_toLowerCase_idem [simp]: "js_toLowerCase (js_toLowerCase s) = js_toLowerCase s"
  by (simp add: js_toLowerCase_def comp_def)

lemma js_is_space_lower [simp]: "js_is_space (js_lower_char c) = js_is_space c"
  by (auto simp add: js_lower_char_def js_is_space_def Let_def take_bit_eq_mod)

lemma js_toLowerCase_Nil [simp]: "js_toLowerCase [] = []"
  by (simp add: js_toLowerCase_def)

lemma length_js_toLowerCase [simp]: "length (js_toLowerCase s) = length s"
  by (simp add: js_toLowerCase_def)

lemma js_toLowerCase_eq_Nil [simp]: "js_toLowerCase s = [] \<longleftrightarrow> s = []"
  by (simp add: js_toLowerCase_def)

lemma dropWhile_map_space:
  "dropWhile js_is_space (map js_lower_char s) = map js_lower_char (dropWhile js_is_space s)"
  by (induction s) auto

text \<open>Lower-casing and trimming commute: whitespace has no upper case.\<close>

lemma js_trim_toLowerCase: "js_trim (js_toLowerCase s) = js_toLowerCase (js_trim s)"
  by (simp add: js_trim_def js_toLowerCase_def dropWhile_map_space rev_map)

lemma js_trim_all_space:
  "\<forall>c\<in>set s. js_is_space c \<Longrightarrow> js_trim s = []"
  by (auto simp add: js_trim_def dest: set_dropWhileD)

lemma js_trim_pad_left:
  "\<forall>c\<in>set p. js_is_space c \<Longrightarrow> js_trim (p @ s) = js_trim s"
  by (simp add: js_trim_def dropWhile_append)

lemma js_trim_pad_right:
  "js_trim (s @ q) = js_trim s" if "\<forall>c\<in>set q. js_is_space c"
proof (cases "\<forall>c\<in>set s. js_is_space c")
  case True
  with that have "\<forall>c\<in>set (s @ q). js_is_space c" by auto
  then have "js_trim (s @ q) = []" by (rule js_trim_all_space)
  moreover from True have "js_trim s = []" by (rule js_trim_all_space)
  ultimately show ?thesis by simp
next
  case False
  with that show ?thesis by (auto simp add: js_trim_def dropWhile_append)
qed

lemma js_trim_no_space:
  assumes "s \<noteq> []" "\<not> js_is_space (hd s)" "\<not> js_is_space (last s)"
  shows "js_trim s = s"
proof -
  from assms(1,2) have "dropWhile js_is_space s = s" by (cases s) auto
  moreover from assms(1,3) have "dropWhile js_is_space (rev s) = rev s"
    by (cases "rev s") (auto simp: last_rev[symmetric])
  ultimately show ?thesis by (simp add: js_trim_def)
qed

lemmas [js_simps] = js_map_has_def

lemma js_map_set_keys [simp]: "fst ` set (js_map_set m k v) = insert k (fst ` set m)"
  by (induction m) (force split: if_splits)+

lemma js_map_set_distinct [simp]:
  "distinct (map fst m) \<Longrightarrow> distinct (map fst (js_map_set m k v))"
  by (induction m) (auto split: if_splits)

lemma js_map_set_lookup [simp]: "map_of (js_map_set m k v) = (map_of m)(k \<mapsto> v)"
  by (induction m) (auto simp: fun_eq_iff)

lemma js_map_set_subset: "set (js_map_set m k v) \<subseteq> insert (k, v) (set m)"
  by (induction m) (auto split: if_splits)

lemma js_at_simps [simp, js_simps]:
  "js_at [] i = None" "js_at (x # xs) 0 = Some x" "js_at [x, y] 1 = Some y"
  by (simp_all add: js_at_def)

lemma js_at_Some_iff: "js_at xs i = Some x \<longleftrightarrow> 0 \<le> i \<and> i < int (length xs) \<and> xs ! nat i = x"
  by (auto simp: js_at_def)


declare js_nat_toString.simps [simp del]

lemma digit_char_of [simp]:
  assumes "d < 10"
  shows "js_is_digit (char_of (48 + d))" and "digit_value (char_of (48 + d)) = d"
proof -
  have "(of_char (char_of (48 + d)) :: nat) = 48 + d"
    using assms by (simp add: take_bit_nat_eq_self)
  then show "js_is_digit (char_of (48 + d))" "digit_value (char_of (48 + d)) = d"
    using assms by (simp_all add: js_is_digit_def digit_value_def)
qed

lemma js_nat_toString_digits: "list_all js_is_digit (js_nat_toString n) \<and> js_nat_toString n \<noteq> []"
proof (induction n rule: js_nat_toString.induct)
  case (1 n)
  then show ?case by (simp add: js_nat_toString.simps [of n])
qed

lemma digits_value_toString: "digits_value (js_nat_toString n) = n"
proof (induction n rule: js_nat_toString.induct)
  case (1 n)
  then show ?case
    by (subst js_nat_toString.simps) (simp add: digits_value_def)
qed

text \<open>What \<open>toString\<close> prints, \<open>parseInt\<close> reads back.\<close>

lemma js_parseInt_toString [simp]: "js_parseInt (js_nat_toString n) = Some (int n)"
proof -
  obtain c r where cr: "js_nat_toString n = c # r" and dc: "js_is_digit c"
      and dr: "list_all js_is_digit r"
    using js_nat_toString_digits [of n] by (cases "js_nat_toString n") auto
  have ns: "\<not> js_is_space c" using dc by (auto simp: js_is_digit_def js_is_space_def)
  have "c \<noteq> CHR ''-''" "c \<noteq> CHR ''+''" using dc by (auto simp: js_is_digit_def)
  moreover have "takeWhile js_is_digit (c # r) = c # r"
    using dc dr by (simp add: list_all_iff)
  ultimately show ?thesis
    using ns digits_value_toString [of n] by (simp add: js_parseInt_def cr)
qed

lemma js_or_str_toString [simp]: "js_or_str (Some (js_nat_toString n)) d = js_nat_toString n"
  using js_nat_toString_digits [of n] by (simp add: js_or_str_def)

lemmas [js_simps] = js_int_toString_def js_parseInt_def js_or_str_def js_truthy_str_def js_slice_def js_is_digit_def
  digits_value_def digit_value_def js_nat_toString.simps

end
