(* ===== verification/Spells.thy ===== *)
theory Spells
  imports Prelude
begin

section \<open>Spell catalog (src/src/data/spells.ts)\<close>

text \<open>
  The \<open>Spell\<close> interface becomes the record \<open>spell\<close> (every field, optional ones as
  \<open>option\<close>), its \<open>type\<close> union the datatype \<open>spellType\<close>, and the constant
  \<open>SPELLS\<close> the list \<open>SPELLS\<close>, entry by entry in source order. The lemmas below
  are the catalog's well-formedness facts that the resolver and the engine rely on.
\<close>

datatype spellType = Attack | Defense | Healing | Buff | Debuff | Special

record spell =
  name :: string
  type :: spellType
  damage :: "int option"
  healing :: "int option"
  blockAmount :: "int option"
  effect :: "string option"
  cooldown :: int
  staminaCost :: int
  castingTime :: int
  description :: string
  sound :: "string option"

definition SPELLS :: "spell list" where
  "SPELLS = [
    \<lparr>name = ''Expelliarmus'', type = Attack, damage = Some 20, healing = None,
     blockAmount = None, effect = None, cooldown = 5, staminaCost = 15, castingTime = 1,
     description = ''The Disarming Charm - forces opponent to drop their wand'',
     sound = Some ''expelliarmus''\<rparr>,
    \<lparr>name = ''Protego'', type = Defense, damage = None, healing = None,
     blockAmount = Some 25, effect = None, cooldown = 8, staminaCost = 20, castingTime = 1,
     description = ''Shield Charm - creates a magical barrier'',
     sound = Some ''protego''\<rparr>,
    \<lparr>name = ''Stupefy'', type = Attack, damage = Some 15, healing = None,
     blockAmount = None, effect = None, cooldown = 3, staminaCost = 10, castingTime = 1,
     description = ''Stunning Spell - stuns the opponent'',
     sound = Some ''stupefy''\<rparr>,
    \<lparr>name = ''Episkey'', type = Healing, damage = None, healing = Some 25,
     blockAmount = None, effect = None, cooldown = 10, staminaCost = 20, castingTime = 2,
     description = ''Healing Spell - restores health'',
     sound = Some ''episkey''\<rparr>,
    \<lparr>name = ''Sectumsempra'', type = Attack, damage = Some 35, healing = None,
     blockAmount = None, effect = None, cooldown = 12, staminaCost = 30, castingTime = 2,
     description = ''Dark cutting curse - deals massive damage'',
     sound = Some ''sectumsempra''\<rparr>,
    \<lparr>name = ''Expecto Patronum'', type = Special, damage = Some 20, healing = Some 15,
     blockAmount = None, effect = None, cooldown = 15, staminaCost = 35, castingTime = 3,
     description = ''Patronus Charm - attacks and heals simultaneously'',
     sound = Some ''patronum''\<rparr>,
    \<lparr>name = ''Avada Kedavra'', type = Attack, damage = Some 60, healing = None,
     blockAmount = None, effect = None, cooldown = 25, staminaCost = 50, castingTime = 4,
     description = ''The Killing Curse - ultimate attack'',
     sound = Some ''avada_kedavra''\<rparr>,
    \<lparr>name = ''Crucio'', type = Debuff, damage = Some 10, healing = None,
     blockAmount = None, effect = Some ''paralyze'', cooldown = 18, staminaCost = 25,
     castingTime = 2, description = ''Cruciatus Curse - torture curse that paralyzes'',
     sound = Some ''crucio''\<rparr>,
    \<lparr>name = ''Imperio'', type = Debuff, damage = None, healing = None,
     blockAmount = None, effect = Some ''control'', cooldown = 20, staminaCost = 30,
     castingTime = 3, description = ''Imperius Curse - controls opponent's next action'',
     sound = Some ''imperio''\<rparr>,
    \<lparr>name = ''Petrificus Totalus'', type = Debuff, damage = None, healing = None,
     blockAmount = None, effect = Some ''freeze'', cooldown = 8, staminaCost = 20,
     castingTime = 1, description = ''Body-Bind Curse - freezes opponent for one turn'',
     sound = Some ''petrificus''\<rparr>,
    \<lparr>name = ''Diffindo'', type = Attack, damage = Some 18, healing = None,
     blockAmount = None, effect = None, cooldown = 4, staminaCost = 12, castingTime = 1,
     description = ''Severing Charm - cuts through defenses'',
     sound = Some ''diffindo''\<rparr>,
    \<lparr>name = ''Reducto'', type = Attack, damage = Some 25, healing = None,
     blockAmount = None, effect = None, cooldown = 6, staminaCost = 18, castingTime = 1,
     description = ''Reductor Curse - blasts obstacles apart'',
     sound = Some ''reducto''\<rparr>,
    \<lparr>name = ''Wingardium Leviosa'', type = Buff, damage = None, healing = None,
     blockAmount = None, effect = Some ''levitate'', cooldown = 10, staminaCost = 15,
     castingTime = 2, description = ''Levitation Charm - increases evasion'',
     sound = Some ''leviosa''\<rparr>,
    \<lparr>name = ''Lumos Maxima'', type = Attack, damage = Some 12, healing = None,
     blockAmount = None, effect = Some ''blind'', cooldown = 5, staminaCost = 10,
     castingTime = 1, description = ''Blinding Light - damages and blinds opponent'',
     sound = Some ''lumos''\<rparr>,
    \<lparr>name = ''Finite Incantatem'', type = Special, damage = None, healing = None,
     blockAmount = None, effect = Some ''dispel'', cooldown = 7, staminaCost = 15,
     castingTime = 1, description = ''Counter-spell - removes all active effects'',
     sound = Some ''finite''\<rparr>
  ]"

text \<open>
  Catalog well-formedness, as a bool-valued check that evaluates on the constant:
  non-empty names, distinct under lower-casing (the resolver compares lower-cased
  names), non-negative effect amounts, and positive cooldowns and stamina costs.
\<close>

definition spell_ok :: "spell \<Rightarrow> bool" where
  "spell_ok s \<longleftrightarrow> name s \<noteq> [] \<and> 0 \<le> or_zero (damage s) \<and> 0 \<le> or_zero (healing s)
     \<and> 0 < cooldown s \<and> 0 < staminaCost s"

definition catalog_ok :: "spell list \<Rightarrow> bool" where
  "catalog_ok ss \<longleftrightarrow> list_all spell_ok ss \<and> distinct (map (\<lambda>s. js_toLowerCase (name s)) ss)"

lemma SPELLS_length: "length SPELLS = 15"
  by (simp add: SPELLS_def)

lemma SPELLS_ok: "catalog_ok SPELLS"
  by (simp add: catalog_ok_def spell_ok_def SPELLS_def js_simps)

lemma SPELLS_list_ok: "list_all spell_ok SPELLS"
  by (simp add: spell_ok_def SPELLS_def)

lemma SPELLS_spell_ok: "s \<in> set SPELLS \<Longrightarrow> spell_ok s"
  using SPELLS_list_ok by (simp add: list_all_iff)

lemma SPELLS_damage_nonneg: "s \<in> set SPELLS \<Longrightarrow> 0 \<le> or_zero (damage s)"
  and SPELLS_healing_nonneg: "s \<in> set SPELLS \<Longrightarrow> 0 \<le> or_zero (healing s)"
  and SPELLS_cooldown_pos: "s \<in> set SPELLS \<Longrightarrow> 0 < cooldown s"
  and SPELLS_cost_pos: "s \<in> set SPELLS \<Longrightarrow> 0 < staminaCost s"
  using SPELLS_spell_ok by (auto simp: spell_ok_def)

lemma SPELLS_lower_distinct: "distinct (map (\<lambda>s. js_toLowerCase (name s)) SPELLS)"
  by (simp add: SPELLS_def js_simps)

end
