(* ===== verification/Resolver.thy ===== *)
theory Resolver
  imports Spells
begin

section \<open>Spell resolver (src/src/data/spells.ts, findSpell and levenshteinDistance)\<close>

subsection \<open>Edit distance: the dynamic programme of the source\<close>

text \<open>
  \<open>levenshteinDistance(a, b)\<close> fills a matrix with one row per prefix of \<open>b\<close>
  and one column per prefix of \<open>a\<close>. Row 0 is \<open>0, 1, \<dots>, |a|\<close>; row \<open>j\<close>
  starts with \<open>j\<close>, and its cell \<open>i\<close> is the minimum of the cell to its left
  plus one, the cell above plus one, and the cell above-left plus the substitution cost.
  \<open>lev_row bj a diag ups left\<close> computes the cells \<open>1..|a|\<close> of a row from the
  row above (\<open>diag\<close> its cell \<open>i - 1\<close>, \<open>ups\<close> its cells \<open>i..\<close>) and the
  cell to the left; \<open>lev_fill\<close> appends the rows for the characters of \<open>b\<close>.
\<close>

fun lev_row :: "char \<Rightarrow> string \<Rightarrow> nat \<Rightarrow> nat list \<Rightarrow> nat \<Rightarrow> nat list" where
  "lev_row bj [] diag ups left = []"
| "lev_row bj (ai # as) diag ups left =
     (case ups of
        [] \<Rightarrow> []
      | up # ups' \<Rightarrow>
          (let cost = (if ai = bj then 0 else 1);
               v = min (min (left + 1) (up + 1)) (diag + cost)
           in v # lev_row bj as up ups' v))"

fun lev_fill :: "string \<Rightarrow> string \<Rightarrow> nat list list \<Rightarrow> nat list list" where
  "lev_fill a [] matrix = matrix"
| "lev_fill a (bj # bs) matrix =
     (let j = length matrix; prev = matrix ! (j - 1)
      in lev_fill a bs (matrix @ [j # lev_row bj a (hd prev) (tl prev) j]))"

definition levenshteinDistance :: "string \<Rightarrow> string \<Rightarrow> nat" where
  "levenshteinDistance a b = lev_fill a b [[0..<Suc (length a)]] ! length b ! length a"

subsection \<open>Edit distance: the recursive reference\<close>

text \<open>
  The reference is the textbook recursion on the first characters. The programme works
  on prefixes, so it computes the reference on the reversed strings.
\<close>

fun lev :: "'a list \<Rightarrow> 'a list \<Rightarrow> nat" where
  "lev [] ys = length ys"
| "lev xs [] = length xs"
| "lev (x # xs) (y # ys) =
     min (min (lev xs (y # ys) + 1) (lev (x # xs) ys + 1)) (lev xs ys + (if x = y then 0 else 1))"

abbreviation levr :: "'a list \<Rightarrow> 'a list \<Rightarrow> nat" where
  "levr xs ys \<equiv> lev (rev xs) (rev ys)"

fun exts :: "'a list \<Rightarrow> 'a list \<Rightarrow> 'a list list" where
  "exts p [] = []"
| "exts p (x # r) = (p @ [x]) # exts (p @ [x]) r"

definition lev_line :: "string \<Rightarrow> string \<Rightarrow> nat list" where
  "lev_line a ys = levr [] ys # map (\<lambda>q. levr q ys) (exts [] a)"

subsection \<open>findSpell\<close>

text \<open>
  \<open>findSpell\<close> lower-cases and trims its input, returns the first catalog entry whose
  lower-cased name equals it, and otherwise scans the catalog keeping the entry with the
  smallest distance not above \<open>maxDistance = 3\<close>; only a strictly smaller distance
  replaces the current best, so ties go to the earlier entry. \<open>bestDistance\<close> starts at
  \<open>Infinity\<close>, modelled as \<open>\<infinity> :: enat\<close>.
\<close>

definition maxDistance :: nat where
  "maxDistance = 3"

fun fuzzy_scan :: "string \<Rightarrow> spell list \<Rightarrow> spell option \<Rightarrow> enat \<Rightarrow> spell option" where
  "fuzzy_scan normalizedInput [] bestMatch bestDistance = bestMatch"
| "fuzzy_scan normalizedInput (s # ss) bestMatch bestDistance =
     (let distance = levenshteinDistance normalizedInput (js_toLowerCase (name s))
      in if distance \<le> maxDistance \<and> enat distance < bestDistance
         then fuzzy_scan normalizedInput ss (Some s) (enat distance)
         else fuzzy_scan normalizedInput ss bestMatch bestDistance)"

definition findSpell :: "string \<Rightarrow> spell option" where
  "findSpell input =
     (let normalizedInput = js_trim (js_toLowerCase input)
      in case find (\<lambda>s. js_toLowerCase (name s) = normalizedInput) SPELLS of
           Some directMatch \<Rightarrow> Some directMatch
         | None \<Rightarrow> fuzzy_scan normalizedInput SPELLS None \<infinity>)"

subsection \<open>The resolver's contract\<close>

abbreviation spell_dist :: "string \<Rightarrow> spell \<Rightarrow> nat" where
  "spell_dist n s \<equiv> levenshteinDistance n (js_toLowerCase (name s))"

text \<open>
  The abstract resolver: the first entry of the list whose distance is at most 3 and no
  larger than the distance of any entry.
\<close>

definition best_match :: "string \<Rightarrow> spell list \<Rightarrow> spell option" where
  "best_match n ss = find (\<lambda>s. spell_dist n s \<le> 3 \<and> (\<forall>s'\<in>set ss. spell_dist n s \<le> spell_dist n s')) ss"

subsection \<open>Lemmas\<close>

lemma lev_Nil2 [simp]: "lev xs [] = length xs"
  by (cases xs) auto

lemma levr_snoc:
  "levr (xs @ [x]) (ys @ [y]) =
     min (min (levr xs (ys @ [y]) + 1) (levr (xs @ [x]) ys + 1)) (levr xs ys + (if x = y then 0 else 1))"
  by simp

lemma lev_row_exts:
  "lev_row y r (levr p ys) (map (\<lambda>q. levr q ys) (exts p r)) (levr p (ys @ [y]))
     = map (\<lambda>q. levr q (ys @ [y])) (exts p r)"
proof (induction r arbitrary: p)
  case Nil
  then show ?case by simp
next
  case (Cons x r)
  have "min (min (levr p (ys @ [y]) + 1) (levr (p @ [x]) ys + 1)) (levr p ys + (if x = y then 0 else 1))
        = levr (p @ [x]) (ys @ [y])"
    by (rule levr_snoc [symmetric])
  with Cons.IH [of "p @ [x]"] show ?case by (simp add: Let_def)
qed

lemma length_exts [simp]: "length (exts p r) = length r"
  by (induction r arbitrary: p) auto

lemma map_length_exts: "map length (exts p r) = [Suc (length p)..<Suc (length p + length r)]"
proof (induction r arbitrary: p)
  case Nil
  then show ?case by simp
next
  case (Cons x r)
  then show ?case by (simp add: upt_rec)
qed

lemma lev_line_Nil: "lev_line a [] = [0..<Suc (length a)]"
proof -
  have "map (\<lambda>q. levr q []) (exts [] a) = map length (exts [] a)"
    by simp
  then show ?thesis by (simp add: lev_line_def map_length_exts upt_rec)
qed

lemma lev_line_snoc: "lev_line a (ys @ [y]) = length (ys @ [y]) # lev_row y a (hd (lev_line a ys)) (tl (lev_line a ys)) (length (ys @ [y]))"
  using lev_row_exts [of y a "[]" ys] by (simp add: lev_line_def)

lemma lev_fill_last:
  "matrix \<noteq> [] \<Longrightarrow> last matrix = lev_line a ys \<Longrightarrow> length matrix = Suc (length ys) \<Longrightarrow>
   lev_fill a bs matrix \<noteq> [] \<and> last (lev_fill a bs matrix) = lev_line a (ys @ bs)
   \<and> length (lev_fill a bs matrix) = Suc (length (ys @ bs))"
proof (induction bs arbitrary: matrix ys)
  case Nil
  then show ?case by simp
next
  case (Cons b bs)
  let ?m = "matrix @ [length matrix # lev_row b a (hd (matrix ! (length matrix - 1))) (tl (matrix ! (length matrix - 1))) (length matrix)]"
  from Cons.prems have prev: "matrix ! (length matrix - 1) = lev_line a ys"
    by (simp add: last_conv_nth)
  have "last ?m = length matrix # lev_row b a (hd (lev_line a ys)) (tl (lev_line a ys)) (length matrix)"
    by (simp only: last_snoc prev)
  also have "\<dots> = lev_line a (ys @ [b])"
    by (simp only: lev_line_snoc length_append_singleton Cons.prems(3))
  finally have "last ?m = lev_line a (ys @ [b])" .
  then have "lev_fill a bs ?m \<noteq> [] \<and> last (lev_fill a bs ?m) = lev_line a ((ys @ [b]) @ bs)
     \<and> length (lev_fill a bs ?m) = Suc (length ((ys @ [b]) @ bs))"
    using Cons.prems by (intro Cons.IH) auto
  then show ?case by (simp add: Let_def)
qed

lemma exts_Nil_iff [simp]: "exts p r = [] \<longleftrightarrow> r = []"
  by (cases r) auto

lemma last_exts: "r \<noteq> [] \<Longrightarrow> last (exts p r) = p @ r"
proof (induction r arbitrary: p)
  case Nil
  then show ?case by simp
next
  case (Cons x r)
  then show ?case by (cases "r = []") auto
qed

lemma lev_line_last: "lev_line a ys ! length a = levr a ys"
proof (cases "a = []")
  case True
  then show ?thesis by (simp add: lev_line_def)
next
  case False
  then have eq: "exts [] a ! (length a - 1) = a"
    using last_exts [of a "[]"] by (simp add: last_conv_nth)
  from False have "lev_line a ys ! length a = map (\<lambda>q. levr q ys) (exts [] a) ! (length a - 1)"
    by (simp add: lev_line_def nth_Cons')
  also from False have "\<dots> = levr (exts [] a ! (length a - 1)) ys"
    by simp
  also have "\<dots> = levr a ys"
    by (simp only: eq)
  finally show ?thesis .
qed

lemma levenshteinDistance_line: "levenshteinDistance a b = lev_line a b ! length a"
proof -
  let ?M = "lev_fill a b [[0..<Suc (length a)]]"
  have "?M \<noteq> [] \<and> last ?M = lev_line a ([] @ b) \<and> length ?M = Suc (length ([] @ b))"
    by (rule lev_fill_last) (simp_all add: lev_line_Nil)
  then have ne: "?M \<noteq> []" and l: "last ?M = lev_line a b" and len: "length ?M = Suc (length b)"
    by simp_all
  have "?M ! length b = last ?M"
    by (metis last_conv_nth diff_Suc_1 ne len)
  with l show ?thesis by (simp add: levenshteinDistance_def)
qed

text \<open>
  C17: The matrix computation of levenshteinDistance equals the recursive edit distance
  (insert, delete, substitute at unit cost) of the reversed strings.
\<close>

theorem levenshteinDistance_lev: "levenshteinDistance a b = lev (rev a) (rev b)"
  by (simp add: levenshteinDistance_line lev_line_last)

subsection \<open>Properties of the reference distance\<close>

lemma lev_Nil1: "lev [] ys = length ys"
  by simp

lemma lev_refl [simp]: "lev xs xs = 0"
  by (induction xs) auto

lemma lev_length_diff: "length xs - length ys \<le> lev xs ys \<and> length ys - length xs \<le> lev xs ys"
  by (induction xs ys rule: lev.induct) auto

lemma lev_eq_0_iff [simp]: "lev xs ys = 0 \<longleftrightarrow> xs = ys"
proof
  show "lev xs ys = 0 \<Longrightarrow> xs = ys"
    by (induction xs ys rule: lev.induct) (auto split: if_splits)
qed simp

lemma levenshteinDistance_eq_0_iff [simp]: "levenshteinDistance a b = 0 \<longleftrightarrow> a = b"
  by (simp add: levenshteinDistance_line lev_line_last)

lemma levenshteinDistance_Nil [simp]: "levenshteinDistance [] b = length b"
  by (simp add: levenshteinDistance_line lev_line_def)

lemma find_cong_set: "(\<And>x. x \<in> set xs \<Longrightarrow> P x = Q x) \<Longrightarrow> find P xs = find Q xs"
  by (induction xs) auto

lemma find_Some_exists: "x \<in> set xs \<Longrightarrow> P x \<Longrightarrow> find P xs \<noteq> None"
  by (induction xs) auto

subsection \<open>The fuzzy scan computes the abstract resolver\<close>

lemma enat_lt_trans_nat: "a < b \<Longrightarrow> enat b < c \<Longrightarrow> enat a < c"
  by (cases c) auto

lemma enat_lt_not_lt: "enat a < c \<Longrightarrow> \<not> enat b < c \<Longrightarrow> a < b"
  by (cases c) auto

lemma fuzzy_scan_find:
  "fuzzy_scan n ss bm bd =
     (case find (\<lambda>s. spell_dist n s \<le> 3 \<and> enat (spell_dist n s) < bd
                     \<and> (\<forall>s'\<in>set ss. spell_dist n s \<le> spell_dist n s')) ss of
        Some s \<Rightarrow> Some s | None \<Rightarrow> bm)"
proof (induction ss arbitrary: bm bd)
  case Nil
  then show ?case by simp
next
  case (Cons x ss)
  let ?d = "spell_dist n"
  show ?case
  proof (cases "?d x \<le> 3 \<and> enat (?d x) < bd")
    case take: True
    show ?thesis
    proof (cases "\<forall>s'\<in>set ss. ?d x \<le> ?d s'")
      case True
      then have "find (\<lambda>s. ?d s \<le> 3 \<and> enat (?d s) < enat (?d x) \<and> (\<forall>s'\<in>set ss. ?d s \<le> ?d s')) ss = None"
        by (auto simp: find_None_iff)
      with take True Cons.IH [of "Some x" "enat (?d x)"] show ?thesis
        by (simp add: maxDistance_def)
    next
      case False
      then obtain y where y: "y \<in> set ss" "?d y < ?d x" by auto
      let ?m = "arg_min_list ?d ss"
      from y have ne_ss: "ss \<noteq> []" by auto
      have eqMin: "?d ?m = Min (?d ` set ss)"
        using ne_ss by (rule f_arg_min_list_f)
      from ne_ss have m1: "?m \<in> set ss" by (rule arg_min_list_in)
      have m2: "\<forall>s'\<in>set ss. ?d ?m \<le> ?d s'"
      proof
        fix s' assume "s' \<in> set ss"
        then have "Min (?d ` set ss) \<le> ?d s'" by (intro Min_le) auto
        then show "?d ?m \<le> ?d s'" by (rule ord_eq_le_trans [OF eqMin])
      qed
      from m2 y have m_lt: "?d ?m < ?d x" by (meson le_less_trans)
      have eq: "find (\<lambda>s. ?d s \<le> 3 \<and> enat (?d s) < enat (?d x) \<and> (\<forall>s'\<in>set ss. ?d s \<le> ?d s')) ss
          = find (\<lambda>s. ?d s \<le> 3 \<and> enat (?d s) < bd \<and> (\<forall>s'\<in>set (x # ss). ?d s \<le> ?d s')) ss"
      proof (rule find_cong_set)
        fix s assume s: "s \<in> set ss"
        show "(?d s \<le> 3 \<and> enat (?d s) < enat (?d x) \<and> (\<forall>s'\<in>set ss. ?d s \<le> ?d s'))
            = (?d s \<le> 3 \<and> enat (?d s) < bd \<and> (\<forall>s'\<in>set (x # ss). ?d s \<le> ?d s'))"
        proof
          assume l: "?d s \<le> 3 \<and> enat (?d s) < enat (?d x) \<and> (\<forall>s'\<in>set ss. ?d s \<le> ?d s')"
          then have "?d s < ?d x" by simp
          with take l show "?d s \<le> 3 \<and> enat (?d s) < bd \<and> (\<forall>s'\<in>set (x # ss). ?d s \<le> ?d s')"
            using enat_lt_trans_nat [of "?d s" "?d x" bd] by simp
        next
          assume r: "?d s \<le> 3 \<and> enat (?d s) < bd \<and> (\<forall>s'\<in>set (x # ss). ?d s \<le> ?d s')"
          with m1 have "?d s \<le> ?d ?m" by simp
          with m_lt have "?d s < ?d x" by simp
          with r show "?d s \<le> 3 \<and> enat (?d s) < enat (?d x) \<and> (\<forall>s'\<in>set ss. ?d s \<le> ?d s')"
            by simp
        qed
      qed
      have ne: "find (\<lambda>s. ?d s \<le> 3 \<and> enat (?d s) < enat (?d x) \<and> (\<forall>s'\<in>set ss. ?d s \<le> ?d s')) ss \<noteq> None"
        using take m1 m2 m_lt by (intro find_Some_exists [of ?m]) auto
      from take False Cons.IH [of "Some x" "enat (?d x)"] eq ne show ?thesis
        by (auto simp: maxDistance_def split: option.splits)
    qed
  next
    case skip: False
    have eq: "find (\<lambda>s. ?d s \<le> 3 \<and> enat (?d s) < bd \<and> (\<forall>s'\<in>set ss. ?d s \<le> ?d s')) ss
        = find (\<lambda>s. ?d s \<le> 3 \<and> enat (?d s) < bd \<and> (\<forall>s'\<in>set (x # ss). ?d s \<le> ?d s')) ss"
    proof (rule find_cong_set)
      fix s assume s: "s \<in> set ss"
      have "?d s \<le> 3 \<Longrightarrow> enat (?d s) < bd \<Longrightarrow> ?d s \<le> ?d x"
        using skip enat_lt_not_lt [of "?d s" bd "?d x"] by auto
      then show "(?d s \<le> 3 \<and> enat (?d s) < bd \<and> (\<forall>s'\<in>set ss. ?d s \<le> ?d s'))
          = (?d s \<le> 3 \<and> enat (?d s) < bd \<and> (\<forall>s'\<in>set (x # ss). ?d s \<le> ?d s'))"
        by auto
    qed
    from skip Cons.IH [of bm bd] eq show ?thesis
      by (auto simp: maxDistance_def)
  qed
qed

lemma levenshteinDistance_refl [simp]: "levenshteinDistance a a = 0"
  by simp

text \<open>
  C18: The fuzzy loop of findSpell returns the first catalog entry whose distance is at
  most 3 and minimal over the list, and nothing when every distance exceeds 3.
\<close>

theorem fuzzy_scan_best_match: "fuzzy_scan n ss None \<infinity> = best_match n ss"
  by (simp add: fuzzy_scan_find best_match_def split: option.splits)

lemma find_distinct_key:
  "distinct (map f xs) \<Longrightarrow> x \<in> set xs \<Longrightarrow> find (\<lambda>y. f y = f x) xs = Some x"
  by (induction xs) (auto simp: image_iff)

lemma findSpell_eq:
  "findSpell input =
     (case find (\<lambda>s. js_toLowerCase (name s) = js_trim (js_toLowerCase input)) SPELLS of
        Some s \<Rightarrow> Some s
      | None \<Rightarrow> best_match (js_trim (js_toLowerCase input)) SPELLS)"
  by (simp add: findSpell_def fuzzy_scan_find best_match_def Let_def split: option.split)

text \<open>
  C19: findSpell returns a catalog spell for any input that, lower-cased and trimmed,
  equals the spell's lower-cased name.
\<close>

theorem findSpell_exact:
  assumes "s \<in> set SPELLS" and "js_trim (js_toLowerCase input) = js_toLowerCase (name s)"
  shows "findSpell input = Some s"
proof -
  have "find (\<lambda>y. js_toLowerCase (name y) = js_toLowerCase (name s)) SPELLS = Some s"
    using SPELLS_lower_distinct assms(1) by (rule find_distinct_key)
  with assms(2) show ?thesis by (simp add: findSpell_eq)
qed

lemma SPELLS_distinct: "distinct SPELLS"
  using SPELLS_lower_distinct by (simp add: distinct_map)

text \<open>
  C20: Whatever findSpell returns is a catalog entry within distance 3 of the normalised
  input, at minimal distance, and strictly closer than every earlier entry (ties go to
  the earlier entry).
\<close>

theorem findSpell_Some:
  assumes "findSpell input = Some s"
  defines "n \<equiv> js_trim (js_toLowerCase input)"
  shows "\<exists>i<length SPELLS. SPELLS ! i = s \<and> spell_dist n s \<le> 3
           \<and> (\<forall>s'\<in>set SPELLS. spell_dist n s \<le> spell_dist n s')
           \<and> (\<forall>j<i. spell_dist n s < spell_dist n (SPELLS ! j))"
proof (cases "find (\<lambda>s. js_toLowerCase (name s) = n) SPELLS")
  case (Some s0)
  with assms have s0: "s0 = s" by (simp add: findSpell_eq)
  from Some s0 obtain i where i: "i < length SPELLS" "SPELLS ! i = s"
      "js_toLowerCase (name s) = n" "\<forall>j<i. js_toLowerCase (name (SPELLS ! j)) \<noteq> n"
    by (auto simp: find_Some_iff)
  then have "spell_dist n s = 0" by simp
  moreover have "\<forall>j<i. 0 < spell_dist n (SPELLS ! j)"
    using i(4) by (metis gr0I levenshteinDistance_eq_0_iff)
  ultimately show ?thesis using i(1,2) by (intro exI [of _ i]) auto
next
  case None
  with assms have bm: "best_match n SPELLS = Some s" by (simp add: findSpell_eq)
  then obtain i where i: "i < length SPELLS" "SPELLS ! i = s" "spell_dist n s \<le> 3"
      "\<forall>s'\<in>set SPELLS. spell_dist n s \<le> spell_dist n s'"
      "\<forall>j<i. \<not> (spell_dist n (SPELLS ! j) \<le> 3
                \<and> (\<forall>s'\<in>set SPELLS. spell_dist n (SPELLS ! j) \<le> spell_dist n s'))"
    unfolding best_match_def find_Some_iff by blast
  have "\<forall>j<i. spell_dist n s < spell_dist n (SPELLS ! j)"
  proof (intro allI impI)
    fix j assume "j < i"
    with i(5) have "3 < spell_dist n (SPELLS ! j)
        \<or> (\<exists>s'\<in>set SPELLS. spell_dist n s' < spell_dist n (SPELLS ! j))"
      by (auto simp: not_le)
    with i(3,4) show "spell_dist n s < spell_dist n (SPELLS ! j)"
      by (meson le_less_trans)
  qed
  with i show ?thesis by blast
qed

text \<open>
  C21: findSpell returns nothing exactly when every catalog name is more than 3 edits
  away from the normalised input.
\<close>

theorem findSpell_None_iff:
  "findSpell input = None \<longleftrightarrow> (\<forall>s\<in>set SPELLS. 3 < spell_dist (js_trim (js_toLowerCase input)) s)"
  (is "?lhs \<longleftrightarrow> ?rhs")
proof
  assume ?lhs
  show ?rhs
  proof
    fix s assume s: "s \<in> set SPELLS"
    let ?n = "js_trim (js_toLowerCase input)"
    from \<open>?lhs\<close> have nofind: "find (\<lambda>s. js_toLowerCase (name s) = ?n) SPELLS = None"
      and bm: "best_match ?n SPELLS = None"
      by (auto simp: findSpell_eq split: option.splits)
    let ?m = "arg_min_list (spell_dist ?n) SPELLS"
    have ne: "SPELLS \<noteq> []" using s by auto
    have eqMin: "spell_dist ?n ?m = Min (spell_dist ?n ` set SPELLS)"
      using ne by (rule f_arg_min_list_f)
    have min: "\<forall>s'\<in>set SPELLS. spell_dist ?n ?m \<le> spell_dist ?n s'"
    proof
      fix s' assume "s' \<in> set SPELLS"
      then have "Min (spell_dist ?n ` set SPELLS) \<le> spell_dist ?n s'" by (intro Min_le) auto
      then show "spell_dist ?n ?m \<le> spell_dist ?n s'" by (rule ord_eq_le_trans [OF eqMin])
    qed
    have "?m \<in> set SPELLS" using ne by (rule arg_min_list_in)
    with bm have "\<not> (spell_dist ?n ?m \<le> 3 \<and> (\<forall>s'\<in>set SPELLS. spell_dist ?n ?m \<le> spell_dist ?n s'))"
      unfolding best_match_def find_None_iff by blast
    with min have "3 < spell_dist ?n ?m" by auto
    with min s show "3 < spell_dist ?n s" by (meson less_le_trans)
  qed
next
  assume r: ?rhs
  then have "\<forall>s\<in>set SPELLS. js_toLowerCase (name s) \<noteq> js_trim (js_toLowerCase input)"
    by (metis less_numeral_extra(3) levenshteinDistance_eq_0_iff not_less_zero)
  with r show ?lhs
    by (auto simp: findSpell_eq best_match_def find_None_iff split: option.splits)
qed

lemma SPELLS_name_long: "\<forall>s\<in>set SPELLS. 3 < length (name s)"
  by (simp add: SPELLS_def)

text \<open>
  C22: An empty or whitespace-only input resolves to no spell.
\<close>

theorem findSpell_blank:
  "\<forall>c\<in>set input. js_is_space c \<Longrightarrow> findSpell input = None"
proof -
  assume "\<forall>c\<in>set input. js_is_space c"
  then have "\<forall>c\<in>set (js_toLowerCase input). js_is_space c"
    by (simp add: js_toLowerCase_def)
  then have n: "js_trim (js_toLowerCase input) = []" by (rule js_trim_all_space)
  have "find (\<lambda>s. js_toLowerCase (name s) = []) SPELLS = None"
    using SPELLS_name_long by (auto simp: find_None_iff)
  moreover have "best_match [] SPELLS = None"
    using SPELLS_name_long by (auto simp: best_match_def find_None_iff)
  ultimately show ?thesis by (simp add: findSpell_eq n)
qed

lemma findSpell_typo: "findSpell ''Stupefyy'' = Some (SPELLS ! 2)"
  by code_simp

subsection \<open>Witnesses at concrete inputs\<close>

theorem findSpell_exact_witness:
  "SPELLS ! 2 \<in> set SPELLS \<and> js_trim (js_toLowerCase ''  sTuPeFy '') = js_toLowerCase (name (SPELLS ! 2))
   \<and> findSpell ''  sTuPeFy '' = Some (SPELLS ! 2)"
proof -
  have h1: "SPELLS ! 2 \<in> set SPELLS" by (simp add: SPELLS_def)
  have h2: "js_trim (js_toLowerCase ''  sTuPeFy '') = js_toLowerCase (name (SPELLS ! 2))"
    by code_simp
  show ?thesis using h1 h2 findSpell_exact [OF h1 h2] by simp
qed

theorem findSpell_Some_witness:
  "findSpell ''Stupefyy'' = Some (SPELLS ! 2)
   \<and> spell_dist (js_trim (js_toLowerCase ''Stupefyy'')) (SPELLS ! 2) \<le> 3"
proof -
  from findSpell_Some [OF findSpell_typo] obtain i where
    "SPELLS ! i = SPELLS ! 2" "spell_dist (js_trim (js_toLowerCase ''Stupefyy'')) (SPELLS ! i) \<le> 3"
    by blast
  then show ?thesis using findSpell_typo by simp
qed

theorem findSpell_None_iff_witness:
  "findSpell ''xyz'' = None \<and> list_all (\<lambda>s. 3 < spell_dist (js_trim (js_toLowerCase ''xyz'')) s) SPELLS"
proof -
  have n: "findSpell ''xyz'' = None" by code_simp
  then show ?thesis using findSpell_None_iff [of "''xyz''"] by (simp add: list_all_iff)
qed

theorem findSpell_blank_witness: "list_all js_is_space ''   '' \<and> findSpell ''   '' = None"
proof -
  have h: "\<forall>c\<in>set ''   ''. js_is_space c" by (simp add: js_simps)
  show ?thesis using h findSpell_blank [OF h] by (simp add: list_all_iff)
qed

theorem fuzzy_scan_best_match_witness:
  "fuzzy_scan ''stupefyy'' SPELLS None \<infinity> = Some (SPELLS ! 2)
   \<and> best_match ''stupefyy'' SPELLS = Some (SPELLS ! 2)"
proof -
  have f: "fuzzy_scan ''stupefyy'' SPELLS None \<infinity> = Some (SPELLS ! 2)" by code_simp
  show ?thesis using f fuzzy_scan_best_match [of "''stupefyy''" SPELLS] by simp
qed

end
