(* ===== verification/Achievements.thy ===== *)
theory Achievements
  imports Prelude
begin

section \<open>Achievement evaluator (src/src/data/achievements.ts)\<close>

text \<open>
  \<open>GameStats\<close> becomes the record \<open>gameStats\<close> (counters as \<open>nat\<close>, the damage
  totals and the optional \<open>healthRemaining\<close> as JS numbers, \<open>int\<close>); the
  \<open>Achievement\<close> interface the record \<open>achievement\<close>, its \<open>condition\<close> a field of
  function type; \<open>ACHIEVEMENTS\<close> the list of the ten catalog entries; and
  \<open>checkAchievements\<close> the filter of the source. \<open>unlock_new\<close> is the merge that
  \<open>endGame\<close> (src/src/hooks/useGameState.ts) performs with its result: an
  achievement becomes unlocked when some newly unlocked entry has its id.
\<close>

record gameStats =
  spellsCast :: nat
  correctSpells :: nat
  consecutiveCorrectSpells :: nat
  gamesWon :: nat
  gamesLost :: nat
  damageDealt :: int
  damageTaken :: int
  healthRemaining :: "int option"
  usedHealingSpells :: bool
  perfectGames :: nat
  unforgivableCursesUsed :: nat

record achievement =
  achId :: string
  achName :: string
  achDescription :: string
  title :: "string option"
  condition :: "gameStats \<Rightarrow> bool"
  unlocked :: bool

definition ACHIEVEMENTS :: "achievement list" where
  "ACHIEVEMENTS = [
    \<lparr>achId = ''first_spell'', achName = ''First Incantation'',
     achDescription = ''Cast your first spell correctly'', title = Some ''Novice Spellcaster'',
     condition = (\<lambda>stats. correctSpells stats \<ge> 1), unlocked = False\<rparr>,
    \<lparr>achId = ''spell_streak'', achName = ''Perfect Pronunciation'',
     achDescription = ''Cast 5 correct spells in a row'', title = Some ''Precise Duelist'',
     condition = (\<lambda>stats. consecutiveCorrectSpells stats \<ge> 5), unlocked = False\<rparr>,
    \<lparr>achId = ''first_victory'', achName = ''First Victory'',
     achDescription = ''Win your first duel'', title = Some ''Duel Winner'',
     condition = (\<lambda>stats. gamesWon stats \<ge> 1), unlocked = False\<rparr>,
    \<lparr>achId = ''narrow_victory'', achName = ''Narrow Escape'',
     achDescription = ''Win with 10 HP or less remaining'', title = Some ''Survivor'',
     condition = (\<lambda>stats. gamesWon stats \<ge> 1 \<and> or_zero (healthRemaining stats) \<le> 10),
     unlocked = False\<rparr>,
    \<lparr>achId = ''no_healing'', achName = ''Pure Combatant'',
     achDescription = ''Win without using healing spells'', title = Some ''Combat Purist'',
     condition = (\<lambda>stats. gamesWon stats \<ge> 1 \<and> \<not> usedHealingSpells stats), unlocked = False\<rparr>,
    \<lparr>achId = ''perfect_game'', achName = ''Flawless Victory'',
     achDescription = ''Win without taking any damage'', title = Some ''Untouchable'',
     condition = (\<lambda>stats. perfectGames stats \<ge> 1), unlocked = False\<rparr>,
    \<lparr>achId = ''spell_master'', achName = ''Spellcasting Mastery'',
     achDescription = ''Cast 50 spells correctly'', title = Some ''Spell Master'',
     condition = (\<lambda>stats. correctSpells stats \<ge> 50), unlocked = False\<rparr>,
    \<lparr>achId = ''veteran_duelist'', achName = ''Veteran Duelist'',
     achDescription = ''Win 10 duels'', title = Some ''Duel Veteran'',
     condition = (\<lambda>stats. gamesWon stats \<ge> 10), unlocked = False\<rparr>,
    \<lparr>achId = ''dark_arts'', achName = ''Dark Arts Practitioner'',
     achDescription = ''Use an Unforgivable Curse'', title = Some ''Dark Wizard'',
     condition = (\<lambda>stats. unforgivableCursesUsed stats \<ge> 1), unlocked = False\<rparr>,
    \<lparr>achId = ''unstoppable'', achName = ''Unstoppable Force'',
     achDescription = ''Deal 500 total damage across all games'', title = Some ''Destroyer'',
     condition = (\<lambda>stats. damageDealt stats \<ge> 500), unlocked = False\<rparr>
  ]"

definition checkAchievements :: "gameStats \<Rightarrow> achievement list \<Rightarrow> achievement list" where
  "checkAchievements stats achievements =
     filter (\<lambda>achievement. \<not> unlocked achievement \<and> condition achievement stats) achievements"

definition unlock_new :: "achievement list \<Rightarrow> achievement list \<Rightarrow> achievement list" where
  "unlock_new newAchievements achievements =
     map (\<lambda>achievement. achievement\<lparr>unlocked :=
            unlocked achievement \<or> list_ex (\<lambda>na. achId na = achId achievement) newAchievements\<rparr>)
       achievements"

text \<open>One evaluation pass as \<open>endGame\<close> runs it: check, then merge.\<close>

definition evaluate_achievements :: "gameStats \<Rightarrow> achievement list \<Rightarrow> achievement list" where
  "evaluate_achievements stats achievements =
     unlock_new (checkAchievements stats achievements) achievements"

subsection \<open>Lemmas\<close>

lemma ACHIEVEMENTS_ids_distinct: "distinct (map achId ACHIEVEMENTS)"
  by (simp add: ACHIEVEMENTS_def)

lemma ACHIEVEMENTS_locked: "\<forall>a\<in>set ACHIEVEMENTS. \<not> unlocked a"
  by (simp add: ACHIEVEMENTS_def)

lemma length_unlock_new [simp]: "length (unlock_new n achs) = length achs"
  by (simp add: unlock_new_def)

lemma unlock_new_nth:
  "i < length achs \<Longrightarrow> unlock_new n achs ! i
     = (achs ! i)\<lparr>unlocked := unlocked (achs ! i) \<or> list_ex (\<lambda>na. achId na = achId (achs ! i)) n\<rparr>"
  by (simp add: unlock_new_def)

lemma unlock_new_ids [simp]: "map achId (unlock_new n achs) = map achId achs"
  by (simp add: unlock_new_def comp_def)

lemma unlock_new_conditions [simp]: "map condition (unlock_new n achs) = map condition achs"
  by (simp add: unlock_new_def comp_def)

lemma length_evaluate_achievements [simp]:
  "length (evaluate_achievements st achs) = length achs"
  by (simp add: evaluate_achievements_def)

lemma evaluate_achievements_ids [simp]:
  "map achId (evaluate_achievements st achs) = map achId achs"
  by (simp add: evaluate_achievements_def)

lemma evaluate_achievements_conditions [simp]:
  "map condition (evaluate_achievements st achs) = map condition achs"
  by (simp add: evaluate_achievements_def)

lemma list_ex_checkAchievements:
  "list_ex (\<lambda>na. achId na = k) (checkAchievements st achs)
     \<longleftrightarrow> (\<exists>a\<in>set achs. achId a = k \<and> \<not> unlocked a \<and> condition a st)"
  by (auto simp: checkAchievements_def list_ex_iff)

text \<open>
  C25: With distinct ids, an achievement is unlocked after an evaluation pass exactly
  when it was unlocked before or its condition holds on the stats.
\<close>

theorem evaluate_achievements_nth:
  assumes "distinct (map achId achs)" "i < length achs"
  shows "unlocked (evaluate_achievements st achs ! i)
           \<longleftrightarrow> unlocked (achs ! i) \<or> condition (achs ! i) st"
proof -
  have "(\<exists>a\<in>set achs. achId a = achId (achs ! i) \<and> \<not> unlocked a \<and> condition a st)
          \<longleftrightarrow> \<not> unlocked (achs ! i) \<and> condition (achs ! i) st"
    using assms by (metis distinct_map inj_on_eq_iff nth_mem)
  with assms(2) show ?thesis
    by (auto simp: evaluate_achievements_def unlock_new_nth list_ex_checkAchievements)
qed

text \<open>
  C24: After one evaluation pass (check, then merge by id), checking again with the same
  stats returns no newly unlocked achievement: each achievement fires at most once.
\<close>

theorem evaluate_achievements_idem:
  "checkAchievements st (evaluate_achievements st achs) = []"
proof -
  have "\<forall>a\<in>set (evaluate_achievements st achs). condition a st \<longrightarrow> unlocked a"
  proof
    fix a assume "a \<in> set (evaluate_achievements st achs)"
    then obtain b where b: "b \<in> set achs"
      and a: "a = b\<lparr>unlocked := unlocked b \<or> list_ex (\<lambda>na. achId na = achId b) (checkAchievements st achs)\<rparr>"
      by (auto simp: evaluate_achievements_def unlock_new_def)
    show "condition a st \<longrightarrow> unlocked a"
      using b a by (auto simp: list_ex_checkAchievements)
  qed
  then show ?thesis by (auto simp: checkAchievements_def filter_empty_conv)
qed

subsection \<open>Witnesses at concrete inputs\<close>

theorem evaluate_achievements_nth_witness:
  "let st = \<lparr>spellsCast = 1, correctSpells = 1, consecutiveCorrectSpells = 1, gamesWon = 0,
             gamesLost = 0, damageDealt = 15, damageTaken = 0, healthRemaining = None,
             usedHealingSpells = False, perfectGames = 0, unforgivableCursesUsed = 0\<rparr>
   in distinct (map achId ACHIEVEMENTS) \<and> 0 < length ACHIEVEMENTS
      \<and> unlocked (evaluate_achievements st ACHIEVEMENTS ! 0)
      \<and> \<not> unlocked (evaluate_achievements st ACHIEVEMENTS ! 2)"
proof -
  define st where "st = \<lparr>spellsCast = 1, correctSpells = 1, consecutiveCorrectSpells = 1, gamesWon = 0,
             gamesLost = 0, damageDealt = 15, damageTaken = 0, healthRemaining = None,
             usedHealingSpells = False, perfectGames = 0, unforgivableCursesUsed = 0\<rparr>"
  have d: "distinct (map achId ACHIEVEMENTS)" by (simp add: ACHIEVEMENTS_def)
  have l0: "0 < length ACHIEVEMENTS" and l2: "2 < length ACHIEVEMENTS" by (simp_all add: ACHIEVEMENTS_def)
  have c0: "condition (ACHIEVEMENTS ! 0) st" and u0: "\<not> unlocked (ACHIEVEMENTS ! 0)"
    and c2: "\<not> condition (ACHIEVEMENTS ! 2) st" and u2: "\<not> unlocked (ACHIEVEMENTS ! 2)"
    by (simp_all add: ACHIEVEMENTS_def st_def)
  show ?thesis
    using d l0 evaluate_achievements_nth [OF d l0, of st] evaluate_achievements_nth [OF d l2, of st]
      c0 u0 c2 u2
    unfolding Let_def st_def [symmetric] by blast
qed

end
