(* ===== verification/Engine.thy ===== *)
theory Engine
  imports Resolver Achievements
begin

section \<open>Battle engine (src/src/hooks/useGameState.ts)\<close>

text \<open>
  The hook keeps one \<open>GameState\<close> in React state and changes it only through
  \<open>setGameState\<close>. Each operation is modelled as a function from the state before to
  the state after (an updater \<open>prev => next\<close> is exactly such a function):
  \<^item> \<open>startGame\<close>, \<open>resetGame\<close>, \<open>endGame\<close>, and the body of the regeneration
    interval (\<open>regenTick\<close>) are total state transformers;
  \<^item> \<open>castSpell\<close> first resolves the input and checks the acting player's stamina and
    cooldowns, then applies the updater (\<open>apply_spell\<close>). It returns the
    \<open>{success, message}\<close> object together with the new state. Reading a property of
    an \<open>undefined\<close> player (no match running) throws a \<open>TypeError\<close>; that is the
    \<open>Inl\<close> branch of the result.
  \<open>currentPlayer\<close> is a JS number and the code indexes with \<open>1 - currentPlayer\<close>, so
  it is an \<open>int\<close> and array reads go through \<open>js_at\<close>. The React scheduling of the
  updaters (the checks read the rendered state, the updater its \<open>prev\<close>) is serialised:
  both read the same state, as they do whenever no other update is pending.
\<close>

datatype gameMode = Menu | AIMode | PvP
datatype difficulty = Easy | Normal | Hard
datatype gamePhase = Setup | Playing | Casting | Ended

record player =
  playerId :: string
  playerName :: string
  hp :: int
  maxHp :: int
  stamina :: int
  maxStamina :: int
  isAI :: bool
  cooldowns :: "int js_map"
  statusEffects :: "int js_map"
  titles :: "string list"

record lastSpellRec =
  lsCaster :: string
  lsSpell :: spell
  lsTarget :: string
  lsSuccess :: bool

record gameState =
  mode :: gameMode
  difficulty :: difficulty
  phase :: gamePhase
  currentPlayer :: int
  players :: "player list"
  lastSpell :: "lastSpellRec option"
  turnTimer :: nat
  gameStats :: gameStats
  achievements :: "achievement list"

record castResult =
  success :: bool
  message :: string

datatype jsError = TypeError

subsection \<open>Initial values\<close>

definition initialPlayer :: "string \<Rightarrow> string \<Rightarrow> bool \<Rightarrow> player" where
  "initialPlayer pid pname ai =
     \<lparr>playerId = pid, playerName = pname, hp = 100, maxHp = 100, stamina = 100,
      maxStamina = 100, isAI = ai, cooldowns = [], statusEffects = [], titles = []\<rparr>"

definition initialStats :: gameStats where
  "initialStats =
     \<lparr>spellsCast = 0, correctSpells = 0, consecutiveCorrectSpells = 0, gamesWon = 0,
      gamesLost = 0, damageDealt = 0, damageTaken = 0, healthRemaining = None,
      usedHealingSpells = False, perfectGames = 0, unforgivableCursesUsed = 0\<rparr>"

definition initialState :: gameState where
  "initialState =
     \<lparr>mode = Menu, difficulty = Normal, phase = Setup, currentPlayer = 0, players = [],
      lastSpell = None, turnTimer = 30, gameStats = initialStats, achievements = ACHIEVEMENTS\<rparr>"

subsection \<open>startGame\<close>

definition startGame :: "gameMode \<Rightarrow> difficulty \<Rightarrow> gameState \<Rightarrow> gameState" where
  "startGame m d prev =
     (let ps = (if m = AIMode
                then [initialPlayer ''player1'' ''Player 1'' False,
                      initialPlayer ''ai'' ''Dark Wizard'' True]
                else [initialPlayer ''player1'' ''Player 1'' False,
                      initialPlayer ''player2'' ''Player 2'' False])
      in prev\<lparr>mode := m, difficulty := d, phase := Playing, players := ps, currentPlayer := 0,
              gameStats := (gameStats prev)\<lparr>usedHealingSpells := False,
                                            healthRemaining := None\<rparr>\<rparr>)"

subsection \<open>castSpell\<close>

definition unforgivableCurses :: "string list" where
  "unforgivableCurses = [''Avada Kedavra'', ''Crucio'', ''Imperio'']"

text \<open>
  The effect of one spell on caster and target, as the \<open>switch (spell.type)\<close> of the
  updater computes it: the damage dealt, and the two players afterwards. The caster
  passed in has already paid the stamina and got the cooldown. \<open>buff\<close> and
  \<open>debuff\<close> have no case in the switch, so they change nothing.
\<close>

definition spell_effect :: "spell \<Rightarrow> player \<Rightarrow> player \<Rightarrow> int \<times> player \<times> player" where
  "spell_effect sp caster target =
     (case type sp of
        Attack \<Rightarrow>
          (let dmg = or_zero (damage sp)
           in (dmg, caster, target\<lparr>hp := max 0 (hp target - dmg)\<rparr>))
      | Healing \<Rightarrow>
          (let heal = or_zero (healing sp)
           in (0, caster\<lparr>hp := min (maxHp caster) (hp caster + heal)\<rparr>, target))
      | Defense \<Rightarrow> (0, caster, target)
      | Special \<Rightarrow>
          (let dmg = or_zero (damage sp); heal = or_zero (healing sp)
           in (dmg, caster\<lparr>hp := min (maxHp caster) (hp caster + heal)\<rparr>,
               target\<lparr>hp := max 0 (hp target - dmg)\<rparr>))
      | Buff \<Rightarrow> (0, caster, target)
      | Debuff \<Rightarrow> (0, caster, target))"

definition cast_stats :: "spell \<Rightarrow> int \<Rightarrow> gameStats \<Rightarrow> gameStats" where
  "cast_stats sp dmg st =
     st\<lparr>spellsCast := Suc (spellsCast st),
        correctSpells := Suc (correctSpells st),
        consecutiveCorrectSpells := Suc (consecutiveCorrectSpells st),
        damageDealt := damageDealt st + dmg,
        usedHealingSpells := (if type sp = Healing then True else usedHealingSpells st),
        unforgivableCursesUsed :=
          (if name sp \<in> set unforgivableCurses then Suc (unforgivableCursesUsed st)
           else unforgivableCursesUsed st)\<rparr>"

text \<open>The \<open>setGameState(prev => \<dots>)\<close> updater of a successful cast.\<close>

definition apply_spell :: "spell \<Rightarrow> gameState \<Rightarrow> jsError + gameState" where
  "apply_spell sp prev =
     (let cp = currentPlayer prev; tp = 1 - currentPlayer prev
      in case (js_at (players prev) cp, js_at (players prev) tp) of
           (Some caster0, Some target0) \<Rightarrow>
             (let caster1 = caster0\<lparr>stamina := max 0 (stamina caster0 - staminaCost sp),
                                    cooldowns := js_map_set (cooldowns caster0) (name sp) (cooldown sp)\<rparr>;
                  (dmg, caster, target) = spell_effect sp caster1 target0;
                  newPlayers = (players prev)[nat cp := caster, nat tp := target]
              in Inr (prev\<lparr>players := newPlayers,
                           currentPlayer := tp,
                           phase := (if hp target \<le> 0 then Ended else Playing),
                           lastSpell := Some \<lparr>lsCaster = playerName caster, lsSpell = sp,
                                              lsTarget = playerName target, lsSuccess = True\<rparr>,
                           gameStats := cast_stats sp dmg (gameStats prev)\<rparr>))
         | _ \<Rightarrow> Inl TypeError)"

definition castSpell :: "gameState \<Rightarrow> string \<Rightarrow> jsError + castResult \<times> gameState" where
  "castSpell s spellInput =
     (case findSpell spellInput of
        None \<Rightarrow>
          Inr (\<lparr>success = False, message = ''Unknown spell!''\<rparr>,
               s\<lparr>gameStats := (gameStats s)\<lparr>spellsCast := Suc (spellsCast (gameStats s)),
                                           consecutiveCorrectSpells := 0\<rparr>\<rparr>)
      | Some sp \<Rightarrow>
          (case js_at (players s) (currentPlayer s) of
             None \<Rightarrow> Inl TypeError
           | Some caster \<Rightarrow>
               if stamina caster < staminaCost sp
               then Inr (\<lparr>success = False, message = ''Not enough stamina!''\<rparr>, s)
               else if js_map_has (cooldowns caster) (name sp)
               then Inr (\<lparr>success = False, message = name sp @ '' is on cooldown!''\<rparr>, s)
               else (case apply_spell sp s of
                       Inl e \<Rightarrow> Inl e
                     | Inr s' \<Rightarrow> Inr (\<lparr>success = True, message = name sp @ '' cast successfully!''\<rparr>, s'))))"

subsection \<open>Regeneration\<close>

text \<open>The body of the one-second interval that runs while the phase is \<open>playing\<close>.\<close>

definition regen_player :: "player \<Rightarrow> player" where
  "regen_player p =
     p\<lparr>stamina := min (maxStamina p) (stamina p + 2),
       cooldowns := filter (\<lambda>(_, c). c > 0) (map (\<lambda>(sp, c). (sp, c - 1)) (cooldowns p))\<rparr>"

definition regenTick :: "gameState \<Rightarrow> gameState" where
  "regenTick prev = prev\<lparr>players := map regen_player (players prev)\<rparr>"

subsection \<open>endGame and resetGame\<close>

definition endGame :: "string \<Rightarrow> gameState \<Rightarrow> gameState" where
  "endGame winnerId prev =
     (let st = gameStats prev;
          winner = find (\<lambda>p. playerId p = winnerId) (players prev);
          newStats =
            (case winner of
               Some w \<Rightarrow>
                 if playerId w = ''player1'' \<or> playerId w = ''player2''
                 then st\<lparr>gamesWon := Suc (gamesWon st), healthRemaining := Some (hp w),
                         perfectGames :=
                           (case find (\<lambda>p. playerId p \<noteq> winnerId) (players prev) of
                              Some l \<Rightarrow> if hp l = 100 then Suc (perfectGames st) else perfectGames st
                            | None \<Rightarrow> perfectGames st)\<rparr>
                 else st\<lparr>gamesLost := Suc (gamesLost st)\<rparr>
             | None \<Rightarrow> st\<lparr>gamesLost := Suc (gamesLost st)\<rparr>)
      in prev\<lparr>phase := Ended, gameStats := newStats,
              achievements := evaluate_achievements newStats (achievements prev)\<rparr>)"

definition resetGame :: "gameState \<Rightarrow> gameState" where
  "resetGame prev =
     prev\<lparr>mode := Menu, phase := Setup, players := [], currentPlayer := 0, lastSpell := None\<rparr>"

subsection \<open>Well-formedness of players and states\<close>

text \<open>
  A player is well formed when health and stamina lie in \<open>[0, max]\<close>, its cooldown
  map has distinct keys and only positive remaining times. A state is well formed when
  its players are, and it holds either no players (before a match) or exactly two with
  \<open>currentPlayer\<close> 0 or 1.
\<close>

definition player_ok :: "player \<Rightarrow> bool" where
  "player_ok p \<longleftrightarrow> 0 \<le> hp p \<and> hp p \<le> maxHp p \<and> 0 \<le> stamina p \<and> stamina p \<le> maxStamina p
     \<and> distinct (map fst (cooldowns p)) \<and> list_all (\<lambda>(_, c). 0 < c) (cooldowns p)"

definition state_ok :: "gameState \<Rightarrow> bool" where
  "state_ok s \<longleftrightarrow> list_all player_ok (players s)
     \<and> (players s = [] \<or> (length (players s) = 2 \<and> (currentPlayer s = 0 \<or> currentPlayer s = 1)))"

subsection \<open>Lemmas\<close>

lemma js_map_has_map_of: "js_map_has m k \<longleftrightarrow> map_of m k \<noteq> None"
  by (simp add: js_map_has_def map_of_eq_None_iff)

lemma list_all_update: "list_all P xs \<Longrightarrow> P x \<Longrightarrow> list_all P (xs[i := x])"
  by (auto simp: list_all_iff dest: set_update_subset_insert [THEN subsetD])

lemma findSpell_in_SPELLS: "findSpell input = Some sp \<Longrightarrow> sp \<in> set SPELLS"
  by (auto simp: findSpell_eq best_match_def find_Some_iff split: option.splits)

lemma spell_effect_fields:
  assumes "spell_effect sp c t = (d, c', t')"
  shows "c' = c\<lparr>hp := hp c'\<rparr> \<and> t' = t\<lparr>hp := hp t'\<rparr>"
  using assms by (cases "type sp") (auto simp: spell_effect_def Let_def)

lemma spell_effect_ok:
  assumes "spell_effect sp c t = (d, c', t')" "sp \<in> set SPELLS" "player_ok c" "player_ok t"
  shows "player_ok c' \<and> player_ok t' \<and> 0 \<le> d"
  using assms SPELLS_damage_nonneg [OF assms(2)] SPELLS_healing_nonneg [OF assms(2)]
  by (cases "type sp") (auto simp: spell_effect_def Let_def player_ok_def)

lemma pay_ok:
  assumes "player_ok c" "sp \<in> set SPELLS"
  shows "player_ok (c\<lparr>stamina := max 0 (stamina c - staminaCost sp),
                      cooldowns := js_map_set (cooldowns c) (name sp) (cooldown sp)\<rparr>)"
proof -
  have pos: "0 < cooldown sp" using assms(2) by (rule SPELLS_cooldown_pos)
  have "list_all (\<lambda>(_, c). 0 < c) (js_map_set (cooldowns c) (name sp) (cooldown sp))"
    using assms(1) pos js_map_set_subset [of "cooldowns c" "name sp" "cooldown sp"]
    unfolding player_ok_def list_all_iff by blast
  with assms SPELLS_cost_pos [OF assms(2)] show ?thesis by (auto simp: player_ok_def)
qed

lemma apply_spell_ok:
  assumes "state_ok s" "sp \<in> set SPELLS" "apply_spell sp s = Inr s'"
  shows "state_ok s'"
proof -
  obtain c0 t0 where c0: "js_at (players s) (currentPlayer s) = Some c0"
      and t0: "js_at (players s) (1 - currentPlayer s) = Some t0"
    using assms(3) by (auto simp: apply_spell_def Let_def split: option.splits)
  let ?c1 = "c0\<lparr>stamina := max 0 (stamina c0 - staminaCost sp),
                cooldowns := js_map_set (cooldowns c0) (name sp) (cooldown sp)\<rparr>"
  obtain d c' t' where eff: "spell_effect sp ?c1 t0 = (d, c', t')"
    by (cases "spell_effect sp ?c1 t0") auto
  have "player_ok c0" "player_ok t0"
    using assms(1) c0 t0 by (auto simp: state_ok_def list_all_iff js_at_Some_iff)
  then have ok: "player_ok c'" "player_ok t'"
    using eff assms(2) pay_ok spell_effect_ok by blast+
  have s': "s' = s\<lparr>players := (players s)[nat (currentPlayer s) := c', nat (1 - currentPlayer s) := t'],
                  currentPlayer := 1 - currentPlayer s,
                  phase := (if hp t' \<le> 0 then Ended else Playing),
                  lastSpell := Some \<lparr>lsCaster = playerName c', lsSpell = sp,
                                     lsTarget = playerName t', lsSuccess = True\<rparr>,
                  gameStats := cast_stats sp d (gameStats s)\<rparr>"
    using assms(3) c0 t0 eff by (simp add: apply_spell_def Let_def)
  have two: "length (players s) = 2 \<and> (currentPlayer s = 0 \<or> currentPlayer s = 1)"
    using assms(1) c0 by (auto simp: state_ok_def)
  show ?thesis
    using assms(1) ok two unfolding s' state_ok_def
    by (auto intro!: list_all_update)
qed

lemma castSpell_cases:
  assumes "castSpell s input = Inr (r, s')"
  shows "(findSpell input = None \<and> r = \<lparr>success = False, message = ''Unknown spell!''\<rparr>
            \<and> s' = s\<lparr>gameStats := (gameStats s)\<lparr>spellsCast := Suc (spellsCast (gameStats s)),
                                                consecutiveCorrectSpells := 0\<rparr>\<rparr>)
       \<or> (\<exists>sp c. findSpell input = Some sp \<and> js_at (players s) (currentPlayer s) = Some c
            \<and> ((stamina c < staminaCost sp \<and> r = \<lparr>success = False, message = ''Not enough stamina!''\<rparr> \<and> s' = s)
               \<or> (\<not> stamina c < staminaCost sp \<and> js_map_has (cooldowns c) (name sp)
                  \<and> r = \<lparr>success = False, message = name sp @ '' is on cooldown!''\<rparr> \<and> s' = s)
               \<or> (\<not> stamina c < staminaCost sp \<and> \<not> js_map_has (cooldowns c) (name sp)
                  \<and> r = \<lparr>success = True, message = name sp @ '' cast successfully!''\<rparr>
                  \<and> apply_spell sp s = Inr s')))"
  using assms by (auto simp: castSpell_def split: option.splits if_splits sum.splits)

text \<open>
  C9: castSpell maps a well-formed state to a well-formed state: stamina is clamped at
  0, target health at 0 and caster health at maxHp, and the cooldown map keeps distinct
  keys and positive times.
\<close>

theorem castSpell_preserves_state_ok:
  assumes "state_ok s" "castSpell s input = Inr (r, s')"
  shows "state_ok s'"
  using castSpell_cases [OF assms(2)]
proof (elim disjE exE conjE)
  assume "s' = s\<lparr>gameStats := (gameStats s)\<lparr>spellsCast := Suc (spellsCast (gameStats s)),
                                                consecutiveCorrectSpells := 0\<rparr>\<rparr>"
  with assms(1) show ?thesis by (simp add: state_ok_def)
next
  fix sp c assume "findSpell input = Some sp" "apply_spell sp s = Inr s'"
  then show ?thesis using assms(1) findSpell_in_SPELLS apply_spell_ok by blast
qed (use assms(1) in simp_all)

text \<open>
  C10: A failed cast leaves the whole state unchanged, except that an unknown spell
  increments spellsCast and resets the correct-spell streak.
\<close>

theorem castSpell_failure_no_effect:
  assumes "castSpell s input = Inr (r, s')" "\<not> success r"
  shows "s' = s \<or> (findSpell input = None \<and>
           s' = s\<lparr>gameStats := (gameStats s)\<lparr>spellsCast := Suc (spellsCast (gameStats s)),
                                               consecutiveCorrectSpells := 0\<rparr>\<rparr>)"
  using castSpell_cases [OF assms(1)] assms(2) by auto

lemma apply_spell_Inr:
  assumes "apply_spell sp s = Inr s'"
  obtains c0 t0 d c' t' where "js_at (players s) (currentPlayer s) = Some c0"
    "js_at (players s) (1 - currentPlayer s) = Some t0"
    "spell_effect sp (c0\<lparr>stamina := max 0 (stamina c0 - staminaCost sp),
        cooldowns := js_map_set (cooldowns c0) (name sp) (cooldown sp)\<rparr>) t0 = (d, c', t')"
    "s' = s\<lparr>players := (players s)[nat (currentPlayer s) := c', nat (1 - currentPlayer s) := t'],
                  currentPlayer := 1 - currentPlayer s,
                  phase := (if hp t' \<le> 0 then Ended else Playing),
                  lastSpell := Some \<lparr>lsCaster = playerName c', lsSpell = sp,
                                     lsTarget = playerName t', lsSuccess = True\<rparr>,
                  gameStats := cast_stats sp d (gameStats s)\<rparr>"
proof -
  obtain c0 t0 where c0: "js_at (players s) (currentPlayer s) = Some c0"
      and t0: "js_at (players s) (1 - currentPlayer s) = Some t0"
    using assms by (auto simp: apply_spell_def Let_def split: option.splits)
  let ?c1 = "c0\<lparr>stamina := max 0 (stamina c0 - staminaCost sp),
                cooldowns := js_map_set (cooldowns c0) (name sp) (cooldown sp)\<rparr>"
  obtain d c' t' where eff: "spell_effect sp ?c1 t0 = (d, c', t')"
    by (cases "spell_effect sp ?c1 t0") auto
  show ?thesis
    by (rule that [OF c0 t0 eff]) (use assms c0 t0 eff in \<open>simp add: apply_spell_def Let_def\<close>)
qed

lemma apply_spell_turn: "apply_spell sp s = Inr s' \<Longrightarrow> currentPlayer s' = 1 - currentPlayer s"
  by (erule apply_spell_Inr) simp

text \<open>
  C11: The acting player index flips to 1 - currentPlayer after every successful cast
  and is unchanged by a failed cast.
\<close>

theorem castSpell_turn:
  assumes "castSpell s input = Inr (r, s')"
  shows "currentPlayer s' = (if success r then 1 - currentPlayer s else currentPlayer s)"
  using castSpell_cases [OF assms] apply_spell_turn by auto

text \<open>
  C13: When the resolved spell costs more stamina than the acting player has, castSpell
  returns 'Not enough stamina!' and the unchanged state, whatever the cooldowns (the
  stamina check comes first).
\<close>

theorem castSpell_insufficient_stamina:
  assumes "findSpell input = Some sp" "js_at (players s) (currentPlayer s) = Some c"
    "stamina c < staminaCost sp"
  shows "castSpell s input = Inr (\<lparr>success = False, message = ''Not enough stamina!''\<rparr>, s)"
  using assms by (simp add: castSpell_def)

text \<open>
  C14: When the acting player can pay for the resolved spell but it is in their cooldown
  map, castSpell returns '<name> is on cooldown!' and the unchanged state.
\<close>

theorem castSpell_on_cooldown:
  assumes "findSpell input = Some sp" "js_at (players s) (currentPlayer s) = Some c"
    "staminaCost sp \<le> stamina c" "js_map_has (cooldowns c) (name sp)"
  shows "castSpell s input = Inr (\<lparr>success = False, message = name sp @ '' is on cooldown!''\<rparr>, s)"
  using assms by (simp add: castSpell_def)

lemma findSpell_Stupefy: "findSpell ''Stupefy'' = Some (SPELLS ! 2)"
  by code_simp

lemma findSpell_Stupefyy: "findSpell ''Stupefyy'' = Some (SPELLS ! 2)"
  by code_simp

text \<open>
  Casting 'Stupefyy' (one extra letter) behaves exactly like casting 'Stupefy' in
  every state.
\<close>

lemma castSpell_typo_same: "castSpell s ''Stupefyy'' = castSpell s ''Stupefy''"
  by (simp add: castSpell_def findSpell_Stupefy findSpell_Stupefyy)

text \<open>
  Player 1 casting 'Stupefy' at the start of a two-player match succeeds, leaves
  the caster with stamina 90 and Stupefy on a 3-tick cooldown, the target with health
  85, and passes the turn.
\<close>

lemma stupefy_scenario:
  "(case castSpell (startGame PvP Normal initialState) ''Stupefy'' of
      Inr (r, s') \<Rightarrow> success r \<and> stamina (players s' ! 0) = 90 \<and> hp (players s' ! 1) = 85
         \<and> cooldowns (players s' ! 0) = [(''Stupefy'', 3)] \<and> currentPlayer s' = 1
         \<and> phase s' = Playing
    | Inl _ \<Rightarrow> False)"
  by code_simp

lemma regen_player_ok: "player_ok p \<Longrightarrow> player_ok (regen_player p)"
  by (auto simp: player_ok_def regen_player_def list_all_iff distinct_map_filter
                 case_prod_unfold comp_def)

text \<open>
  C16: The regeneration tick keeps a state well formed: stamina grows by 2 up to
  maxStamina and expired cooldowns are removed.
\<close>

theorem regenTick_preserves_state_ok: "state_ok s \<Longrightarrow> state_ok (regenTick s)"
  by (auto simp: state_ok_def regenTick_def list_all_iff regen_player_ok)

lemma map_of_tick:
  "distinct (map fst xs) \<Longrightarrow>
   map_of (filter (\<lambda>(_, c). 0 < c) (map (\<lambda>(k, c). (k, c - 1)) xs)) k
     = (case map_of xs k of None \<Rightarrow> None | Some c \<Rightarrow> if 1 < c then Some (c - 1) else (None :: int option))"
proof (induction xs)
  case Nil
  then show ?case by simp
next
  case (Cons kc xs)
  obtain k' c' where kc: "kc = (k', c')" by (cases kc)
  show ?case
  proof (cases "k' = k")
    case True
    with Cons.prems kc have "k \<notin> fst ` set xs" by auto
    then have "map_of (filter (\<lambda>(_, c). 0 < c) (map (\<lambda>(k, c). (k, c - 1)) xs)) k = None"
      by (force simp: map_of_eq_None_iff)
    with True kc show ?thesis by auto
  next
    case False
    with Cons kc show ?thesis by auto
  qed
qed

lemma regen_player_distinct: "distinct (map fst (cooldowns p)) \<Longrightarrow> distinct (map fst (cooldowns (regen_player p)))"
  by (simp add: regen_player_def distinct_map_filter case_prod_unfold comp_def)

lemma regen_player_pow_cooldowns:
  assumes "player_ok p"
  shows "distinct (map fst (cooldowns ((regen_player ^^ n) p)))
    \<and> map_of (cooldowns ((regen_player ^^ n) p)) k
        = (case map_of (cooldowns p) k of None \<Rightarrow> None
           | Some c \<Rightarrow> if int n < c then Some (c - int n) else None)"
proof (induction n)
  case 0
  from assms have "distinct (map fst (cooldowns p))" "\<forall>(k, c)\<in>set (cooldowns p). 0 < c"
    by (simp_all add: player_ok_def list_all_iff)
  then show ?case by (auto split: option.split dest: map_of_SomeD)
next
  case (Suc n)
  then have d: "distinct (map fst (cooldowns ((regen_player ^^ n) p)))" by simp
  have "map_of (cooldowns ((regen_player ^^ Suc n) p)) k
      = (case map_of (cooldowns ((regen_player ^^ n) p)) k of None \<Rightarrow> None
         | Some c \<Rightarrow> if 1 < c then Some (c - 1) else None)"
    using map_of_tick [OF d] by (simp add: regen_player_def)
  with Suc.IH d show ?case
    by (auto simp: regen_player_distinct split: option.split)
qed

text \<open>
  C15: For a well-formed player whose cooldown for a spell is c, the spell is still on
  cooldown after n regeneration ticks exactly when n < c: it becomes castable again
  after exactly c ticks.
\<close>

theorem cooldown_expires:
  assumes "player_ok p" "map_of (cooldowns p) k = Some c"
  shows "js_map_has (cooldowns ((regen_player ^^ n) p)) k \<longleftrightarrow> int n < c"
proof -
  have "map_of (cooldowns ((regen_player ^^ n) p)) k = (if int n < c then Some (c - int n) else None)"
    using regen_player_pow_cooldowns [OF assms(1), of n k] assms(2) by simp
  then show ?thesis
    by (simp add: js_map_has_map_of)
qed

lemma set_update_two:
  assumes "length xs = 2" "i = 0 \<or> i = (1::int)"
  shows "set (xs[nat i := a, nat (1 - i) := b]) = {a, b}"
proof -
  from assms(1) obtain x y where "xs = [x, y]"
    by (metis One_nat_def Suc_1 length_0_conv length_Suc_conv)
  with assms(2) show ?thesis by auto
qed

lemma spell_effect_caster_hp:
  assumes "spell_effect sp c t = (d, c', t')" "sp \<in> set SPELLS" "hp c \<le> maxHp c"
  shows "hp c \<le> hp c'"
  using assms SPELLS_healing_nonneg [OF assms(2)]
  by (cases "type sp") (auto simp: spell_effect_def Let_def)

lemma apply_spell_phase:
  assumes "state_ok s" "list_all (\<lambda>p. 0 < hp p) (players s)" "sp \<in> set SPELLS"
    "apply_spell sp s = Inr s'"
  shows "(phase s' = Ended \<longleftrightarrow> (\<exists>p\<in>set (players s'). hp p = 0))
    \<and> (phase s' = Playing \<longleftrightarrow> list_all (\<lambda>p. 0 < hp p) (players s'))
    \<and> (phase s' = Ended \<or> phase s' = Playing) \<and> length (players s') = 2
    \<and> mode s' = mode s \<and> achievements s' = achievements s
    \<and> (\<exists>d. gameStats s' = cast_stats sp d (gameStats s))
    \<and> (\<exists>p\<in>set (players s'). 0 < hp p)"
  using assms(4)
proof (rule apply_spell_Inr)
  fix c0 t0 d c' t'
  assume c0: "js_at (players s) (currentPlayer s) = Some c0"
    and t0: "js_at (players s) (1 - currentPlayer s) = Some t0"
    and eff: "spell_effect sp (c0\<lparr>stamina := max 0 (stamina c0 - staminaCost sp),
        cooldowns := js_map_set (cooldowns c0) (name sp) (cooldown sp)\<rparr>) t0 = (d, c', t')"
    and s': "s' = s\<lparr>players := (players s)[nat (currentPlayer s) := c', nat (1 - currentPlayer s) := t'],
                currentPlayer := 1 - currentPlayer s,
                phase := (if hp t' \<le> 0 then Ended else Playing),
                lastSpell := Some \<lparr>lsCaster = playerName c', lsSpell = sp,
                                   lsTarget = playerName t', lsSuccess = True\<rparr>,
                gameStats := cast_stats sp d (gameStats s)\<rparr>"
  have two: "length (players s) = 2" "currentPlayer s = 0 \<or> currentPlayer s = 1"
    using assms(1) c0 by (auto simp: state_ok_def)
  have ok0: "player_ok c0" "player_ok t0"
    using assms(1) c0 t0 by (auto simp: state_ok_def list_all_iff js_at_Some_iff)
  then have okt: "player_ok t'"
    using eff assms(3) pay_ok spell_effect_ok by blast
  have "0 < hp c0" using assms(2) c0 by (auto simp: list_all_iff js_at_Some_iff)
  moreover have "hp c0 \<le> hp c'"
    using spell_effect_caster_hp [OF eff assms(3)] ok0 by (simp add: player_ok_def)
  ultimately have "0 < hp c'" by simp
  moreover have "set (players s') = {c', t'}"
    using s' set_update_two [OF two] by simp
  ultimately show ?thesis
    using s' okt two(1) c0 t0 eff by (auto simp: player_ok_def list_all_iff)
qed

text \<open>
  C12: After a successful cast from a well-formed state in which both players are alive,
  the phase is ended exactly when some player's health is 0.
\<close>

theorem castSpell_ended_iff:
  assumes "state_ok s" "list_all (\<lambda>p. 0 < hp p) (players s)"
    "castSpell s input = Inr (r, s')" "success r"
  shows "phase s' = Ended \<longleftrightarrow> (\<exists>p\<in>set (players s'). hp p = 0)"
proof -
  from castSpell_cases [OF assms(3)] assms(4) obtain sp where
    sp: "findSpell input = Some sp" and ap: "apply_spell sp s = Inr s'"
    by auto
  from sp have "sp \<in> set SPELLS" by (rule findSpell_in_SPELLS)
  with assms(1,2) ap show ?thesis by (blast dest: apply_spell_phase)
qed

lemma endGame_perfectGames:
  "perfectGames (gameStats (endGame w s)) =
     (case find (\<lambda>p. playerId p = w) (players s) of
        Some win \<Rightarrow>
          if playerId win = ''player1'' \<or> playerId win = ''player2''
          then (case find (\<lambda>p. playerId p \<noteq> w) (players s) of
                  Some l \<Rightarrow> if hp l = 100 then Suc (perfectGames (gameStats s)) else perfectGames (gameStats s)
                | None \<Rightarrow> perfectGames (gameStats s))
          else perfectGames (gameStats s)
      | None \<Rightarrow> perfectGames (gameStats s))"
  by (simp add: endGame_def Let_def split: option.split)

text \<open>
  C23: endGame increments perfectGames only when the first non-winner has health exactly
  100, so it never does when the loser's health is 0 (the situation in which the auto-
  end effect calls it).
\<close>

theorem endGame_no_flawless_at_zero:
  assumes "find (\<lambda>p. playerId p \<noteq> w) (players s) = Some l" "hp l \<le> 0"
  shows "perfectGames (gameStats (endGame w s)) = perfectGames (gameStats s)"
  using assms by (simp add: endGame_perfectGames split: option.split)

subsection \<open>Witnesses at concrete inputs\<close>

lemma castSpell_Inr_obtain:
  assumes "case castSpell s i of Inl _ \<Rightarrow> False | Inr (r, s') \<Rightarrow> P r s'"
  obtains r s' where "castSpell s i = Inr (r, s')" "P r s'"
  using assms by (cases "castSpell s i") auto

theorem castSpell_preserves_state_ok_witness:
  "state_ok (startGame PvP Normal initialState)
   \<and> (case castSpell (startGame PvP Normal initialState) ''Stupefy'' of
        Inl _ \<Rightarrow> False | Inr (r, s') \<Rightarrow> state_ok s')"
proof -
  let ?s = "startGame PvP Normal initialState"
  have ok: "state_ok ?s" by code_simp
  have "case castSpell ?s ''Stupefy'' of Inl _ \<Rightarrow> False | Inr (r, s') \<Rightarrow> True" by code_simp
  then obtain r s' where eq: "castSpell ?s ''Stupefy'' = Inr (r, s')"
    by (rule castSpell_Inr_obtain)
  show ?thesis using ok castSpell_preserves_state_ok [OF ok eq] by (simp add: eq)
qed

theorem castSpell_failure_no_effect_witness:
  "let s = (startGame AIMode Hard initialState)\<lparr>players :=
             [(initialPlayer ''player1'' ''Player 1'' False)\<lparr>stamina := 10\<rparr>,
              initialPlayer ''ai'' ''Dark Wizard'' True]\<rparr>
   in case castSpell s ''Avada Kedavra'' of Inl _ \<Rightarrow> False
      | Inr (r, s') \<Rightarrow> \<not> success r \<and> stamina (players s' ! 0) = 10 \<and> hp (players s' ! 1) = 100"
proof -
  define s where "s = (startGame AIMode Hard initialState)\<lparr>players :=
             [(initialPlayer ''player1'' ''Player 1'' False)\<lparr>stamina := 10\<rparr>,
              initialPlayer ''ai'' ''Dark Wizard'' True]\<rparr>"
  have "case castSpell s ''Avada Kedavra'' of Inl _ \<Rightarrow> False | Inr (r, s') \<Rightarrow> \<not> success r"
    unfolding s_def by code_simp
  then obtain r s' where eq: "castSpell s ''Avada Kedavra'' = Inr (r, s')" and f: "\<not> success r"
    by (rule castSpell_Inr_obtain)
  have known: "findSpell ''Avada Kedavra'' \<noteq> None" by code_simp
  from castSpell_failure_no_effect [OF eq f] known have "s' = s" by auto
  moreover have "stamina (players s ! 0) = 10 \<and> hp (players s ! 1) = 100"
    by (simp add: s_def startGame_def initialPlayer_def)
  ultimately show ?thesis using eq f by (simp add: s_def [symmetric])
qed

theorem castSpell_turn_witness:
  "case castSpell (startGame PvP Normal initialState) ''Stupefy'' of
     Inl _ \<Rightarrow> False | Inr (r, s') \<Rightarrow> success r \<and> currentPlayer s' = 1"
proof -
  let ?s = "startGame PvP Normal initialState"
  have "case castSpell ?s ''Stupefy'' of Inl _ \<Rightarrow> False | Inr (r, s') \<Rightarrow> success r" by code_simp
  then obtain r s' where eq: "castSpell ?s ''Stupefy'' = Inr (r, s')" and sc: "success r"
    by (rule castSpell_Inr_obtain)
  have "currentPlayer ?s = 0" by (simp add: startGame_def)
  with castSpell_turn [OF eq] sc show ?thesis by (simp add: eq)
qed

theorem castSpell_ended_iff_witness:
  "let s = (startGame PvP Normal initialState)\<lparr>players :=
             [initialPlayer ''player1'' ''Player 1'' False,
              (initialPlayer ''player2'' ''Player 2'' False)\<lparr>hp := 10\<rparr>]\<rparr>
   in state_ok s \<and> list_all (\<lambda>p. 0 < hp p) (players s)
      \<and> (case castSpell s ''Stupefy'' of Inl _ \<Rightarrow> False | Inr (r, s') \<Rightarrow> success r \<and> phase s' = Ended)"
proof -
  define s where "s = (startGame PvP Normal initialState)\<lparr>players :=
             [initialPlayer ''player1'' ''Player 1'' False,
              (initialPlayer ''player2'' ''Player 2'' False)\<lparr>hp := 10\<rparr>]\<rparr>"
  have ok: "state_ok s" and alive: "list_all (\<lambda>p. 0 < hp p) (players s)"
    unfolding s_def by code_simp+
  have "case castSpell s ''Stupefy'' of Inl _ \<Rightarrow> False
          | Inr (r, s') \<Rightarrow> success r \<and> length (players s') = 2 \<and> hp (players s' ! 1) = 0"
    unfolding s_def by code_simp
  then obtain r s' where eq: "castSpell s ''Stupefy'' = Inr (r, s')" and sc: "success r"
      and dead: "length (players s') = 2" "hp (players s' ! 1) = 0"
    by (rule castSpell_Inr_obtain) auto
  from dead have "\<exists>p\<in>set (players s'). hp p = 0" by (metis nth_mem one_less_numeral_iff semiring_norm(76))
  with castSpell_ended_iff [OF ok alive eq sc] have "phase s' = Ended" by simp
  with ok alive eq sc show ?thesis by (simp add: s_def [symmetric])
qed

theorem castSpell_insufficient_stamina_witness:
  "let s = (startGame AIMode Hard initialState)\<lparr>players :=
             [(initialPlayer ''player1'' ''Player 1'' False)\<lparr>stamina := 10\<rparr>,
              initialPlayer ''ai'' ''Dark Wizard'' True]\<rparr>
   in findSpell ''Avada Kedavra'' = Some (SPELLS ! 6)
      \<and> js_at (players s) (currentPlayer s) = Some ((initialPlayer ''player1'' ''Player 1'' False)\<lparr>stamina := 10\<rparr>)
      \<and> stamina ((initialPlayer ''player1'' ''Player 1'' False)\<lparr>stamina := 10\<rparr>) < staminaCost (SPELLS ! 6)
      \<and> castSpell s ''Avada Kedavra'' = Inr (\<lparr>success = False, message = ''Not enough stamina!''\<rparr>, s)"
proof -
  define s where "s = (startGame AIMode Hard initialState)\<lparr>players :=
             [(initialPlayer ''player1'' ''Player 1'' False)\<lparr>stamina := 10\<rparr>,
              initialPlayer ''ai'' ''Dark Wizard'' True]\<rparr>"
  have h1: "findSpell ''Avada Kedavra'' = Some (SPELLS ! 6)" by code_simp
  have h2: "js_at (players s) (currentPlayer s) = Some ((initialPlayer ''player1'' ''Player 1'' False)\<lparr>stamina := 10\<rparr>)"
    by (simp add: s_def startGame_def)
  have h3: "stamina ((initialPlayer ''player1'' ''Player 1'' False)\<lparr>stamina := 10\<rparr>) < staminaCost (SPELLS ! 6)"
    by (simp add: SPELLS_def)
  show ?thesis using h1 h2 h3 castSpell_insufficient_stamina [OF h1 h2 h3] by (simp add: s_def [symmetric])
qed

theorem castSpell_on_cooldown_witness:
  "let c = (initialPlayer ''player1'' ''Player 1'' False)\<lparr>hp := 85, stamina := 80, cooldowns := [(''Protego'', 8)]\<rparr>;
       s = (startGame PvP Normal initialState)\<lparr>players :=
             [c, (initialPlayer ''player2'' ''Player 2'' False)\<lparr>stamina := 90, cooldowns := [(''Stupefy'', 3)]\<rparr>]\<rparr>
   in findSpell ''Protego'' = Some (SPELLS ! 1) \<and> js_at (players s) (currentPlayer s) = Some c
      \<and> staminaCost (SPELLS ! 1) \<le> stamina c \<and> js_map_has (cooldowns c) (name (SPELLS ! 1))
      \<and> castSpell s ''Protego'' = Inr (\<lparr>success = False, message = ''Protego is on cooldown!''\<rparr>, s)"
proof -
  define c where "c = (initialPlayer ''player1'' ''Player 1'' False)\<lparr>hp := 85, stamina := 80, cooldowns := [(''Protego'', 8)]\<rparr>"
  define s where "s = (startGame PvP Normal initialState)\<lparr>players :=
             [c, (initialPlayer ''player2'' ''Player 2'' False)\<lparr>stamina := 90, cooldowns := [(''Stupefy'', 3)]\<rparr>]\<rparr>"
  have h1: "findSpell ''Protego'' = Some (SPELLS ! 1)" by code_simp
  have h2: "js_at (players s) (currentPlayer s) = Some c" by (simp add: s_def startGame_def)
  have h3: "staminaCost (SPELLS ! 1) \<le> stamina c" by (simp add: c_def SPELLS_def initialPlayer_def)
  have h4: "js_map_has (cooldowns c) (name (SPELLS ! 1))" by (simp add: c_def SPELLS_def js_map_has_def)
  have nm: "name (SPELLS ! Suc 0) = ''Protego''" by (simp add: SPELLS_def)
  have "castSpell s ''Protego'' = Inr (\<lparr>success = False, message = ''Protego is on cooldown!''\<rparr>, s)"
    using castSpell_on_cooldown [OF h1 h2 h3 h4] by (simp add: nm)
  with h1 h2 h3 h4 show ?thesis
    unfolding Let_def s_def [symmetric] c_def [symmetric] by blast
qed

theorem cooldown_expires_witness:
  "let p = (initialPlayer ''player1'' ''Player 1'' False)\<lparr>stamina := 90, cooldowns := [(''Stupefy'', 3)]\<rparr>
   in player_ok p \<and> map_of (cooldowns p) ''Stupefy'' = Some 3
      \<and> js_map_has (cooldowns ((regen_player ^^ 2) p)) ''Stupefy''
      \<and> \<not> js_map_has (cooldowns ((regen_player ^^ 3) p)) ''Stupefy''"
proof -
  define p where "p = (initialPlayer ''player1'' ''Player 1'' False)\<lparr>stamina := 90, cooldowns := [(''Stupefy'', 3)]\<rparr>"
  have ok: "player_ok p" by (simp add: p_def player_ok_def initialPlayer_def)
  have m: "map_of (cooldowns p) ''Stupefy'' = Some 3" by (simp add: p_def)
  show ?thesis using ok m cooldown_expires [OF ok m, of 2] cooldown_expires [OF ok m, of 3]
    by (simp add: p_def [symmetric])
qed

theorem regenTick_preserves_state_ok_witness:
  "state_ok (startGame PvP Normal initialState) \<and> state_ok (regenTick (startGame PvP Normal initialState))"
proof -
  have ok: "state_ok (startGame PvP Normal initialState)" by code_simp
  show ?thesis using ok regenTick_preserves_state_ok [OF ok] by simp
qed

theorem endGame_no_flawless_at_zero_witness:
  "let s = (startGame AIMode Hard initialState)\<lparr>players :=
             [initialPlayer ''player1'' ''Player 1'' False,
              (initialPlayer ''ai'' ''Dark Wizard'' True)\<lparr>hp := 0\<rparr>]\<rparr>
   in find (\<lambda>p. playerId p \<noteq> ''player1'') (players s) = Some ((initialPlayer ''ai'' ''Dark Wizard'' True)\<lparr>hp := 0\<rparr>)
      \<and> hp ((initialPlayer ''ai'' ''Dark Wizard'' True)\<lparr>hp := 0\<rparr>) \<le> 0
      \<and> perfectGames (gameStats (endGame ''player1'' s)) = perfectGames (gameStats s)"
proof -
  define s where "s = (startGame AIMode Hard initialState)\<lparr>players :=
             [initialPlayer ''player1'' ''Player 1'' False,
              (initialPlayer ''ai'' ''Dark Wizard'' True)\<lparr>hp := 0\<rparr>]\<rparr>"
  have h1: "find (\<lambda>p. playerId p \<noteq> ''player1'') (players s) = Some ((initialPlayer ''ai'' ''Dark Wizard'' True)\<lparr>hp := 0\<rparr>)"
    by (simp add: s_def startGame_def initialPlayer_def)
  have h2: "hp ((initialPlayer ''ai'' ''Dark Wizard'' True)\<lparr>hp := 0\<rparr>) \<le> 0" by simp
  show ?thesis using h1 h2 endGame_no_flawless_at_zero [OF h1 h2] by (simp add: s_def [symmetric])
qed

end
