(* ===== verification/AI.thy ===== *)
theory AI
  imports Engine
begin

section \<open>AI policy (src/src/hooks/useGameState.ts, getAISpell)\<close>

text \<open>
  \<open>getAISpell\<close> chooses the name of the spell the computer opponent casts. The
  pools of \<open>availableSpells\<close> and \<open>strategicSpells\<close> are copied from the source;
  \<open>Math.floor(Math.random() * n)\<close> is \<open>pick xs r\<close>, the entry at \<open>r mod n\<close>
  for an arbitrary natural number \<open>r\<close>, so every lemma below holds for every
  random draw. Normal difficulty heals when low and otherwise draws from the pool
  without Episkey and Protego; hard difficulty runs the three-step cascade and then
  draws from \<open>strategicSpells\<close>. \<open>ai_names\<close> is the hard pool, which contains every
  name the policy can return.
\<close>

definition pick :: "string list \<Rightarrow> nat \<Rightarrow> string" where
  "pick xs r = xs ! (r mod length xs)"

definition availableSpells :: "difficulty \<Rightarrow> string list" where
  "availableSpells d =
     (if d = Easy then [''Stupefy'', ''Expelliarmus'', ''Protego'']
      else if d = Normal
      then [''Stupefy'', ''Expelliarmus'', ''Protego'', ''Diffindo'', ''Reducto'', ''Episkey'']
      else [''Stupefy'', ''Expelliarmus'', ''Protego'', ''Diffindo'', ''Reducto'', ''Episkey'',
            ''Sectumsempra'', ''Avada Kedavra''])"

definition strategicSpells :: "string list" where
  "strategicSpells = [''Expelliarmus'', ''Stupefy'', ''Diffindo'', ''Reducto'']"

definition getAISpell :: "difficulty \<Rightarrow> player \<Rightarrow> player \<Rightarrow> nat \<Rightarrow> string" where
  "getAISpell d aiPlayer opponent r =
     (let avail = availableSpells d
      in if d = Easy then pick avail r
         else if d = Normal then
           (if hp aiPlayer < 30 \<and> stamina aiPlayer \<ge> 20 then ''Episkey''
            else pick (filter (\<lambda>sp. sp \<notin> set [''Episkey'', ''Protego'']) avail) r)
         else if hp aiPlayer < 25 \<and> stamina aiPlayer \<ge> 20 then ''Episkey''
         else if hp opponent < 30 \<and> stamina aiPlayer \<ge> 30 then ''Sectumsempra''
         else if hp opponent < 60 \<and> stamina aiPlayer \<ge> 50 then ''Avada Kedavra''
         else pick strategicSpells r)"

definition ai_names :: "string list" where
  "ai_names = availableSpells Hard"

lemma pick_in: "xs \<noteq> [] \<Longrightarrow> pick xs r \<in> set xs"
  by (simp add: pick_def)

lemma getAISpell_in_names: "getAISpell d a opp r \<in> set ai_names"
proof -
  have "pick (availableSpells Easy) r \<in> set ai_names"
    using pick_in [of "availableSpells Easy" r] by (auto simp: availableSpells_def ai_names_def)
  moreover have "pick (filter (\<lambda>sp. sp \<notin> set [''Episkey'', ''Protego'']) (availableSpells Normal)) r \<in> set ai_names"
    using pick_in [of "filter (\<lambda>sp. sp \<notin> set [''Episkey'', ''Protego'']) (availableSpells Normal)" r]
    by (auto simp: availableSpells_def ai_names_def)
  moreover have "pick strategicSpells r \<in> set ai_names"
    using pick_in [of strategicSpells r] by (auto simp: strategicSpells_def availableSpells_def ai_names_def)
  ultimately show ?thesis
    by (auto simp: getAISpell_def Let_def ai_names_def availableSpells_def)
qed

lemma ai_names_resolve:
  "list_all (\<lambda>n. (case findSpell n of None \<Rightarrow> False | Some sp \<Rightarrow> (name sp = n \<and> sp \<in> set SPELLS))) ai_names"
  by code_simp

text \<open>
  C37: Every spell name the AI policy can choose, at any difficulty and random draw,
  resolves through findSpell to the catalog spell of that name.
\<close>

theorem getAISpell_resolves:
  "\<exists>sp\<in>set SPELLS. findSpell (getAISpell d a opp r) = Some sp \<and> name sp = getAISpell d a opp r"
  using ai_names_resolve getAISpell_in_names [of d a opp r]
  by (auto simp: list_all_iff split: option.splits)

lemma ai_costs:
  "list_all (\<lambda>n. (case findSpell n of None \<Rightarrow> False | Some sp \<Rightarrow> staminaCost sp \<le> 18))
     (filter (\<lambda>sp. sp \<notin> set [''Episkey'', ''Protego'']) (availableSpells Normal) @ strategicSpells)"
  by code_simp

lemma cascade_costs:
  "(\<forall>sp. findSpell ''Episkey'' = Some sp \<longrightarrow> staminaCost sp = 20)
   \<and> (\<forall>sp. findSpell ''Sectumsempra'' = Some sp \<longrightarrow> staminaCost sp = 30)
   \<and> (\<forall>sp. findSpell ''Avada Kedavra'' = Some sp \<longrightarrow> staminaCost sp = 50)"
proof -
  have "findSpell ''Episkey'' = Some (SPELLS ! 3)" "findSpell ''Sectumsempra'' = Some (SPELLS ! 4)"
    "findSpell ''Avada Kedavra'' = Some (SPELLS ! 6)"
    by code_simp+
  moreover have "staminaCost (SPELLS ! 3) = 20" "staminaCost (SPELLS ! 4) = 30"
    "staminaCost (SPELLS ! 6) = 50"
    by (simp_all add: SPELLS_def)
  ultimately show ?thesis by auto
qed

text \<open>
  C38: On normal and hard difficulty, an AI player with at least 18 stamina always
  chooses a spell it can pay for (the cascade's thresholds match the costs of Episkey,
  Sectumsempra and Avada Kedavra).
\<close>

theorem getAISpell_affordable:
  assumes "d \<noteq> Easy" "18 \<le> stamina a" "findSpell (getAISpell d a opp r) = Some sp"
  shows "staminaCost sp \<le> stamina a"
proof -
  let ?pool = "filter (\<lambda>sp. sp \<notin> set [''Episkey'', ''Protego'']) (availableSpells Normal)"
  have pool_ok: "\<And>n. n \<in> set (?pool @ strategicSpells) \<Longrightarrow> findSpell n = Some sp \<Longrightarrow> staminaCost sp \<le> 18"
    using ai_costs unfolding list_all_iff by (metis option.simps(5))
  have pn: "pick ?pool r \<in> set (?pool @ strategicSpells)"
    using pick_in [of ?pool r] by (auto simp: availableSpells_def)
  have ps: "pick strategicSpells r \<in> set (?pool @ strategicSpells)"
    using pick_in [of strategicSpells r] by (auto simp: strategicSpells_def)
  show ?thesis
  proof (cases d)
    case Normal
    show ?thesis
    proof (cases "hp a < 30 \<and> stamina a \<ge> 20")
      case True
      with Normal assms(3) cascade_costs show ?thesis by (auto simp: getAISpell_def)
    next
      case False
      with Normal assms(3) have "findSpell (pick ?pool r) = Some sp"
        by (simp add: getAISpell_def Let_def)
      with pool_ok [OF pn] assms(2) show ?thesis by simp
    qed
  next
    case Hard
    show ?thesis
    proof (cases "(hp a < 25 \<and> stamina a \<ge> 20) \<or> (hp opp < 30 \<and> stamina a \<ge> 30)
                  \<or> (hp opp < 60 \<and> stamina a \<ge> 50)")
      case True
      with Hard assms(3) cascade_costs show ?thesis
        by (auto simp: getAISpell_def split: if_splits)
    next
      case False
      with Hard assms(3) have "findSpell (pick strategicSpells r) = Some sp"
        by (auto simp: getAISpell_def Let_def split: if_splits)
      with pool_ok [OF ps] assms(2) show ?thesis by simp
    qed
  qed (use assms in simp)
qed

subsection \<open>Witnesses at concrete inputs\<close>

theorem getAISpell_affordable_witness:
  "let a = (initialPlayer ''ai'' ''Dark Wizard'' True)\<lparr>stamina := 18\<rparr>;
       opp = initialPlayer ''player1'' ''Player 1'' False
   in Hard \<noteq> Easy \<and> 18 \<le> stamina a \<and> findSpell (getAISpell Hard a opp 3) = Some (SPELLS ! 11)
      \<and> staminaCost (SPELLS ! 11) \<le> stamina a"
proof -
  define a where "a = (initialPlayer ''ai'' ''Dark Wizard'' True)\<lparr>stamina := 18\<rparr>"
  define opp where "opp = initialPlayer ''player1'' ''Player 1'' False"
  have h1: "Hard \<noteq> Easy" by simp
  have h2: "18 \<le> stamina a" by (simp add: a_def)
  have h3: "findSpell (getAISpell Hard a opp 3) = Some (SPELLS ! 11)"
    unfolding a_def opp_def by code_simp
  show ?thesis using h1 h2 h3 getAISpell_affordable [OF h1 h2 h3]
    unfolding Let_def a_def [symmetric] opp_def [symmetric] by blast
qed

theorem getAISpell_resolves_witness:
  "let a = (initialPlayer ''ai'' ''Dark Wizard'' True)\<lparr>stamina := 18\<rparr>;
       opp = initialPlayer ''player1'' ''Player 1'' False
   in findSpell (getAISpell Hard a opp 3) = Some (SPELLS ! 11)
      \<and> name (SPELLS ! 11) = getAISpell Hard a opp 3"
proof -
  define a where "a = (initialPlayer ''ai'' ''Dark Wizard'' True)\<lparr>stamina := 18\<rparr>"
  define opp where "opp = initialPlayer ''player1'' ''Player 1'' False"
  have f: "findSpell (getAISpell Hard a opp 3) = Some (SPELLS ! 11)"
    unfolding a_def opp_def by code_simp
  obtain sp where "sp \<in> set SPELLS" "findSpell (getAISpell Hard a opp 3) = Some sp"
      "name sp = getAISpell Hard a opp 3"
    using getAISpell_resolves [of Hard a opp 3] by blast
  with f have "name (SPELLS ! 11) = getAISpell Hard a opp 3" by simp
  with f show ?thesis unfolding Let_def a_def [symmetric] opp_def [symmetric] by blast
qed

end
