(* ===== verification/Views.thy ===== *)
theory Views
  imports Engine "HOL-Library.Multiset"
begin

section \<open>What the components show (GameMenu.tsx, SpellGuide.tsx, GameArena.tsx, Index.tsx)\<close>

text \<open>
  The components read the game state and decide what the player sees and which controls
  exist. This theory models the parts of their code that compute something:
  \<^item> \<open>GameMenu\<close>: the titles of unlocked achievements (\<open>unlockedTitles\<close>, with the
    truthiness test of \<open>a.title\<close>), the unlocked counter (\<open>unlockedCount\<close>) and the four
    start buttons (\<open>menu_buttons\<close>);
  \<^item> \<open>SpellGuide\<close>: \<open>spellsByType\<close>, the \<open>reduce\<close> that groups the catalog into an
    object keyed by the type string; the object's keys keep insertion order, so it is an
    association list, \<open>group_push\<close> being one step of the reduce;
  \<^item> \<open>GameArena\<close> and \<open>Index\<close>: which screen is shown (\<open>render\<close>): the menu when the
    mode is \<open>menu\<close>, the victory screen with \<open>players.find(p => p.hp > 0)\<close> when the
    phase is \<open>ended\<close>, else the duel with the spell input on a human turn
    (\<open>isPlayerTurn\<close>) and the AI indicator otherwise; \<open>endedTitle\<close> is the victory
    screen's heading. The driver's human-cast step requires \<open>input_shown\<close>.
  The grouping is proved equal to the reference \<open>group_ref\<close> (keys in order of first
  appearance, each with the filtered list) and to be a partition of the catalog.
\<close>

subsection \<open>The menu\<close>

definition unlockedTitles :: "achievement list \<Rightarrow> string option list" where
  "unlockedTitles achs =
     map title (filter (\<lambda>a. unlocked a \<and> js_truthy_str (title a)) achs)"

definition unlockedCount :: "achievement list \<Rightarrow> nat" where
  "unlockedCount achs = length (filter unlocked achs)"

definition menu_buttons :: "(gameMode \<times> difficulty) list" where
  "menu_buttons = [(AIMode, Easy), (AIMode, Normal), (AIMode, Hard), (PvP, Normal)]"

subsection \<open>The spell guide\<close>

primrec spellTypeKey :: "spellType \<Rightarrow> string" where
  "spellTypeKey Attack = ''attack''"
| "spellTypeKey Defense = ''defense''"
| "spellTypeKey Healing = ''healing''"
| "spellTypeKey Buff = ''buff''"
| "spellTypeKey Debuff = ''debuff''"
| "spellTypeKey Special = ''special''"

fun group_push :: "(string \<times> 'a list) list \<Rightarrow> string \<Rightarrow> 'a \<Rightarrow> (string \<times> 'a list) list" where
  "group_push [] k x = [(k, [x])]"
| "group_push ((k', g) # acc) k x =
     (if k' = k then (k', g @ [x]) # acc else (k', g) # group_push acc k x)"

definition groupByType :: "spell list \<Rightarrow> (string \<times> spell list) list" where
  "groupByType spells =
     foldl (\<lambda>acc spell. group_push acc (spellTypeKey (type spell)) spell) [] spells"

definition spellsByType :: "(string \<times> spell list) list" where
  "spellsByType = groupByType SPELLS"

text \<open>The reference grouping: keys in order of first appearance, each with its elements.\<close>

definition first_keys :: "'k list \<Rightarrow> 'k list" where
  "first_keys ks = rev (remdups (rev ks))"

definition group_ref :: "('a \<Rightarrow> string) \<Rightarrow> 'a list \<Rightarrow> (string \<times> 'a list) list" where
  "group_ref f xs = map (\<lambda>k. (k, filter (\<lambda>x. f x = k) xs)) (first_keys (map f xs))"

subsection \<open>The arena and the page\<close>

datatype screen =
    MenuScreen "string option list" nat nat
  | EndedScreen "player option"
  | DuelScreen bool bool

definition isPlayerTurn :: "gameState \<Rightarrow> bool" where
  "isPlayerTurn s =
     (case js_at (players s) (currentPlayer s) of Some p \<Rightarrow> \<not> isAI p | None \<Rightarrow> False)"

definition render :: "gameState \<Rightarrow> screen" where
  "render s =
     (if mode s = Menu
      then MenuScreen (unlockedTitles (achievements s)) (unlockedCount (achievements s))
             (length (achievements s))
      else if phase s = Ended then EndedScreen (find (\<lambda>p. 0 < hp p) (players s))
      else DuelScreen (isPlayerTurn s) (\<not> isPlayerTurn s \<and> phase s = Playing))"

definition endedTitle :: "player option \<Rightarrow> string" where
  "endedTitle winner =
     (case winner of Some w \<Rightarrow> if isAI w then ''Dark Arts Triumph!'' else ''Victory Achieved!''
      | None \<Rightarrow> ''Victory Achieved!'')"

definition input_shown :: "gameState \<Rightarrow> bool" where
  "input_shown s = (case render s of DuelScreen inp _ \<Rightarrow> inp | _ \<Rightarrow> False)"

subsection \<open>Lemmas\<close>

lemma input_shown_iff:
  "input_shown s \<longleftrightarrow> mode s \<noteq> Menu \<and> phase s \<noteq> Ended \<and> isPlayerTurn s"
  by (simp add: input_shown_def render_def)

lemma first_keys_snoc:
  "first_keys (ks @ [k]) = (if k \<in> set ks then first_keys ks else first_keys ks @ [k])"
  by (simp add: first_keys_def)

lemma distinct_first_keys: "distinct (first_keys ks)"
  by (simp add: first_keys_def)

lemma set_first_keys [simp]: "set (first_keys ks) = set ks"
  by (simp add: first_keys_def)

lemma group_push_map:
  assumes "distinct ks" and "k0 \<notin> set ks \<Longrightarrow> G k0 = []"
  shows "group_push (map (\<lambda>k. (k, G k)) ks) k0 x
           = map (\<lambda>k. (k, if k = k0 then G k @ [x] else G k))
               (if k0 \<in> set ks then ks else ks @ [k0])"
  using assms by (induction ks) (auto simp: map_idI)

lemma group_push_ref: "group_push (group_ref f xs) (f x) x = group_ref f (xs @ [x])"
proof -
  let ?G = "\<lambda>k. filter (\<lambda>y. f y = k) xs"
  have e: "f x \<notin> set (first_keys (map f xs)) \<Longrightarrow> ?G (f x) = []"
    by (induction xs) auto
  have "group_push (group_ref f xs) (f x) x
          = map (\<lambda>k. (k, if k = f x then ?G k @ [x] else ?G k))
              (if f x \<in> set (first_keys (map f xs)) then first_keys (map f xs)
               else first_keys (map f xs) @ [f x])"
    unfolding group_ref_def
    by (rule group_push_map [where G = ?G, OF distinct_first_keys e])
  then show ?thesis
    by (simp add: group_ref_def first_keys_snoc)
qed

lemma foldl_group_push:
  "foldl (\<lambda>acc y. group_push acc (f y) y) (group_ref f xs) ys = group_ref f (xs @ ys)"
proof (induction ys arbitrary: xs)
  case Nil
  then show ?case by simp
next
  case (Cons y ys)
  then show ?case using Cons.IH [of "xs @ [y]"] by (simp add: group_push_ref)
qed

lemma group_ref_Nil [simp]: "group_ref f [] = []"
  by (simp add: group_ref_def first_keys_def)

text \<open>
  C36: The spell guide's reduce into an object keyed by type equals the reference
  grouping: the keys in order of first appearance, each with the list of its spells in
  catalog order.
\<close>

theorem groupByType_ref: "groupByType ss = group_ref (\<lambda>sp. spellTypeKey (type sp)) ss"
  using foldl_group_push [of "\<lambda>sp. spellTypeKey (type sp)" "[]" ss]
  by (simp add: groupByType_def)

lemma mset_group_push:
  "mset (concat (map snd (group_push acc k x))) = mset (concat (map snd acc)) + {#x#}"
  by (induction acc k x rule: group_push.induct) auto

lemma mset_concat_group_ref: "mset (concat (map snd (group_ref f xs))) = mset xs"
proof (induction xs rule: rev_induct)
  case Nil
  then show ?case by simp
next
  case (snoc x xs)
  then show ?case by (simp flip: group_push_ref add: mset_group_push)
qed

lemma group_ref_groups:
  "list_all (\<lambda>(k, g). g \<noteq> [] \<and> list_all (\<lambda>x. f x = k) g) (group_ref f xs)"
  by (auto simp: group_ref_def list_all_iff filter_empty_conv)

lemma spellsByType_group_ref: "spellsByType = group_ref (\<lambda>sp. spellTypeKey (type sp)) SPELLS"
  using foldl_group_push [of "\<lambda>sp. spellTypeKey (type sp)" "[]" SPELLS]
  by (simp add: spellsByType_def groupByType_def)

lemma spellsByType_partition:
  "mset (concat (map snd spellsByType)) = mset SPELLS
   \<and> map fst spellsByType = [''attack'', ''defense'', ''healing'', ''special'', ''debuff'', ''buff'']
   \<and> list_all (\<lambda>(k, g). g \<noteq> [] \<and> list_all (\<lambda>sp. spellTypeKey (type sp) = k) g) spellsByType"
proof (intro conjI)
  show "mset (concat (map snd spellsByType)) = mset SPELLS"
    by (simp add: spellsByType_group_ref mset_concat_group_ref)
  show "map fst spellsByType = [''attack'', ''defense'', ''healing'', ''special'', ''debuff'', ''buff'']"
    by (simp add: spellsByType_group_ref group_ref_def first_keys_def SPELLS_def comp_def)
  show "list_all (\<lambda>(k, g). g \<noteq> [] \<and> list_all (\<lambda>sp. spellTypeKey (type sp) = k) g) spellsByType"
    by (simp add: spellsByType_group_ref group_ref_groups)
qed

end
