(* ===== verification/Driver.thy ===== *)
theory Driver
  imports AI Views
begin

section \<open>Game driver: the UI events that change the state\<close>

text \<open>
  The hook's operations are invoked by the components and effects:
  \<^item> \<open>start_game\<close>: the menu buttons of \<open>GameMenu.tsx\<close> call
    \<open>onStartGame\<close> with (ai, easy), (ai, normal), (ai, hard) or (pvp, normal),
    which \<open>handleStartGame\<close> of \<open>Index.tsx\<close> passes to \<open>startGame\<close>;
  \<^item> \<open>human_cast\<close>: the arena shows the spell input only on a human player's turn,
    \<open>handleSpellCast\<close> of \<open>GameArena.tsx\<close> ignores blank input and passes the
    trimmed text to \<open>castSpell\<close>; the ended screen replaces the arena;
  \<^item> \<open>ai_cast\<close>: the AI effect of the hook casts \<open>getAISpell\<close>'s choice while
    the phase is playing and the current player is the AI (the random draw is the
    arbitrary \<open>r\<close>);
  \<^item> \<open>regen_tick\<close>: the regeneration interval, while the phase is playing;
  \<^item> \<open>auto_end\<close>: the auto-end effect of \<open>Index.tsx\<close>, which calls \<open>endGame\<close>
    with the first living player when the phase is playing and someone has hp 0 or less;
  \<^item> \<open>leave_arena\<close>: the retreat and return buttons call \<open>resetGame\<close>.
  Effects run one at a time and each runs to completion, so a run is a sequence of
  \<open>game_step\<close>s from \<open>initialState\<close>; when a timer fires is not modelled, only
  that its step may happen. \<open>driver_inv\<close> is the invariant of the reachable states;
  \<open>human_run\<close> replays the casts typed by human players and is \<open>None\<close> as soon as
  an input would not reach \<open>castSpell\<close>, so its runs are reachable traces.
\<close>

inductive game_step :: "gameState \<Rightarrow> gameState \<Rightarrow> bool" where
  start_game:
    "mode s = Menu \<Longrightarrow> (m, d) \<in> set menu_buttons \<Longrightarrow>
     game_step s (startGame m d s)"
| human_cast:
    "input_shown s \<Longrightarrow> js_trim spellInput \<noteq> [] \<Longrightarrow>
     castSpell s (js_trim spellInput) = Inr (res, s') \<Longrightarrow> game_step s s'"
| ai_cast:
    "phase s = Playing \<Longrightarrow> js_at (players s) (currentPlayer s) = Some aiP \<Longrightarrow> isAI aiP \<Longrightarrow>
     js_at (players s) (1 - currentPlayer s) = Some opp \<Longrightarrow>
     castSpell s (getAISpell (difficulty s) aiP opp r) = Inr (res, s') \<Longrightarrow> game_step s s'"
| regen_tick:
    "phase s = Playing \<Longrightarrow> game_step s (regenTick s)"
| auto_end:
    "phase s = Playing \<Longrightarrow> (\<exists>p\<in>set (players s). hp p \<le> 0) \<Longrightarrow>
     find (\<lambda>p. 0 < hp p) (players s) = Some w \<Longrightarrow> game_step s (endGame (playerId w) s)"
| leave_arena:
    "mode s \<noteq> Menu \<Longrightarrow> game_step s (resetGame s)"

inductive reachable :: "gameState \<Rightarrow> bool" where
  init: "reachable initialState"
| step: "reachable s \<Longrightarrow> game_step s s' \<Longrightarrow> reachable s'"

definition driver_inv :: "gameState \<Rightarrow> bool" where
  "driver_inv s \<longleftrightarrow> state_ok s
     \<and> (mode s = Menu \<longrightarrow> phase s = Setup \<and> players s = [])
     \<and> (mode s \<noteq> Menu \<longrightarrow> (phase s = Playing \<or> phase s = Ended) \<and> length (players s) = 2)
     \<and> (phase s = Playing \<longrightarrow> list_all (\<lambda>p. 0 < hp p) (players s))
     \<and> (phase s = Ended \<longrightarrow> (\<exists>p\<in>set (players s). hp p = 0) \<and> (\<exists>p\<in>set (players s). 0 < hp p))
     \<and> gamesWon (gameStats s) = 0 \<and> gamesLost (gameStats s) = 0 \<and> perfectGames (gameStats s) = 0
     \<and> achievements s = ACHIEVEMENTS"

fun human_run :: "gameState \<Rightarrow> string list \<Rightarrow> gameState option" where
  "human_run s [] = Some s"
| "human_run s (i # is) =
     (if input_shown s \<and> js_trim i \<noteq> []
      then (case castSpell s (js_trim i) of Inr (r, s') \<Rightarrow> human_run s' is | Inl _ \<Rightarrow> None)
      else None)"

inductive_cases game_step_cases: "game_step s s'"

lemma driver_inv_init: "driver_inv initialState"
  by (simp add: driver_inv_def initialState_def state_ok_def initialStats_def)

lemma startGame_inv:
  assumes "driver_inv s" "mode s = Menu" "m \<noteq> Menu"
  shows "driver_inv (startGame m d s)"
  using assms
  by (simp add: driver_inv_def startGame_def state_ok_def player_ok_def initialPlayer_def Let_def)

lemma cast_stats_counters [simp]:
  "gamesWon (cast_stats sp d st) = gamesWon st" "gamesLost (cast_stats sp d st) = gamesLost st"
  "perfectGames (cast_stats sp d st) = perfectGames st"
  by (simp_all add: cast_stats_def)

lemma castSpell_inv:
  assumes "driver_inv s" "phase s = Playing" "castSpell s input = Inr (r, s')"
  shows "driver_inv s'"
  using castSpell_cases [OF assms(3)]
proof (elim disjE exE conjE)
  assume "s' = s\<lparr>gameStats := (gameStats s)\<lparr>spellsCast := Suc (spellsCast (gameStats s)),
                                                consecutiveCorrectSpells := 0\<rparr>\<rparr>"
  with assms(1) show ?thesis by (simp add: driver_inv_def state_ok_def)
next
  fix sp c assume sp: "findSpell input = Some sp" and ap: "apply_spell sp s = Inr s'"
  from sp have inS: "sp \<in> set SPELLS" by (rule findSpell_in_SPELLS)
  from assms(1,2) have ok: "state_ok s" "list_all (\<lambda>p. 0 < hp p) (players s)"
    by (simp_all add: driver_inv_def)
  have "state_ok s'" using ok(1) inS ap by (rule apply_spell_ok)
  moreover note apply_spell_phase [OF ok inS ap]
  ultimately show ?thesis using assms(1,2) by (auto simp: driver_inv_def)
qed (use assms(1) in simp_all)

lemma hp_regen_player [simp]: "hp (regen_player p) = hp p"
  by (simp add: regen_player_def)

lemma regenTick_inv:
  assumes "driver_inv s"
  shows "driver_inv (regenTick s)"
proof -
  have "state_ok (regenTick s)"
    using assms by (auto simp: driver_inv_def state_ok_def regenTick_def list_all_iff regen_player_ok)
  then show ?thesis
    using assms by (simp add: driver_inv_def regenTick_def list_all_iff)
qed

lemma game_step_inv:
  assumes "game_step s s'" "driver_inv s"
  shows "driver_inv s'"
  using assms
proof (induction rule: game_step.induct)
  case (start_game s m d)
  then show ?case by (auto intro: startGame_inv simp: menu_buttons_def)
next
  case (human_cast s spellInput res s')
  then have "phase s = Playing" by (auto simp: driver_inv_def input_shown_iff)
  with human_cast show ?case by (blast intro: castSpell_inv)
next
  case (ai_cast s aiP opp r res s')
  then show ?case by (blast intro: castSpell_inv)
next
  case (regen_tick s)
  then show ?case by (simp add: regenTick_inv)
next
  case (auto_end s w)
  then show ?case by (auto simp: driver_inv_def list_all_iff)
next
  case (leave_arena s)
  then show ?case by (simp add: driver_inv_def resetGame_def state_ok_def)
qed

lemma reachable_inv: "reachable s \<Longrightarrow> driver_inv s"
  by (induction rule: reachable.induct) (auto intro: driver_inv_init game_step_inv)

text \<open>
  C1: In every state reachable through the UI (menu buttons, arena input, AI timer,
  regeneration interval, auto-end effect, leaving the arena), gamesWon and gamesLost
  stay 0 and no achievement is ever unlocked: castSpell sets phase to ended in the same
  update that brings health to 0, so the auto-end effect of Index.tsx, which only fires
  while the phase is playing, never calls endGame.
\<close>

theorem reachable_never_won:
  "reachable s \<Longrightarrow> gamesWon (gameStats s) = 0 \<and> gamesLost (gameStats s) = 0
     \<and> (\<forall>a\<in>set (achievements s). \<not> unlocked a)"
  using ACHIEVEMENTS_locked by (auto dest: reachable_inv simp: driver_inv_def)

text \<open>
  C5: In every reachable state whose phase is playing, every player's health is positive
  (so the auto-end guard of Index.tsx never holds).
\<close>

theorem reachable_playing_alive:
  "reachable s \<Longrightarrow> phase s = Playing \<Longrightarrow> \<forall>p\<in>set (players s). 0 < hp p"
  by (auto dest!: reachable_inv simp: driver_inv_def list_all_iff)

text \<open>
  C6: In every reachable state with a match on screen (mode is not menu), the phase is
  ended exactly when some player's health is 0.
\<close>

theorem reachable_ended_iff:
  "reachable s \<Longrightarrow> mode s \<noteq> Menu \<Longrightarrow> phase s = Ended \<longleftrightarrow> (\<exists>p\<in>set (players s). hp p = 0)"
  by (drule reachable_inv) (fastforce simp: driver_inv_def list_all_iff)

text \<open>
  C8: In every reachable state, each player's health and stamina lie between 0 and their
  maxima, cooldown maps have distinct keys and positive times, and a running match has
  exactly two players with currentPlayer 0 or 1.
\<close>

theorem reachable_state_ok: "reachable s \<Longrightarrow> state_ok s"
  by (auto dest: reachable_inv simp: driver_inv_def)

text \<open>
  C7: Once a reachable state has phase ended, the only step the UI can take is leaving
  the arena (resetGame); no cast, AI move or regeneration tick changes it.
\<close>

theorem ended_only_leave:
  assumes "reachable s" "phase s = Ended" "game_step s s'"
  shows "s' = resetGame s"
proof -
  from assms(1) have inv: "driver_inv s" by (rule reachable_inv)
  with assms(2) have "mode s \<noteq> Menu" by (auto simp: driver_inv_def)
  with assms(2,3) show ?thesis by (auto elim: game_step_cases simp: input_shown_iff)
qed

lemma human_run_reachable: "reachable s \<Longrightarrow> human_run s is = Some s' \<Longrightarrow> reachable s'"
proof (induction "is" arbitrary: s)
  case Nil
  then show ?case by simp
next
  case (Cons i "is")
  from Cons.prems(2) obtain res s1 where g: "input_shown s" "js_trim i \<noteq> []"
      and c: "castSpell s (js_trim i) = Inr (res, s1)" and r: "human_run s1 is = Some s'"
    by (auto split: if_splits option.splits sum.splits)
  from g c have "game_step s s1" by (rule game_step.human_cast)
  with Cons.prems(1) have "reachable s1" by (rule reachable.step)
  then show ?case using r by (rule Cons.IH)
qed

subsection \<open>Witnesses at concrete inputs\<close>

lemma reachable_start:
  "(m, d) \<in> set menu_buttons \<Longrightarrow> reachable (startGame m d initialState)"
  by (rule reachable.step [OF reachable.init], rule game_step.start_game)
     (simp_all add: initialState_def)

lemma reachable_start_pvp: "reachable (startGame PvP Normal initialState)"
  by (rule reachable_start) (simp add: menu_buttons_def)

lemma human_run_obtain:
  assumes "case human_run s xs of None \<Rightarrow> False | Some s' \<Rightarrow> P s'"
  obtains s' where "human_run s xs = Some s'" "P s'"
  using assms by (cases "human_run s xs") auto

theorem reachable_never_won_witness:
  "case human_run (startGame PvP Normal initialState)
          [''Avada Kedavra'', ''Stupefy'', ''Sectumsempra'', ''Expelliarmus'', ''Stupefy''] of
     None \<Rightarrow> False
   | Some s \<Rightarrow> reachable s \<and> phase s = Ended \<and> gamesWon (gameStats s) = 0
       \<and> list_all (\<lambda>a. \<not> unlocked a) (achievements s)"
proof -
  let ?xs = "[''Avada Kedavra'', ''Stupefy'', ''Sectumsempra'', ''Expelliarmus'', ''Stupefy'']"
  have "case human_run (startGame PvP Normal initialState) ?xs of None \<Rightarrow> False | Some s \<Rightarrow> phase s = Ended"
    by code_simp
  then obtain s where run: "human_run (startGame PvP Normal initialState) ?xs = Some s"
    and e: "phase s = Ended" by (rule human_run_obtain)
  have r: "reachable s" using reachable_start_pvp run by (blast intro: human_run_reachable)
  show ?thesis using reachable_never_won [OF r] r e run by (simp add: list_all_iff)
qed

theorem reachable_playing_alive_witness:
  "reachable (startGame PvP Normal initialState) \<and> phase (startGame PvP Normal initialState) = Playing
   \<and> list_all (\<lambda>p. 0 < hp p) (players (startGame PvP Normal initialState))"
proof -
  have r: "reachable (startGame PvP Normal initialState)" by (rule reachable_start_pvp)
  have p: "phase (startGame PvP Normal initialState) = Playing" by (simp add: startGame_def)
  show ?thesis using r p reachable_playing_alive [OF r p] by (simp add: list_all_iff)
qed

theorem reachable_ended_iff_witness:
  "case human_run (startGame PvP Normal initialState)
          [''Avada Kedavra'', ''Stupefy'', ''Sectumsempra'', ''Expelliarmus'', ''Stupefy''] of
     None \<Rightarrow> False
   | Some s \<Rightarrow> reachable s \<and> mode s \<noteq> Menu \<and> hp (players s ! 1) = 0 \<and> phase s = Ended"
proof -
  let ?xs = "[''Avada Kedavra'', ''Stupefy'', ''Sectumsempra'', ''Expelliarmus'', ''Stupefy'']"
  have "case human_run (startGame PvP Normal initialState) ?xs of None \<Rightarrow> False
          | Some s \<Rightarrow> mode s \<noteq> Menu \<and> hp (players s ! 1) = 0 \<and> 1 < length (players s)"
    by code_simp
  then obtain s where run: "human_run (startGame PvP Normal initialState) ?xs = Some s"
    and m: "mode s \<noteq> Menu" and h: "hp (players s ! 1) = 0" "1 < length (players s)"
    by (rule human_run_obtain) auto
  have r: "reachable s" using reachable_start_pvp run by (blast intro: human_run_reachable)
  have "\<exists>p\<in>set (players s). hp p = 0" using h by (metis nth_mem)
  then have "phase s = Ended" using reachable_ended_iff [OF r m] by simp
  with r m h run show ?thesis by simp
qed

theorem ended_only_leave_witness:
  "case human_run (startGame PvP Normal initialState)
          [''Avada Kedavra'', ''Stupefy'', ''Sectumsempra'', ''Expelliarmus'', ''Stupefy''] of
     None \<Rightarrow> False
   | Some s \<Rightarrow> reachable s \<and> phase s = Ended \<and> game_step s (resetGame s)
       \<and> mode (resetGame s) = Menu"
proof -
  let ?xs = "[''Avada Kedavra'', ''Stupefy'', ''Sectumsempra'', ''Expelliarmus'', ''Stupefy'']"
  have "case human_run (startGame PvP Normal initialState) ?xs of None \<Rightarrow> False
          | Some s \<Rightarrow> phase s = Ended \<and> mode s \<noteq> Menu"
    by code_simp
  then obtain s where run: "human_run (startGame PvP Normal initialState) ?xs = Some s"
    and e: "phase s = Ended" and m: "mode s \<noteq> Menu" by (rule human_run_obtain) auto
  have r: "reachable s" using reachable_start_pvp run by (blast intro: human_run_reachable)
  have st: "game_step s (resetGame s)" using m by (rule game_step.leave_arena)
  from ended_only_leave [OF r e st] have "mode (resetGame s) = Menu" by (simp add: resetGame_def)
  with r e st run show ?thesis by simp
qed

theorem reachable_state_ok_witness:
  "case human_run (startGame PvP Normal initialState)
          [''Avada Kedavra'', ''Stupefy'', ''Sectumsempra'', ''Expelliarmus'', ''Stupefy''] of
     None \<Rightarrow> False
   | Some s \<Rightarrow> reachable s \<and> state_ok s"
proof -
  let ?xs = "[''Avada Kedavra'', ''Stupefy'', ''Sectumsempra'', ''Expelliarmus'', ''Stupefy'']"
  have "case human_run (startGame PvP Normal initialState) ?xs of None \<Rightarrow> False | Some s \<Rightarrow> True"
    by code_simp
  then obtain s where run: "human_run (startGame PvP Normal initialState) ?xs = Some s"
    by (rule human_run_obtain)
  have r: "reachable s" using reachable_start_pvp run by (blast intro: human_run_reachable)
  show ?thesis using r reachable_state_ok [OF r] run by simp
qed

end
