(* ===== verification/Timers.thy ===== *)
theory Timers
  imports Driver
begin

section \<open>Timers and effects: when the AI may move\<close>

text \<open>
  The driver of \<open>Driver\<close> lets the AI timeout and the regeneration interval fire
  whenever their guards hold. In the browser they fire at times fixed by React's effect
  semantics, which this theory models (src/src/hooks/useGameState.ts, lines 232-267):
  \<^item> after every render, an effect whose dependency list changed is cleaned up (its
    timer cleared) and run again; \<open>commit\<close> does this for the AI effect, whose
    dependencies are \<open>phase\<close>, \<open>currentPlayer\<close>, the \<open>players\<close> array, \<open>getAISpell\<close>
    (which changes with \<open>difficulty\<close>) and \<open>castSpell\<close> (which changes with
    \<open>players\<close> and \<open>currentPlayer\<close>), and for the regeneration effect, whose only
    dependency is \<open>phase\<close>;
  \<^item> arrays are compared by reference: \<open>playersRef\<close> counts the arrays allocated, and
    every updater that builds a new \<open>players\<close> array (\<open>startGame\<close>, a successful cast,
    the regeneration tick, \<open>resetGame\<close>) bumps it (\<open>set_game\<close>);
  \<^item> the AI effect sets a 1500 ms timeout on the AI's turn (\<open>aiTimer\<close>, its deadline)
    whose callback casts \<open>getAISpell\<close>'s choice (\<open>ai_fire\<close>); the regeneration effect
    sets a 1000 ms interval (\<open>regenNext\<close>, its next firing) whose callback is
    \<open>regenTick\<close> (\<open>tick\<close>).
  \<open>timed_step\<close> is the labelled step relation over \<open>clock\<close> states: the UI events of
  the driver at the current time, a timer firing exactly at its deadline, and time
  passing up to the next deadline. Timers are modelled as exact; a late timer in the
  browser changes nothing below, since the AI deadline is always at least 500 ms after
  the next regeneration tick.
\<close>

record clock =
  now :: nat
  game :: gameState
  playersRef :: nat
  aiDeps :: "(gamePhase \<times> int \<times> nat \<times> difficulty) option"
  aiTimer :: "nat option"
  regenDeps :: "gamePhase option"
  regenNext :: "nat option"

definition ai_turn :: "gameState \<Rightarrow> bool" where
  "ai_turn g = (case js_at (players g) (currentPlayer g) of Some p \<Rightarrow> isAI p | None \<Rightarrow> False)"

definition ai_deps :: "clock \<Rightarrow> gamePhase \<times> int \<times> nat \<times> difficulty" where
  "ai_deps c = (phase (game c), currentPlayer (game c), playersRef c, difficulty (game c))"

definition commit :: "clock \<Rightarrow> clock" where
  "commit c =
     (let c1 = (if aiDeps c = Some (ai_deps c) then c
                else c\<lparr>aiDeps := Some (ai_deps c),
                       aiTimer := (if phase (game c) = Playing \<and> ai_turn (game c)
                                   then Some (now c + 1500) else None)\<rparr>)
      in if regenDeps c1 = Some (phase (game c1)) then c1
         else c1\<lparr>regenDeps := Some (phase (game c1)),
                 regenNext := (if phase (game c1) = Playing then Some (now c1 + 1000) else None)\<rparr>)"

definition set_game :: "gameState \<Rightarrow> bool \<Rightarrow> clock \<Rightarrow> clock" where
  "set_game g fresh c =
     commit (c\<lparr>game := g, playersRef := (if fresh then Suc (playersRef c) else playersRef c)\<rparr>)"

definition clock0 :: clock where
  "clock0 = commit \<lparr>now = 0, game = initialState, playersRef = 0, aiDeps = None, aiTimer = None,
                     regenDeps = None, regenNext = None\<rparr>"

definition tick :: "clock \<Rightarrow> clock" where
  "tick c = set_game (regenTick (game c)) True (c\<lparr>regenNext := Some (now c + 1000)\<rparr>)"

definition ai_fire :: "nat \<Rightarrow> clock \<Rightarrow> clock" where
  "ai_fire r c =
     (let g = game c; c0 = c\<lparr>aiTimer := None\<rparr>
      in case (js_at (players g) (currentPlayer g), js_at (players g) (1 - currentPlayer g)) of
           (Some aiPlayer, Some opponent) \<Rightarrow>
             (case castSpell g (getAISpell (difficulty g) aiPlayer opponent r) of
                Inr (res, g') \<Rightarrow> set_game g' (success res) c0
              | Inl _ \<Rightarrow> c0)
         | _ \<Rightarrow> c0)"

definition next_deadline :: "clock \<Rightarrow> nat option" where
  "next_deadline c =
     (case (regenNext c, aiTimer c) of
        (Some n, Some d) \<Rightarrow> Some (min n d)
      | (Some n, None) \<Rightarrow> Some n
      | (None, d) \<Rightarrow> d)"

definition fire_due :: "(nat \<Rightarrow> nat) \<Rightarrow> clock \<Rightarrow> clock" where
  "fire_due rs c =
     (let c1 = (if regenNext c = Some (now c) then tick c else c)
      in if aiTimer c1 = Some (now c1) then ai_fire (rs (now c1)) c1 else c1)"

definition later :: "clock \<Rightarrow> nat \<Rightarrow> bool" where
  "later c t \<longleftrightarrow> (\<forall>n. regenNext c = Some n \<longrightarrow> t < n) \<and> (\<forall>d. aiTimer c = Some d \<longrightarrow> t < d)"

datatype tevent = EStart gameMode difficulty | ECast string | ELeave | ETick | EAIFire nat
  | EAutoEnd | EWait nat

inductive timed_step :: "clock \<Rightarrow> tevent \<Rightarrow> clock \<Rightarrow> bool" where
  t_start:
    "mode (game c) = Menu \<Longrightarrow> (m, d) \<in> set menu_buttons \<Longrightarrow>
     timed_step c (EStart m d) (set_game (startGame m d (game c)) True c)"
| t_cast:
    "input_shown (game c) \<Longrightarrow> js_trim i \<noteq> [] \<Longrightarrow>
     castSpell (game c) (js_trim i) = Inr (res, g') \<Longrightarrow>
     timed_step c (ECast i) (set_game g' (success res) c)"
| t_leave:
    "mode (game c) \<noteq> Menu \<Longrightarrow> timed_step c ELeave (set_game (resetGame (game c)) True c)"
| t_tick:
    "regenNext c = Some (now c) \<Longrightarrow> timed_step c ETick (tick c)"
| t_ai:
    "aiTimer c = Some (now c) \<Longrightarrow> timed_step c (EAIFire r) (ai_fire r c)"
| t_auto_end:
    "phase (game c) = Playing \<Longrightarrow> (\<exists>p\<in>set (players (game c)). hp p \<le> 0) \<Longrightarrow>
     find (\<lambda>p. 0 < hp p) (players (game c)) = Some w \<Longrightarrow>
     timed_step c EAutoEnd (set_game (endGame (playerId w) (game c)) False c)"
| t_wait:
    "0 < delta \<Longrightarrow> (\<forall>n. regenNext c = Some n \<longrightarrow> now c + delta \<le> n) \<Longrightarrow>
     (\<forall>d. aiTimer c = Some d \<longrightarrow> now c + delta \<le> d) \<Longrightarrow>
     timed_step c (EWait delta) (c\<lparr>now := now c + delta\<rparr>)"

inductive timed_run :: "clock \<Rightarrow> tevent list \<Rightarrow> clock \<Rightarrow> bool" where
  run_nil: "timed_run c [] c"
| run_cons: "timed_step c e c1 \<Longrightarrow> timed_run c1 es c' \<Longrightarrow> timed_run c (e # es) c'"

inductive timed_reachable :: "clock \<Rightarrow> bool" where
  t_init: "timed_reachable clock0"
| t_step: "timed_reachable c \<Longrightarrow> timed_step c e c' \<Longrightarrow> timed_reachable c'"

definition timer_inv :: "clock \<Rightarrow> bool" where
  "timer_inv c \<longleftrightarrow>
     aiDeps c = Some (ai_deps c) \<and> regenDeps c = Some (phase (game c))
     \<and> (phase (game c) = Playing \<longrightarrow> regenNext c \<noteq> None)
     \<and> (\<forall>n. regenNext c = Some n \<longrightarrow> now c \<le> n \<and> n \<le> now c + 1000)
     \<and> (\<forall>d. aiTimer c = Some d \<longrightarrow> (\<exists>n. regenNext c = Some n \<and> n < d))
     \<and> (regenNext c \<noteq> None \<longrightarrow> phase (game c) = Playing)"

lemma commit_inv:
  assumes "regenDeps c = map_option fst (aiDeps c)"
    and "\<forall>n. regenNext c = Some n \<longrightarrow> now c \<le> n \<and> n \<le> now c + 1000"
    and "regenDeps c = Some (phase (game c)) \<Longrightarrow> phase (game c) = Playing \<Longrightarrow> regenNext c \<noteq> None"
    and "aiDeps c = Some (ai_deps c) \<Longrightarrow> (\<forall>d. aiTimer c = Some d \<longrightarrow> (\<exists>n. regenNext c = Some n \<and> n < d))"
    and "regenDeps c = Some (phase (game c)) \<Longrightarrow> regenNext c \<noteq> None \<Longrightarrow> phase (game c) = Playing"
  shows "timer_inv (commit c)"
proof -
  define c1 where "c1 = (if aiDeps c = Some (ai_deps c) then c
                else c\<lparr>aiDeps := Some (ai_deps c),
                       aiTimer := (if phase (game c) = Playing \<and> ai_turn (game c)
                                   then Some (now c + 1500) else None)\<rparr>)"
  have c1: "game c1 = game c" "now c1 = now c" "regenDeps c1 = regenDeps c"
    "regenNext c1 = regenNext c" "aiDeps c1 = Some (ai_deps c)" "ai_deps c1 = ai_deps c"
    by (simp_all add: c1_def ai_deps_def)
  have t1: "aiTimer c1 = Some d \<Longrightarrow> regenDeps c = Some (phase (game c)) \<Longrightarrow>
            \<exists>n. regenNext c = Some n \<and> n < d" for d
  proof (cases "aiDeps c = Some (ai_deps c)")
    case True
    then show "aiTimer c1 = Some d \<Longrightarrow> ?thesis" using assms(4) by (simp add: c1_def)
  next
    case False
    assume "aiTimer c1 = Some d" "regenDeps c = Some (phase (game c))"
    with False assms(2,3) show ?thesis
      by (fastforce simp: c1_def split: if_splits)
  qed
  show ?thesis
  proof (cases "regenDeps c = Some (phase (game c))")
    case True
    then have "commit c = c1" by (simp add: commit_def c1_def [symmetric] c1 Let_def)
    with True t1 c1 assms(2,3,5) show ?thesis by (simp add: timer_inv_def)
  next
    case False
    then have "commit c = c1\<lparr>regenDeps := Some (phase (game c)),
        regenNext := (if phase (game c) = Playing then Some (now c + 1000) else None)\<rparr>"
      by (simp add: commit_def c1_def [symmetric] c1 Let_def)
    moreover have "aiTimer c1 = Some d \<Longrightarrow> phase (game c) = Playing \<and> now c + 1000 < d" for d
    proof (cases "aiDeps c = Some (ai_deps c)")
      case True
      with assms(1) have "regenDeps c = Some (phase (game c))"
        by (simp add: ai_deps_def)
      with False show ?thesis by simp
    next
      case False
      then show "aiTimer c1 = Some d \<Longrightarrow> ?thesis" by (simp add: c1_def split: if_splits)
    qed
    ultimately show ?thesis using c1 by (auto simp: timer_inv_def ai_deps_def)
  qed
qed


lemma game_commit [simp]: "game (commit c) = game c"
  and now_commit [simp]: "now (commit c) = now c"
  and playersRef_commit [simp]: "playersRef (commit c) = playersRef c"
  by (simp_all add: commit_def Let_def)

lemma game_set_game [simp]: "game (set_game g f c) = g"
  and now_set_game [simp]: "now (set_game g f c) = now c"
  by (simp_all add: set_game_def)

lemma clock0_inv: "timer_inv clock0"
  unfolding clock0_def by (rule commit_inv) (simp_all add: initialState_def)

lemma set_game_inv: "timer_inv c \<Longrightarrow> timer_inv (set_game g f c)"
  unfolding set_game_def by (rule commit_inv) (auto simp: timer_inv_def ai_deps_def)

lemma tick_inv:
  assumes "timer_inv c" "regenNext c = Some (now c)"
  shows "timer_inv (tick c)"
  unfolding tick_def set_game_def
  by (rule commit_inv) (use assms in \<open>auto simp: timer_inv_def ai_deps_def\<close>)

lemma ai_fire_inv:
  assumes "timer_inv c"
  shows "timer_inv (ai_fire r c)"
proof -
  have i0: "timer_inv (c\<lparr>aiTimer := None\<rparr>)"
    using assms by (simp add: timer_inv_def ai_deps_def)
  show ?thesis
    unfolding ai_fire_def Let_def
    by (use i0 in \<open>auto split: option.split sum.split intro: set_game_inv\<close>)
qed

lemma wait_inv:
  assumes "timer_inv c" "\<forall>n. regenNext c = Some n \<longrightarrow> now c + delta \<le> n"
  shows "timer_inv (c\<lparr>now := now c + delta\<rparr>)"
proof -
  have "\<forall>n. regenNext c = Some n \<longrightarrow> now c + delta \<le> n \<and> n \<le> now c + delta + 1000"
    using assms by (auto simp: timer_inv_def)
  then show ?thesis using assms(1) by (simp add: timer_inv_def ai_deps_def)
qed

lemma timed_step_inv: "timed_step c e c' \<Longrightarrow> timer_inv c \<Longrightarrow> timer_inv c'"
proof (induction rule: timed_step.induct)
  case (t_tick c)
  then show ?case by (simp add: tick_inv)
next
  case (t_ai c r)
  then show ?case by (simp add: ai_fire_inv)
next
  case (t_wait delta c)
  then show ?case by (simp add: wait_inv)
qed (simp_all add: set_game_inv)

lemma timed_reachable_inv: "timed_reachable c \<Longrightarrow> timer_inv c"
  by (induction rule: timed_reachable.induct) (auto intro: clock0_inv timed_step_inv)

lemma ai_timer_late:
  "timer_inv c \<Longrightarrow> aiTimer c = Some d \<Longrightarrow> \<exists>n. regenNext c = Some n \<and> now c \<le> n \<and> n < d"
  by (fastforce simp: timer_inv_def)

text \<open>
  C2: In every clock state reachable under React's effect semantics, the AI's 1500 ms
  timeout never fires: the 1000 ms regeneration interval always ticks first, its new
  players array changes the AI effect's dependencies, and the effect's cleanup clears
  the timeout before setting a new one 1500 ms later.
\<close>

theorem ai_timeout_never_fires: "timed_reachable c \<Longrightarrow> \<not> timed_step c (EAIFire r) c'"
proof
  assume r: "timed_reachable c" and st: "timed_step c (EAIFire r) c'"
  from st have "aiTimer c = Some (now c)" by (cases rule: timed_step.cases) auto
  with ai_timer_late [OF timed_reachable_inv [OF r]] show False by auto
qed


lemma game_clock0 [simp]: "game clock0 = initialState"
  by (simp add: clock0_def)

lemma game_tick [simp]: "game (tick c) = regenTick (game c)"
  by (simp add: tick_def)

lemma timed_step_game:
  assumes "timed_step c e c'" "timer_inv c"
  shows "game c' = game c \<or> game_step (game c) (game c')"
  using assms
proof (induction rule: timed_step.induct)
  case (t_start c m d)
  then show ?case by (auto intro: game_step.start_game)
next
  case (t_cast c i res g')
  then show ?case by (auto intro: game_step.human_cast)
next
  case (t_leave c)
  then show ?case by (auto intro: game_step.leave_arena)
next
  case (t_tick c)
  then have "phase (game c) = Playing" by (auto simp: timer_inv_def)
  then show ?case by (auto intro: game_step.regen_tick)
next
  case (t_ai c r)
  then show ?case using ai_timer_late [of c "now c"] by auto
next
  case (t_auto_end c w)
  then show ?case by (auto intro: game_step.auto_end)
qed simp

lemma timed_reachable_game: "timed_reachable c \<Longrightarrow> reachable (game c)"
proof (induction rule: timed_reachable.induct)
  case t_init
  then show ?case by (simp add: reachable.init)
next
  case (t_step c e c')
  then show ?case
    using timed_step_game [OF t_step.hyps(2) timed_reachable_inv [OF t_step.hyps(1)]]
    by (auto intro: reachable.step)
qed

text \<open>
  C4: The timed model refines the untimed driver: every reachable clock holds a
  reachable game state, and each timed step either leaves the game unchanged or is a
  step of the driver's relation, so all driver invariants hold under real timer
  scheduling.
\<close>

theorem timed_refines_driver:
  assumes "timed_reachable c"
  shows "reachable (game c)
         \<and> (\<forall>e c'. timed_step c e c' \<longrightarrow> game c' = game c \<or> game_step (game c) (game c'))"
  using timed_reachable_game [OF assms] timed_step_game [OF _ timed_reachable_inv [OF assms]]
  by blast

lemma regenTick_ai_turn [simp]:
  "phase (regenTick g) = phase g" "ai_turn (regenTick g) = ai_turn g"
  "mode (regenTick g) = mode g"
  by (auto simp: regenTick_def ai_turn_def js_at_def regen_player_def)

lemma ai_turn_step:
  assumes "timed_reachable c" "phase (game c) = Playing" "ai_turn (game c)"
    and "timed_step c e c'" "e \<noteq> ELeave"
  shows "game c' = game c \<or> game c' = regenTick (game c)"
  using assms(4,5,1,2,3)
proof (induction rule: timed_step.induct)
  case (t_start c m d)
  then show ?case
    using reachable_inv [OF timed_reachable_game] by (auto simp: driver_inv_def)
next
  case (t_cast c i res g')
  then show ?case
    by (auto simp: input_shown_iff isPlayerTurn_def ai_turn_def split: option.splits)
next
  case (t_ai c r)
  then show ?case using ai_timer_late [OF timed_reachable_inv] by fastforce
next
  case (t_auto_end c w)
  then show ?case
    using reachable_inv [OF timed_reachable_game] by (fastforce simp: driver_inv_def list_all_iff)
qed simp_all

text \<open>
  C3: Once it is the AI's turn in a running match, every sequence of events that does
  not leave the arena (typing, waiting, timers) only applies regeneration ticks to the
  game: the AI never casts and the duel never continues.
\<close>

theorem ai_turn_never_ends:
  assumes "timed_reachable c" "phase (game c) = Playing" "ai_turn (game c)"
    and "timed_run c es c'" "ELeave \<notin> set es"
  shows "\<exists>k. game c' = (regenTick ^^ k) (game c)"
  using assms(4,1,2,3,5)
proof (induction arbitrary: rule: timed_run.induct)
  case (run_nil c)
  then show ?case by (metis funpow_0)
next
  case (run_cons c e c1 es c')
  have r1: "timed_reachable c1" using run_cons.prems(1) run_cons.hyps(1) by (rule t_step)
  from ai_turn_step [OF run_cons.prems(1-3) run_cons.hyps(1)] run_cons.prems(4)
  have g1: "game c1 = game c \<or> game c1 = regenTick (game c)" by auto
  then have "phase (game c1) = Playing" "ai_turn (game c1)"
    using run_cons.prems(2,3) by auto
  with run_cons.IH [OF r1] run_cons.prems(4) obtain k where "game c' = (regenTick ^^ k) (game c1)"
    by auto
  with g1 show ?case by (metis funpow_Suc_right o_apply)
qed


subsection \<open>Progress of the event loop\<close>

lemma commit_deadlines:
  "regenNext (commit c) \<in> {regenNext c, None, Some (now c + 1000)}"
  "aiTimer (commit c) \<in> {aiTimer c, None, Some (now c + 1500)}"
  by (auto simp: commit_def Let_def)

lemma now_tick [simp]: "now (tick c) = now c"
  by (simp add: tick_def)

lemma now_ai_fire [simp]: "now (ai_fire r c) = now c"
  by (auto simp: ai_fire_def Let_def split: option.split sum.split prod.split)

lemma tick_deadlines:
  "regenNext (tick c) \<in> {None, Some (now c + 1000)}"
  "aiTimer (tick c) \<in> {aiTimer c, None, Some (now c + 1500)}"
  using commit_deadlines [of "c\<lparr>regenNext := Some (now c + 1000), game := regenTick (game c),
                                 playersRef := Suc (playersRef c)\<rparr>"]
  by (auto simp: tick_def set_game_def)

lemma set_game_deadlines:
  "regenNext (set_game g f c) \<in> {regenNext c, None, Some (now c + 1000)}"
  "aiTimer (set_game g f c) \<in> {aiTimer c, None, Some (now c + 1500)}"
  using commit_deadlines [of "c\<lparr>game := g, playersRef := (if f then Suc (playersRef c) else playersRef c)\<rparr>"]
  by (simp_all add: set_game_def)

lemma ai_fire_cases:
  "ai_fire r c = c\<lparr>aiTimer := None\<rparr> \<or> (\<exists>g f. ai_fire r c = set_game g f (c\<lparr>aiTimer := None\<rparr>))"
  by (auto simp: ai_fire_def Let_def split: option.split sum.split prod.split)

lemma ai_fire_deadlines:
  "regenNext (ai_fire r c) \<in> {regenNext c, None, Some (now c + 1000)}
   \<and> aiTimer (ai_fire r c) \<in> {None, Some (now c + 1500)}"
  using ai_fire_cases [of r c]
proof (elim disjE exE)
  fix g f assume "ai_fire r c = set_game g f (c\<lparr>aiTimer := None\<rparr>)"
  then show ?thesis using set_game_deadlines [of g f "c\<lparr>aiTimer := None\<rparr>"] by simp
qed simp

lemma later_next_deadline: "later c t \<Longrightarrow> next_deadline c = Some t' \<Longrightarrow> t < t'"
  by (auto simp: later_def next_deadline_def split: option.splits)

lemma next_deadline_min:
  assumes "next_deadline c = Some t"
  shows "(\<forall>n. regenNext c = Some n \<longrightarrow> t \<le> n) \<and> (\<forall>d. aiTimer c = Some d \<longrightarrow> t \<le> d)
         \<and> (regenNext c = Some t \<or> aiTimer c = Some t)"
  using assms by (auto simp: next_deadline_def min_def split: option.splits if_splits)

lemma fire_due_later:
  assumes "next_deadline c = Some (now c)"
  shows "later (fire_due rs c) (now c)"
proof -
  let ?t = "now c"
  define c1 where "c1 = (if regenNext c = Some ?t then tick c else c)"
  note m = next_deadline_min [OF assms]
  have n1: "now c1 = ?t" by (simp add: c1_def)
  have r1: "\<forall>n. regenNext c1 = Some n \<longrightarrow> ?t < n"
  proof (cases "regenNext c = Some ?t")
    case True
    then show ?thesis using tick_deadlines(1) [of c] by (auto simp: c1_def)
  next
    case False
    then show ?thesis using m by (force simp: c1_def)
  qed
  have a1: "\<forall>d. aiTimer c1 = Some d \<longrightarrow> ?t \<le> d"
    using m tick_deadlines(2) [of c] by (auto simp: c1_def)
  show ?thesis
  proof (cases "aiTimer c1 = Some ?t")
    case True
    then have "fire_due rs c = ai_fire (rs ?t) c1" by (simp add: fire_due_def c1_def [symmetric] Let_def n1)
    then show ?thesis
      using ai_fire_deadlines [of "rs ?t" c1] r1 n1 by (auto simp: later_def)
  next
    case False
    then have "fire_due rs c = c1" by (simp add: fire_due_def c1_def [symmetric] Let_def n1)
    then show ?thesis using r1 a1 False by (force simp: later_def le_less)
  qed
qed

lemma fire_due_progress:
  "next_deadline c = Some t \<Longrightarrow> next_deadline (fire_due rs (c\<lparr>now := t\<rparr>)) = Some t' \<Longrightarrow> t < t'"
  using fire_due_later [of "c\<lparr>now := t\<rparr>" rs] later_next_deadline
  by (simp add: next_deadline_def)

subsection \<open>Witnesses at concrete inputs\<close>

text \<open>
  The clock after starting an easy vs-computer match at time 0 and casting Stupefy at
  once: the AI's turn, its timeout due at 1500 and the next regeneration tick at 1000.
\<close>

lemma ai_turn_clock:
  obtains r g' where "castSpell (startGame AIMode Easy initialState) ''Stupefy'' = Inr (r, g')"
    "success r" "phase g' = Playing" "ai_turn g'"
    "timed_reachable (set_game g' (success r) (set_game (startGame AIMode Easy initialState) True clock0))"
    "aiTimer (set_game g' (success r) (set_game (startGame AIMode Easy initialState) True clock0)) = Some 1500"
    "regenNext (set_game g' (success r) (set_game (startGame AIMode Easy initialState) True clock0)) = Some 1000"
    "now (set_game g' (success r) (set_game (startGame AIMode Easy initialState) True clock0)) = 0"
proof -
  have "case castSpell (startGame AIMode Easy initialState) ''Stupefy'' of Inl _ \<Rightarrow> False
          | Inr (r, g') \<Rightarrow> success r \<and> phase g' = Playing \<and> ai_turn g'
                         \<and> input_shown (startGame AIMode Easy initialState)"
    by code_simp
  then obtain r g' where eq: "castSpell (startGame AIMode Easy initialState) ''Stupefy'' = Inr (r, g')"
    and f: "success r" "phase g' = Playing" "ai_turn g'" "input_shown (startGame AIMode Easy initialState)"
    by (rule castSpell_Inr_obtain) auto
  let ?c1 = "set_game (startGame AIMode Easy initialState) True clock0"
  let ?c2 = "set_game g' (success r) ?c1"
  have s1: "timed_step clock0 (EStart AIMode Easy) ?c1"
    using t_start [of clock0 AIMode Easy] by (simp add: initialState_def menu_buttons_def)
  have s2: "timed_step ?c1 (ECast ''Stupefy'') ?c2"
    using t_cast [of ?c1 "''Stupefy''" r g'] f(4) eq by (simp add: js_simps)
  have r2: "timed_reachable ?c2" using t_step [OF t_step [OF t_init s1] s2] .
  have c1: "aiTimer ?c1 = None" "regenNext ?c1 = Some 1000" "now ?c1 = 0"
    "aiDeps ?c1 = Some (Playing, 0, Suc 0, Easy)" "regenDeps ?c1 = Some Playing"
    by (simp_all add: set_game_def commit_def clock0_def Let_def ai_deps_def startGame_def
        initialState_def ai_turn_def initialPlayer_def)
  have "aiTimer ?c2 = Some 1500" "regenNext ?c2 = Some 1000" "now ?c2 = 0"
    using c1 f by (simp_all add: set_game_def commit_def Let_def ai_deps_def)
  with that eq f r2 show ?thesis by blast
qed

theorem ai_timeout_never_fires_witness:
  "case castSpell (startGame AIMode Easy initialState) ''Stupefy'' of
     Inl _ \<Rightarrow> False
   | Inr (r, g') \<Rightarrow>
       (let c = set_game g' (success r) (set_game (startGame AIMode Easy initialState) True clock0)
        in timed_reachable c \<and> aiTimer c = Some 1500 \<and> \<not> timed_step c (EAIFire 0) (ai_fire 0 c))"
proof -
  obtain r g' where eq: "castSpell (startGame AIMode Easy initialState) ''Stupefy'' = Inr (r, g')"
    and r: "timed_reachable (set_game g' (success r) (set_game (startGame AIMode Easy initialState) True clock0))"
    and a: "aiTimer (set_game g' (success r) (set_game (startGame AIMode Easy initialState) True clock0)) = Some 1500"
    by (rule ai_turn_clock)
  show ?thesis using ai_timeout_never_fires [OF r, of 0] r a by (simp add: eq)
qed

theorem ai_turn_never_ends_witness:
  "case castSpell (startGame AIMode Easy initialState) ''Stupefy'' of
     Inl _ \<Rightarrow> False
   | Inr (r, g') \<Rightarrow>
       (let c = set_game g' (success r) (set_game (startGame AIMode Easy initialState) True clock0)
        in timed_reachable c \<and> phase (game c) = Playing \<and> ai_turn (game c)
           \<and> timed_run c [EWait 1000, ETick] (tick (c\<lparr>now := 1000\<rparr>))
           \<and> (\<exists>k. game (tick (c\<lparr>now := 1000\<rparr>)) = (regenTick ^^ k) (game c)))"
proof -
  obtain r g' where eq: "castSpell (startGame AIMode Easy initialState) ''Stupefy'' = Inr (r, g')"
    and f: "phase g' = Playing" "ai_turn g'"
    and r: "timed_reachable (set_game g' (success r) (set_game (startGame AIMode Easy initialState) True clock0))"
    and a: "aiTimer (set_game g' (success r) (set_game (startGame AIMode Easy initialState) True clock0)) = Some 1500"
    and n: "regenNext (set_game g' (success r) (set_game (startGame AIMode Easy initialState) True clock0)) = Some 1000"
    and t: "now (set_game g' (success r) (set_game (startGame AIMode Easy initialState) True clock0)) = 0"
    by (rule ai_turn_clock)
  define c where "c = set_game g' (success r) (set_game (startGame AIMode Easy initialState) True clock0)"
  have w: "timed_step c (EWait 1000) (c\<lparr>now := 1000\<rparr>)"
    using t_wait [of 1000 c] a n t by (simp add: c_def)
  have k: "timed_step (c\<lparr>now := 1000\<rparr>) ETick (tick (c\<lparr>now := 1000\<rparr>))"
    by (rule t_tick) (use n in \<open>simp add: c_def\<close>)
  have run: "timed_run c [EWait 1000, ETick] (tick (c\<lparr>now := 1000\<rparr>))"
    by (rule run_cons [OF w run_cons [OF k run_nil]])
  have g: "game c = g'" by (simp add: c_def)
  have "\<exists>k. game (tick (c\<lparr>now := 1000\<rparr>)) = (regenTick ^^ k) (game c)"
    by (rule ai_turn_never_ends [OF r [folded c_def] _ _ run]) (simp_all add: g f)
  with r run f g show ?thesis by (simp add: eq c_def)
qed

theorem timed_refines_driver_witness:
  "case castSpell (startGame AIMode Easy initialState) ''Stupefy'' of
     Inl _ \<Rightarrow> False
   | Inr (r, g') \<Rightarrow>
       (let c = set_game g' (success r) (set_game (startGame AIMode Easy initialState) True clock0)
        in timed_reachable c \<and> reachable g')"
proof -
  obtain r g' where eq: "castSpell (startGame AIMode Easy initialState) ''Stupefy'' = Inr (r, g')"
    and r: "timed_reachable (set_game g' (success r) (set_game (startGame AIMode Easy initialState) True clock0))"
    by (rule ai_turn_clock)
  show ?thesis using timed_refines_driver [OF r] r by (simp add: eq)
qed

end
