(* ===== verification/EventLoop.thy ===== *)
theory EventLoop
  imports Timers
begin

section \<open>The browser's timer loop\<close>

text \<open>
  With no user input, the page is driven by the browser's event loop alone: it waits
  for the earliest pending deadline (\<open>next_deadline\<close>), fires every timer due at that
  time (\<open>fire_due\<close>: the regeneration interval, then the AI timeout) and repeats.
  \<open>run_timers rs h c\<close> runs this loop up to the horizon \<open>h\<close> (milliseconds); \<open>rs t\<close>
  is the random draw of an AI move at time \<open>t\<close>. The loop is a \<^theory_text>\<open>function\<close>
  whose termination measure is the distance from the next deadline to the horizon:
  firing the timers due at \<open>t\<close> leaves only deadlines after \<open>t\<close>
  (\<open>fire_due_progress\<close> of \<open>Timers\<close>). Each iteration is a sequence of
  \<open>timed_step\<close>s, so the loop's states are reachable clocks.
\<close>

definition due_by :: "nat \<Rightarrow> clock \<Rightarrow> bool" where
  "due_by h c = (case next_deadline c of None \<Rightarrow> False | Some t \<Rightarrow> now c \<le> t \<and> t \<le> h)"

function run_timers :: "(nat \<Rightarrow> nat) \<Rightarrow> nat \<Rightarrow> clock \<Rightarrow> clock" where
  "run_timers rs h c =
     (if due_by h c then run_timers rs h (fire_due rs (c\<lparr>now := the (next_deadline c)\<rparr>)) else c)"
  by pat_completeness auto
termination
proof (relation "measure (\<lambda>(rs, h, c). case next_deadline c of None \<Rightarrow> 0 | Some t \<Rightarrow> Suc h - t)")
  fix rs h c
  assume "due_by h c"
  then obtain t where d: "next_deadline c = Some t" and le: "now c \<le> t" "t \<le> h"
    by (auto simp: due_by_def split: option.splits)
  show "((rs, h, fire_due rs (c\<lparr>now := the (next_deadline c)\<rparr>)), rs, h, c)
          \<in> measure (\<lambda>(rs, h, c). case next_deadline c of None \<Rightarrow> 0 | Some t \<Rightarrow> Suc h - t)"
    using fire_due_progress [OF d, of rs] d le by (fastforce split: option.split intro!: diff_less_mono2)
qed simp

declare run_timers.simps [simp del]

lemma timer_inv_deadline_now:
  "timer_inv c \<Longrightarrow> next_deadline c = Some t \<Longrightarrow> now c \<le> t"
  by (fastforce simp: timer_inv_def next_deadline_def min_def split: option.splits if_splits)

lemma wait_to_deadline:
  assumes "timed_reachable c" "next_deadline c = Some t" "now c \<le> t"
  shows "timed_reachable (c\<lparr>now := t\<rparr>)"
proof (cases "now c = t")
  case True
  then have "c\<lparr>now := t\<rparr> = c" by (cases c) simp
  then show ?thesis using assms(1) by simp
next
  case False
  note m = next_deadline_min [OF assms(2)]
  have "timed_step c (EWait (t - now c)) (c\<lparr>now := now c + (t - now c)\<rparr>)"
    by (rule t_wait) (use False assms(3) m in auto)
  then show ?thesis using assms(1,3) t_step by fastforce
qed

lemma fire_due_reachable:
  assumes "timed_reachable c"
  shows "timed_reachable (fire_due rs c)"
proof -
  define c1 where "c1 = (if regenNext c = Some (now c) then tick c else c)"
  have r1: "timed_reachable c1"
    using assms t_step [OF assms t_tick] by (simp add: c1_def)
  show ?thesis
  proof (cases "aiTimer c1 = Some (now c1)")
    case True
    then show ?thesis using t_step [OF r1 t_ai [OF True]]
      by (simp add: fire_due_def c1_def [symmetric] Let_def)
  next
    case False
    then show ?thesis using r1 by (simp add: fire_due_def c1_def [symmetric] Let_def)
  qed
qed

lemma run_timers_reachable: "timed_reachable c \<Longrightarrow> timed_reachable (run_timers rs h c)"
proof (induction rs h c rule: run_timers.induct)
  case (1 rs h c)
  show ?case
  proof (cases "next_deadline c")
    case (Some t)
    show ?thesis
    proof (cases "now c \<le> t \<and> t \<le> h")
      case True
      have "timed_reachable (fire_due rs (c\<lparr>now := t\<rparr>))"
        using wait_to_deadline [OF "1.prems" Some] True by (blast intro: fire_due_reachable)
      moreover have "due_by h c" using Some True by (simp add: due_by_def)
      ultimately show ?thesis using "1.IH" Some
        by (simp add: run_timers.simps [of rs h c] due_by_def)
    next
      case False
      then show ?thesis using "1.prems" Some by (auto simp: run_timers.simps [of rs h c] due_by_def)
    qed
  next
    case None
    then show ?thesis using "1.prems" by (simp add: run_timers.simps [of rs h c] due_by_def)
  qed
qed

lemma fire_due_inv:
  assumes "timer_inv c"
  shows "timer_inv (fire_due rs c)"
proof -
  define c1 where "c1 = (if regenNext c = Some (now c) then tick c else c)"
  have "timer_inv c1" using assms tick_inv [OF assms] by (simp add: c1_def)
  then show ?thesis by (simp add: fire_due_def c1_def [symmetric] Let_def ai_fire_inv)
qed

lemma run_timers_complete:
  "timer_inv c \<Longrightarrow> (case next_deadline (run_timers rs h c) of None \<Rightarrow> True | Some t \<Rightarrow> h < t)"
proof (induction rs h c rule: run_timers.induct)
  case (1 rs h c)
  show ?case
  proof (cases "next_deadline c")
    case None
    then show ?thesis by (simp add: run_timers.simps [of rs h c] due_by_def)
  next
    case (Some t)
    have le: "now c \<le> t" using timer_inv_deadline_now [OF "1.prems" Some] .
    show ?thesis
    proof (cases "t \<le> h")
      case True
      have "timer_inv (c\<lparr>now := t\<rparr>)"
        using wait_inv [OF "1.prems", of "t - now c"] next_deadline_min [OF Some] le by simp
      then have "timer_inv (fire_due rs (c\<lparr>now := t\<rparr>))" by (rule fire_due_inv)
      moreover have "due_by h c" using Some True le by (simp add: due_by_def)
      ultimately show ?thesis using "1.IH" Some
        by (simp add: run_timers.simps [of rs h c] due_by_def)
    next
      case False
      then show ?thesis using Some by (simp add: run_timers.simps [of rs h c] due_by_def)
    qed
  qed
qed

end
