(* ===== verification/Notify.thy ===== *)
theory Notify
  imports Achievements
begin

section \<open>Achievement notifications (src/src/pages/Index.tsx)\<close>

text \<open>
  Index keeps a queue \<open>newAchievements\<close> of notifications to show, and an effect that
  runs whenever \<open>gameState.achievements\<close> changes: it reads the number of achievements
  already announced from \<open>localStorage\<close> (\<open>parseInt(getItem('achievementCount') || '0')\<close>),
  and when more are unlocked now, appends \<open>currentUnlocked.slice(lastKnownCount)\<close> to
  the queue and stores the new count. \<open>notifyState\<close> holds the stored string and the
  queue; \<open>achievementCheck\<close> is the effect's body and
  \<open>removeAchievementNotification\<close> the close handler (a filter on the index).
  The lemmas show that the stored count reads back as the maximum of the counts seen,
  that the right achievements are announced when unlocks happen in catalog order, and
  two ways the scheme goes wrong: an unlock earlier in the catalog than an announced one
  re-announces an old achievement and never announces the new one, and a count kept in
  \<open>localStorage\<close> across a reload (the achievements themselves are not persisted)
  silences the next unlocks.
\<close>

record notifyState =
  storedCount :: "string option"
  newAchievements :: "achievement list"

definition achievementCheck :: "achievement list \<Rightarrow> notifyState \<Rightarrow> notifyState" where
  "achievementCheck achievements st =
     (let lastKnownCount = js_parseInt (js_or_str (storedCount st) ''0'');
          currentUnlocked = filter unlocked achievements
      in case lastKnownCount of
           None \<Rightarrow> st
         | Some k \<Rightarrow>
             if k < int (length currentUnlocked)
             then st\<lparr>newAchievements := newAchievements st @ js_slice currentUnlocked k,
                     storedCount := Some (js_nat_toString (length currentUnlocked))\<rparr>
             else st)"

definition removeAchievementNotification :: "nat \<Rightarrow> notifyState \<Rightarrow> notifyState" where
  "removeAchievementNotification index st =
     st\<lparr>newAchievements :=
          map fst (filter (\<lambda>(_, i). i \<noteq> index)
                     (zip (newAchievements st) [0..<length (newAchievements st)]))\<rparr>"

abbreviation storedValue :: "notifyState \<Rightarrow> int option" where
  "storedValue st \<equiv> js_parseInt (js_or_str (storedCount st) ''0'')"

text \<open>Two games' statistics for the examples below.\<close>

definition stats_game1 :: gameStats where
  "stats_game1 = \<lparr>spellsCast = 3, correctSpells = 3, consecutiveCorrectSpells = 3, gamesWon = 1,
      gamesLost = 0, damageDealt = 100, damageTaken = 0, healthRemaining = Some 40,
      usedHealingSpells = False, perfectGames = 0, unforgivableCursesUsed = 0\<rparr>"

definition stats_game2 :: gameStats where
  "stats_game2 = stats_game1\<lparr>spellsCast := 8, correctSpells := 8, consecutiveCorrectSpells := 5,
      gamesWon := 2, usedHealingSpells := True\<rparr>"

text \<open>
  C28: The count the effect writes with toString reads back through parseInt: after the
  effect, the stored value parses to the maximum of the previous value and the number of
  unlocked achievements (and stays unparsable if it was).
\<close>

theorem achievementCheck_stored:
  "storedValue (achievementCheck achs st)
     = map_option (\<lambda>k. max k (int (length (filter unlocked achs)))) (storedValue st)"
  by (auto simp: achievementCheck_def Let_def js_parseInt_toString split: option.split)


text \<open>
  C29: When the stored count is at least the number of unlocked achievements, the effect
  does nothing; since the count survives a page reload while the achievements do not,
  the first unlocks after a reload are never announced.
\<close>

theorem achievementCheck_nothing_new:
  assumes "storedValue st = Some k" and "int (length (filter unlocked achs)) \<le> k"
  shows "achievementCheck achs st = st"
  using assms by (simp add: achievementCheck_def)

lemma filter_index_zip:
  "map fst (filter (\<lambda>(_, i). i \<noteq> index) (zip q [n..<n + length q]))
     = (if index < n then q else take (index - n) q @ drop (Suc (index - n)) q)"
proof (induction q arbitrary: n)
  case Nil
  then show ?case by simp
next
  case (Cons x q)
  have u: "[n..<n + length (x # q)] = n # [Suc n..<Suc n + length q]"
    by (simp add: upt_conv_Cons del: upt_Suc)
  show ?case
    using Cons.IH [of "Suc n"] by (simp only: u) (auto simp: Suc_diff_Suc take_Cons' drop_Cons')
qed

lemma removeAchievementNotification_eq:
  "newAchievements (removeAchievementNotification index st)
     = take index (newAchievements st) @ drop (Suc index) (newAchievements st)"
  using filter_index_zip [of index "newAchievements st" 0]
  by (simp add: removeAchievementNotification_def)

text \<open>
  C26: Whenever the stored count parses to a non-negative k, the notification effect
  appends to the queue exactly the unlocked achievements from position k on in catalog
  order, whichever of them are new: an achievement unlocked after k others but placed
  before one of them in the catalog is never announced, and an old one is announced
  again in its place.
\<close>

theorem achievementCheck_by_position:
  assumes "storedValue st = Some k" and "0 \<le> k"
  shows "newAchievements (achievementCheck achs st)
           = newAchievements st @ drop (nat k) (filter unlocked achs)"
  using assms by (simp add: achievementCheck_def js_slice_def Let_def)

subsection \<open>Witnesses at concrete inputs\<close>


theorem achievementCheck_nothing_new_witness:
  "let st = \<lparr>storedCount = Some ''3'', newAchievements = []\<rparr>;
       achs = evaluate_achievements stats_game1 ACHIEVEMENTS
   in storedValue st = Some 3 \<and> int (length (filter unlocked achs)) \<le> 3
      \<and> length (filter unlocked achs) = 3 \<and> newAchievements (achievementCheck achs st) = []"
proof -
  define st where "st = \<lparr>storedCount = Some ''3'', newAchievements = ([] :: achievement list)\<rparr>"
  define achs where "achs = evaluate_achievements stats_game1 ACHIEVEMENTS"
  have h1: "storedValue st = Some 3" by (simp add: st_def js_simps)
  have n: "length (filter unlocked achs) = 3"
    by (simp add: achs_def evaluate_achievements_def checkAchievements_def unlock_new_def
        ACHIEVEMENTS_def stats_game1_def)
  then have h2: "int (length (filter unlocked achs)) \<le> 3" by simp
  have "achievementCheck achs st = st" by (rule achievementCheck_nothing_new [OF h1 h2])
  moreover have "newAchievements st = []" by (simp add: st_def)
  ultimately show ?thesis using h1 h2 n by (simp add: st_def [symmetric] achs_def [symmetric])
qed

theorem achievementCheck_by_position_witness:
  "let achs1 = evaluate_achievements stats_game1 ACHIEVEMENTS;
       achs2 = evaluate_achievements stats_game2 achs1;
       n1 = achievementCheck achs1 \<lparr>storedCount = None, newAchievements = []\<rparr>;
       st = n1\<lparr>newAchievements := []\<rparr>
   in storedValue st = Some 3
      \<and> map achId (newAchievements n1) = [''first_spell'', ''first_victory'', ''no_healing'']
      \<and> map achId (filter unlocked achs2) = [''first_spell'', ''spell_streak'', ''first_victory'', ''no_healing'']
      \<and> map achId (newAchievements (achievementCheck achs2 st)) = [''no_healing'']"
proof -
  define achs1 where "achs1 = evaluate_achievements stats_game1 ACHIEVEMENTS"
  define achs2 where "achs2 = evaluate_achievements stats_game2 achs1"
  define n1 where "n1 = achievementCheck achs1 \<lparr>storedCount = None, newAchievements = []\<rparr>"
  define st where "st = n1\<lparr>newAchievements := []\<rparr>"
  have u2: "map achId (filter unlocked achs2) = [''first_spell'', ''spell_streak'', ''first_victory'', ''no_healing'']"
    by (simp add: achs2_def achs1_def evaluate_achievements_def checkAchievements_def unlock_new_def
        ACHIEVEMENTS_def stats_game1_def stats_game2_def)
  have n1: "map achId (newAchievements n1) = [''first_spell'', ''first_victory'', ''no_healing'']"
    "storedCount n1 = Some ''3''"
    by (simp_all add: n1_def achs1_def achievementCheck_def evaluate_achievements_def
        checkAchievements_def unlock_new_def ACHIEVEMENTS_def stats_game1_def js_simps)
  have sv: "storedValue st = Some 3" using n1(2) by (simp add: st_def js_simps)
  have "newAchievements (achievementCheck achs2 st) = newAchievements st @ drop 3 (filter unlocked achs2)"
    using achievementCheck_by_position [OF sv] by simp
  then have "map achId (newAchievements (achievementCheck achs2 st)) = drop 3 (map achId (filter unlocked achs2))"
    by (simp add: st_def drop_map)
  then have "map achId (newAchievements (achievementCheck achs2 st)) = [''no_healing'']"
    using u2 by simp
  with sv n1(1) u2 show ?thesis
    unfolding Let_def achs1_def [symmetric] achs2_def [symmetric] n1_def [symmetric] st_def [symmetric]
    by (intro conjI)
qed

end
