(* ===== verification/Toasts.thy ===== *)
theory Toasts
  imports Notify
begin

section \<open>Notification toasts and their timers (AchievementNotification.tsx, Index.tsx)\<close>

text \<open>
  Index renders one \<open>AchievementNotification\<close> per queued achievement, keyed by its id,
  with \<open>onClose={() => removeAchievementNotification(index)}\<close>: a new function on every
  render of Index. The component's effect depends on \<open>onClose\<close>, so it re-runs after
  every render of Index: its cleanup clears the pending 4000 ms timer, and the new run
  shows the toast and sets a new 4000 ms timer whose callback hides the toast and sets a
  300 ms timer calling the \<open>onClose\<close> of that run. Nothing clears the 300 ms timers.
  Setting \<open>visible\<close> re-renders only the component, whose \<open>onClose\<close> is unchanged.

  \<open>toastSys\<close> holds the time, the notification state of Index (queue and stored count),
  one \<open>toast\<close> per rendered notification in render order (its visibility, the deadline
  of its 4000 ms timer, and the index its current \<open>onClose\<close> captured), the pending
  300 ms close timers in the order they were set (deadline and captured index), and the
  time of the last render of Index. Timers with the same deadline fire in the order they
  were set; a 4000 ms timer due at the same time as a 300 ms timer was set earlier.
\<close>

record toast =
  tKey :: string
  tVisible :: bool
  tHideAt :: "nat option"
  tIdx :: nat

record toastSys =
  tnow :: nat
  nstate :: notifyState
  toasts :: "toast list"
  closes :: "(nat \<times> nat) list"
  lastRender :: nat

text \<open>A render of Index: every notification's effect runs again (\<open>setVisible(true)\<close>,
  a fresh 4000 ms timer, the new \<open>onClose\<close> with the current index); notifications
  no longer queued unmount, their cleanup clearing their 4000 ms timer.\<close>

definition fresh_toasts :: "nat \<Rightarrow> achievement list \<Rightarrow> toast list" where
  "fresh_toasts now q =
     map (\<lambda>(index, a). \<lparr>tKey = achId a, tVisible = True, tHideAt = Some (now + 4000), tIdx = index\<rparr>)
       (zip [0..<length q] q)"

definition toast_render :: "toastSys \<Rightarrow> toastSys" where
  "toast_render ts =
     ts\<lparr>toasts := fresh_toasts (tnow ts) (newAchievements (nstate ts)), lastRender := tnow ts\<rparr>"

text \<open>The 4000 ms callback of the toast at position \<open>i\<close>.\<close>

definition toast_hide :: "nat \<Rightarrow> toastSys \<Rightarrow> toastSys" where
  "toast_hide i ts =
     (let t = toasts ts ! i
      in ts\<lparr>toasts := (toasts ts)[i := t\<lparr>tVisible := False, tHideAt := None\<rparr>],
            closes := closes ts @ [(tnow ts + 300, tIdx t)]\<rparr>)"

text \<open>The first pending 300 ms callback: \<open>onClose\<close> of the run that set it, which
  filters the queue by the index it captured; the new queue re-renders Index.\<close>

definition toast_close :: "toastSys \<Rightarrow> toastSys" where
  "toast_close ts =
     (case closes ts of
        [] \<Rightarrow> ts
      | (d, index) # rest \<Rightarrow>
          toast_render (ts\<lparr>nstate := removeAchievementNotification index (nstate ts), closes := rest\<rparr>))"

text \<open>The notification effect of Index after a change of \<open>gameState.achievements\<close>,
  followed by the render it causes.\<close>

definition toast_achievements :: "achievement list \<Rightarrow> toastSys \<Rightarrow> toastSys" where
  "toast_achievements achs ts = toast_render (ts\<lparr>nstate := achievementCheck achs (nstate ts)\<rparr>)"

primrec first_due :: "nat \<Rightarrow> toast list \<Rightarrow> nat option" where
  "first_due t [] = None"
| "first_due t (x # xs) =
     (if tHideAt x = Some t then Some 0 else map_option Suc (first_due t xs))"

definition deadlines :: "toastSys \<Rightarrow> nat list" where
  "deadlines ts = List.map_filter tHideAt (toasts ts) @ map fst (closes ts)"

datatype toastEvent = ERender | EAchievements "achievement list" | EHide | EClose | EWait nat

inductive toast_step :: "toastSys \<Rightarrow> toastEvent \<Rightarrow> toastSys \<Rightarrow> bool" where
  ts_render: "toast_step ts ERender (toast_render ts)"
| ts_achievements: "toast_step ts (EAchievements achs) (toast_achievements achs ts)"
| ts_hide: "first_due (tnow ts) (toasts ts) = Some i \<Longrightarrow> toast_step ts EHide (toast_hide i ts)"
| ts_close: "first_due (tnow ts) (toasts ts) = None \<Longrightarrow> closes ts = (tnow ts, index) # rest \<Longrightarrow>
             toast_step ts EClose (toast_close ts)"
| ts_wait: "\<forall>d\<in>set (deadlines ts). tnow ts + n \<le> d \<Longrightarrow> toast_step ts (EWait n) (ts\<lparr>tnow := tnow ts + n\<rparr>)"

definition toast0 :: "string option \<Rightarrow> toastSys" where
  "toast0 stored = \<lparr>tnow = 0, nstate = \<lparr>storedCount = stored, newAchievements = []\<rparr>,
                    toasts = [], closes = [], lastRender = 0\<rparr>"

inductive toast_reach :: "toastSys \<Rightarrow> bool" where
  init: "toast_reach (toast0 stored)"
| step: "toast_reach ts \<Longrightarrow> toast_step ts e ts' \<Longrightarrow> toast_reach ts'"

text \<open>The browser with nobody acting: fire the earliest timer, or wait for it.\<close>

definition toast_next :: "toastSys \<Rightarrow> toastSys" where
  "toast_next ts =
     (case first_due (tnow ts) (toasts ts) of
        Some i \<Rightarrow> toast_hide i ts
      | None \<Rightarrow>
          (case closes ts of
             (d, index) # rest \<Rightarrow> if d = tnow ts then toast_close ts
                                 else ts\<lparr>tnow := Min (set (deadlines ts))\<rparr>
           | [] \<Rightarrow> if deadlines ts = [] then ts else ts\<lparr>tnow := Min (set (deadlines ts))\<rparr>))"

text \<open>The invariant: every pending 4000 ms timer was set by the last render of Index,
  and no deadline lies in the past.\<close>

definition toast_inv :: "toastSys \<Rightarrow> bool" where
  "toast_inv ts \<longleftrightarrow>
     (\<forall>t\<in>set (toasts ts). tHideAt t = None \<or> tHideAt t = Some (lastRender ts + 4000))
     \<and> (\<forall>d\<in>set (deadlines ts). tnow ts \<le> d)"

text \<open>The toasts after the 4000 ms callbacks of the first \<open>j\<close> have run, and the queue
  after \<open>k\<close> of the batch's close callbacks: the odd positions below \<open>2 k\<close>, then the
  rest from \<open>2 k\<close> on.\<close>

definition hidden_upto :: "nat \<Rightarrow> toast list \<Rightarrow> toast list" where
  "hidden_upto j xs =
     map (\<lambda>(i, t). if i < j then t\<lparr>tVisible := False, tHideAt := None\<rparr> else t) (zip [0..<length xs] xs)"

definition batch_hidden :: "toastSys \<Rightarrow> nat \<Rightarrow> toastSys" where
  "batch_hidden ts j =
     (toast_render ts)\<lparr>tnow := tnow ts + 4000,
        toasts := hidden_upto j (fresh_toasts (tnow ts) (newAchievements (nstate ts))),
        closes := map (\<lambda>i. (tnow ts + 4300, i)) [0..<j]\<rparr>"

definition odds_upto :: "nat \<Rightarrow> 'a list \<Rightarrow> 'a list" where
  "odds_upto m q = map (nth q) (filter odd [0..<m])"

definition batch_queue :: "nat \<Rightarrow> 'a list \<Rightarrow> 'a list" where
  "batch_queue k q = odds_upto (min (2 * k) (length q)) q @ drop (2 * k) q"

definition batch_closing :: "toastSys \<Rightarrow> nat \<Rightarrow> toastSys \<Rightarrow> bool" where
  "batch_closing ts k s \<longleftrightarrow>
     tnow s = tnow ts + 4300
     \<and> newAchievements (nstate s) = batch_queue k (newAchievements (nstate ts))
     \<and> closes s = map (\<lambda>i. (tnow ts + 4300, i)) [k..<length (newAchievements (nstate ts))]
     \<and> first_due (tnow ts + 4300) (toasts s) = None
     \<and> (0 < k \<longrightarrow> toasts s = fresh_toasts (tnow ts + 4300) (newAchievements (nstate s)))"

subsection \<open>Lemmas\<close>

lemma first_due_Some_iff:
  "first_due t xs = Some i \<longleftrightarrow>
     i < length xs \<and> tHideAt (xs ! i) = Some t \<and> (\<forall>k<i. tHideAt (xs ! k) \<noteq> Some t)"
proof (induction xs arbitrary: i)
  case Nil
  then show ?case by simp
next
  case (Cons x xs)
  show ?case
  proof (cases i)
    case 0
    then show ?thesis by auto
  next
    case (Suc j)
    then show ?thesis using Cons.IH [of j] by (auto simp: less_Suc_eq_0_disj)
  qed
qed

lemma first_due_None_iff: "first_due t xs = None \<longleftrightarrow> (\<forall>x\<in>set xs. tHideAt x \<noteq> Some t)"
  by (induction xs) auto

lemma set_deadlines:
  "set (deadlines ts) = {d. \<exists>t\<in>set (toasts ts). tHideAt t = Some d} \<union> fst ` set (closes ts)"
  by (force simp: deadlines_def map_filter_def image_iff)

lemma toast_render_fields [simp]:
  "tnow (toast_render ts) = tnow ts" "nstate (toast_render ts) = nstate ts"
  "closes (toast_render ts) = closes ts" "lastRender (toast_render ts) = tnow ts"
  by (simp_all add: toast_render_def)

lemma toast_render_hideAt:
  "t \<in> set (toasts (toast_render ts)) \<Longrightarrow> tHideAt t = Some (tnow ts + 4000)"
  by (auto simp: toast_render_def fresh_toasts_def set_zip)

lemma toast_render_inv: "\<forall>d\<in>fst ` set (closes ts). tnow ts \<le> d \<Longrightarrow> toast_inv (toast_render ts)"
  by (auto simp: toast_inv_def set_deadlines dest: toast_render_hideAt)

lemma toast_hide_inv:
  assumes "toast_inv ts" "i < length (toasts ts)"
  shows "toast_inv (toast_hide i ts)"
proof -
  have "set (toasts (toast_hide i ts)) \<subseteq> insert ((toasts ts ! i)\<lparr>tVisible := False, tHideAt := None\<rparr>) (set (toasts ts))"
    by (simp add: toast_hide_def Let_def set_update_subset_insert)
  moreover have "closes (toast_hide i ts) = closes ts @ [(tnow ts + 300, tIdx (toasts ts ! i))]"
    "tnow (toast_hide i ts) = tnow ts" "lastRender (toast_hide i ts) = lastRender ts"
    by (simp_all add: toast_hide_def Let_def)
  ultimately show ?thesis using assms(1)
    by (fastforce simp: toast_inv_def set_deadlines)
qed

lemma toast_step_inv: "toast_step ts e ts' \<Longrightarrow> toast_inv ts \<Longrightarrow> toast_inv ts'"
proof (induction rule: toast_step.induct)
  case (ts_render ts)
  then show ?case by (intro toast_render_inv) (simp add: toast_inv_def set_deadlines)
next
  case (ts_achievements ts achs)
  then show ?case unfolding toast_achievements_def
    by (intro toast_render_inv) (simp add: toast_inv_def set_deadlines)
next
  case (ts_hide ts i)
  then show ?case by (simp add: toast_hide_inv first_due_Some_iff)
next
  case (ts_close ts index rest)
  have "toast_close ts = toast_render (ts\<lparr>nstate := removeAchievementNotification index (nstate ts),
                                            closes := rest\<rparr>)"
    using ts_close.hyps(2) by (simp add: toast_close_def)
  moreover have "\<forall>d\<in>fst ` set rest. tnow ts \<le> d"
    using ts_close.prems ts_close.hyps(2) by (auto simp: toast_inv_def set_deadlines)
  ultimately show ?case using toast_render_inv [of "ts\<lparr>nstate := removeAchievementNotification index (nstate ts),
                                            closes := rest\<rparr>"] by simp
next
  case (ts_wait ts n)
  then show ?case by (auto simp: toast_inv_def set_deadlines)
qed

lemma toast_reach_inv: "toast_reach ts \<Longrightarrow> toast_inv ts"
proof (induction rule: toast_reach.induct)
  case (init stored)
  then show ?case by (simp add: toast_inv_def toast0_def deadlines_def)
next
  case (step ts e ts')
  then show ?case by (blast intro: toast_step_inv)
qed

text \<open>
  C39: In every state reachable under the notification component's timers and Index's
  renders, a toast is hidden only exactly 4000 ms after the last render of Index: every
  render passes a new onClose, re-runs the component's effect and restarts its timer, so
  while a duel re-renders Index every second no notification ever hides.
\<close>

theorem toast_hides_after_quiet:
  assumes "toast_reach ts" "toast_step ts EHide ts'"
  shows "tnow ts = lastRender ts + 4000"
proof -
  from assms(2) obtain i where "first_due (tnow ts) (toasts ts) = Some i"
    by (cases rule: toast_step.cases) auto
  then have "toasts ts ! i \<in> set (toasts ts)" "tHideAt (toasts ts ! i) = Some (tnow ts)"
    by (auto simp: first_due_Some_iff)
  with toast_reach_inv [OF assms(1)] show ?thesis
    by (fastforce simp: toast_inv_def)
qed

lemma toast_next_step:
  assumes "toast_inv ts"
  shows "toast_next ts = ts \<or> (\<exists>e. toast_step ts e (toast_next ts))"
proof (cases "first_due (tnow ts) (toasts ts)")
  case (Some i)
  then show ?thesis by (auto simp: toast_next_def intro: ts_hide)
next
  case None
  have wait: "deadlines ts \<noteq> [] \<Longrightarrow> toast_step ts (EWait (Min (set (deadlines ts)) - tnow ts))
                                       (ts\<lparr>tnow := Min (set (deadlines ts))\<rparr>)"
  proof -
    assume ne: "deadlines ts \<noteq> []"
    have le: "tnow ts \<le> Min (set (deadlines ts))" using assms ne by (simp add: toast_inv_def)
    then have "toast_step ts (EWait (Min (set (deadlines ts)) - tnow ts))
                 (ts\<lparr>tnow := tnow ts + (Min (set (deadlines ts)) - tnow ts)\<rparr>)"
      by (intro ts_wait) auto
    with le show ?thesis by simp
  qed
  show ?thesis
  proof (cases "closes ts")
    case Nil
    then show ?thesis using None wait by (auto simp: toast_next_def)
  next
    case (Cons c rest)
    obtain d index where c: "c = (d, index)" by (cases c)
    have ne: "deadlines ts \<noteq> []" using Cons by (simp add: deadlines_def)
    show ?thesis
    proof (cases "d = tnow ts")
      case True
      then show ?thesis using None Cons c
        by (auto simp: toast_next_def intro: ts_close)
    next
      case False
      then show ?thesis using None Cons c wait [OF ne] by (auto simp: toast_next_def)
    qed
  qed
qed

subsection \<open>A batch of notifications shown together\<close>

lemma odds_upto_Suc:
  "odds_upto (Suc m) q = (if odd m then odds_upto m q @ [q ! m] else odds_upto m q)"
  by (simp add: odds_upto_def)

lemma length_odds_upto_double: "length (odds_upto (2 * k) q) = k"
proof (induction k)
  case 0
  then show ?case by (simp add: odds_upto_def)
next
  case (Suc k)
  have "2 * Suc k = Suc (Suc (2 * k))" by simp
  then show ?case using Suc by (simp only: odds_upto_Suc) simp
qed

lemma length_odds_upto_mono: "length (odds_upto m q) \<le> length (odds_upto (m + d) q)"
  by (induction d) (auto simp: odds_upto_Suc)

lemma batch_queue_step:
  assumes "k < length q"
  shows "take k (batch_queue k q) @ drop (Suc k) (batch_queue k q) = batch_queue (Suc k) q"
proof (cases "2 * k < length q")
  case True
  have l: "length (odds_upto (2 * k) q) = k" by (rule length_odds_upto_double)
  have b: "batch_queue k q = odds_upto (2 * k) q @ drop (2 * k) q"
    using True by (simp add: batch_queue_def)
  then have lhs: "take k (batch_queue k q) @ drop (Suc k) (batch_queue k q)
                    = odds_upto (2 * k) q @ drop (Suc (2 * k)) q"
    using l by simp
  have e: "odds_upto (Suc (2 * k)) q = odds_upto (2 * k) q" by (simp add: odds_upto_Suc)
  show ?thesis
  proof (cases "Suc (2 * k) < length q")
    case True
    have "drop (Suc (2 * k)) q = q ! Suc (2 * k) # drop (Suc (Suc (2 * k))) q"
      using True by (simp add: Cons_nth_drop_Suc)
    moreover have "odds_upto (Suc (Suc (2 * k))) q = odds_upto (2 * k) q @ [q ! Suc (2 * k)]"
      using e by (simp add: odds_upto_Suc [of "Suc (2 * k)"])
    moreover have "min (2 * Suc k) (length q) = Suc (Suc (2 * k))" using True by simp
    ultimately show ?thesis using lhs by (simp add: batch_queue_def)
  next
    case False
    then have n: "length q = Suc (2 * k)" using \<open>2 * k < length q\<close> by simp
    then have "batch_queue (Suc k) q = odds_upto (2 * k) q"
      using e by (simp add: batch_queue_def)
    moreover have "drop (Suc (2 * k)) q = []" using n by simp
    ultimately show ?thesis using lhs by simp
  qed
next
  case False
  then have b: "batch_queue k q = odds_upto (length q) q" "batch_queue (Suc k) q = odds_upto (length q) q"
    by (simp_all add: batch_queue_def)
  have "length (odds_upto (length q) q) \<le> length (odds_upto (length q + (2 * k - length q)) q)"
    by (rule length_odds_upto_mono)
  then have "length (batch_queue k q) \<le> k" using False b(1) length_odds_upto_double [of k q] by simp
  then show ?thesis using b by simp
qed

lemma batch_queue_0 [simp]: "batch_queue 0 q = q"
  by (simp add: batch_queue_def odds_upto_def)

lemma batch_queue_full: "length q \<le> 2 * k \<Longrightarrow> batch_queue k q = odds_upto (length q) q"
  by (simp add: batch_queue_def)

lemma length_fresh_toasts [simp]: "length (fresh_toasts now q) = length q"
  by (simp add: fresh_toasts_def)

lemma nth_fresh_toasts:
  "i < length q \<Longrightarrow> fresh_toasts now q ! i
     = \<lparr>tKey = achId (q ! i), tVisible = True, tHideAt = Some (now + 4000), tIdx = i\<rparr>"
  by (simp add: fresh_toasts_def)

lemma length_hidden_upto [simp]: "length (hidden_upto j xs) = length xs"
  by (simp add: hidden_upto_def)

lemma nth_hidden_upto:
  "i < length xs \<Longrightarrow> hidden_upto j xs ! i
     = (if i < j then (xs ! i)\<lparr>tVisible := False, tHideAt := None\<rparr> else xs ! i)"
  by (simp add: hidden_upto_def)

lemma hidden_upto_0 [simp]: "hidden_upto 0 xs = xs"
  by (rule nth_equalityI) (simp_all add: nth_hidden_upto)

lemma first_due_fresh: "first_due t (fresh_toasts now q) = None \<longleftrightarrow> q = [] \<or> t \<noteq> now + 4000"
  by (auto simp: first_due_None_iff fresh_toasts_def set_zip in_set_conv_nth)

lemma hideAt_fresh: "set (List.map_filter tHideAt (fresh_toasts now q)) = (if q = [] then {} else {now + 4000})"
  by (force simp: map_filter_def fresh_toasts_def set_zip in_set_conv_nth)

lemma toast_reach_funpow: "toast_reach ts \<Longrightarrow> toast_reach ((toast_next ^^ k) ts)"
proof (induction k)
  case 0
  then show ?case by simp
next
  case (Suc k)
  then have r: "toast_reach ((toast_next ^^ k) ts)" by simp
  then show ?case
    using toast_next_step [OF toast_reach_inv [OF r]] by (auto intro: toast_reach.step)
qed

lemma batch_wait_hide:
  assumes "closes ts = []" "newAchievements (nstate ts) \<noteq> []"
  shows "toast_next (toast_render ts) = batch_hidden ts 0"
proof -
  have "first_due (tnow ts) (fresh_toasts (tnow ts) (newAchievements (nstate ts))) = None"
    by (simp add: first_due_fresh)
  moreover have d: "set (deadlines (toast_render ts)) = {tnow ts + 4000}"
    using assms by (simp add: deadlines_def toast_render_def hideAt_fresh)
  moreover from d have "deadlines (toast_render ts) \<noteq> []" by auto
  ultimately show ?thesis using assms
    by (simp add: toast_next_def toast_render_def batch_hidden_def)
qed

lemma batch_hide_step:
  assumes "j < length (newAchievements (nstate ts))"
  shows "toast_next (batch_hidden ts j) = batch_hidden ts (Suc j)"
proof -
  let ?q = "newAchievements (nstate ts)"
  let ?F = "fresh_toasts (tnow ts) ?q"
  have "first_due (tnow ts + 4000) (hidden_upto j ?F) = Some j"
    using assms by (simp add: first_due_Some_iff nth_hidden_upto nth_fresh_toasts)
  moreover have "(hidden_upto j ?F)[j := (hidden_upto j ?F ! j)\<lparr>tVisible := False, tHideAt := None\<rparr>]
                   = hidden_upto (Suc j) ?F"
    using assms by (intro nth_equalityI) (auto simp: nth_list_update nth_hidden_upto)
  moreover have "tIdx (hidden_upto j ?F ! j) = j"
    using assms by (simp add: nth_hidden_upto nth_fresh_toasts)
  ultimately show ?thesis
    by (simp add: toast_next_def toast_hide_def batch_hidden_def Let_def)
qed

lemma batch_hides:
  "j \<le> length (newAchievements (nstate ts)) \<Longrightarrow> (toast_next ^^ j) (batch_hidden ts 0) = batch_hidden ts j"
  by (induction j) (simp_all add: batch_hide_step)

lemma batch_wait_close:
  assumes "newAchievements (nstate ts) \<noteq> []"
  shows "batch_closing ts 0 (toast_next (batch_hidden ts (length (newAchievements (nstate ts)))))"
proof -
  let ?q = "newAchievements (nstate ts)"
  let ?H = "batch_hidden ts (length ?q)"
  have h: "\<forall>x\<in>set (toasts ?H). tHideAt x = None"
    by (auto simp: batch_hidden_def in_set_conv_nth nth_hidden_upto)
  then have fd: "first_due (tnow ts + 4000) (toasts ?H) = None" "first_due (tnow ts + 4300) (toasts ?H) = None"
    by (auto simp: first_due_None_iff)
  have c: "closes ?H = (tnow ts + 4300, 0) # map (\<lambda>i. (tnow ts + 4300, i)) [1..<length ?q]"
    using assms by (simp add: batch_hidden_def upt_conv_Cons)
  have "List.map_filter tHideAt (toasts ?H) = []"
    using h by (simp add: map_filter_def filter_empty_conv)
  moreover have "0 < length ?q" using assms by simp
  ultimately have "set (deadlines ?H) = {tnow ts + 4300}"
    by (auto simp: deadlines_def batch_hidden_def image_iff intro: exI [of _ 0])
  moreover have "tnow ?H = tnow ts + 4000" by (simp add: batch_hidden_def)
  ultimately have "toast_next ?H = ?H\<lparr>tnow := tnow ts + 4300\<rparr>"
    using fd(1) c by (simp add: toast_next_def)
  then show ?thesis using fd(2) c
    by (simp add: batch_closing_def batch_hidden_def upt_conv_Cons [of 0] assms)
qed

lemma batch_close_step:
  assumes "k < length (newAchievements (nstate ts))" "batch_closing ts k s"
  shows "batch_closing ts (Suc k) (toast_next s)"
proof -
  let ?q = "newAchievements (nstate ts)"
  have c: "closes s = (tnow s, k) # map (\<lambda>i. (tnow ts + 4300, i)) [Suc k..<length ?q]"
    using assms by (simp add: batch_closing_def upt_conv_Cons)
  have fd: "first_due (tnow s) (toasts s) = None" using assms(2) by (simp add: batch_closing_def)
  have q': "newAchievements (removeAchievementNotification k (nstate s)) = batch_queue (Suc k) ?q"
    using assms batch_queue_step [of k ?q]
    by (simp add: removeAchievementNotification_eq batch_closing_def)
  have "toast_next s = toast_render (s\<lparr>nstate := removeAchievementNotification k (nstate s),
           closes := map (\<lambda>i. (tnow ts + 4300, i)) [Suc k..<length ?q]\<rparr>)"
    using c fd by (simp add: toast_next_def toast_close_def)
  then show ?thesis using assms(2) q'
    by (simp add: batch_closing_def toast_render_def first_due_fresh)
qed

lemma batch_closes:
  assumes "k \<le> length (newAchievements (nstate ts))" "batch_closing ts 0 s"
  shows "batch_closing ts k ((toast_next ^^ k) s)"
  using assms by (induction k) (simp_all add: batch_close_step)

lemma funpow_batch: "(f ^^ (2 * n + 2)) x = (f ^^ n) (f ((f ^^ n) (f x)))"
proof -
  have "2 * n + 2 = Suc (Suc (n + n))" by simp
  then have "(f ^^ (2 * n + 2)) x = f (f ((f ^^ (n + n)) x))" by (simp only: funpow.simps comp_def)
  also have "\<dots> = f (f ((f ^^ n) ((f ^^ n) x)))" by (simp only: funpow_add comp_def)
  also have "\<dots> = (f ^^ n) (f ((f ^^ n) (f x)))" by (simp add: funpow_swap1)
  finally show ?thesis .
qed

text \<open>
  C40: When unlocked achievements queue n >= 1 notifications with no close pending and
  Index does not otherwise re-render, then 4300 ms later, after the browser has fired
  every hide and close timer, the queue holds exactly the notifications at odd
  positions, shown again: each 300 ms close removes the index its toast had when it hid,
  from a queue already shortened by the earlier closes.
\<close>

theorem toast_batch_close:
  assumes "toast_reach ts" "closes ts = []"
    and "q = newAchievements (achievementCheck achs (nstate ts))" "q \<noteq> []"
  shows "let ts' = (toast_next ^^ (2 * length q + 2)) (toast_achievements achs ts)
         in toast_reach ts' \<and> tnow ts' = tnow ts + 4300
            \<and> newAchievements (nstate ts') = map (nth q) (filter odd [0..<length q])
            \<and> list_all tVisible (toasts ts')"
proof -
  define ts1 where "ts1 = ts\<lparr>nstate := achievementCheck achs (nstate ts)\<rparr>"
  have a: "toast_achievements achs ts = toast_render ts1" by (simp add: toast_achievements_def ts1_def)
  have q: "newAchievements (nstate ts1) = q" "closes ts1 = []" "tnow ts1 = tnow ts"
    using assms by (simp_all add: ts1_def)
  let ?n = "length q"
  have "toast_next (toast_render ts1) = batch_hidden ts1 0"
    using q assms(4) by (intro batch_wait_hide) simp_all
  moreover have "(toast_next ^^ ?n) (batch_hidden ts1 0) = batch_hidden ts1 ?n"
    using q by (simp add: batch_hides)
  moreover have "batch_closing ts1 0 (toast_next (batch_hidden ts1 ?n))"
    using batch_wait_close [of ts1] q assms(4) by simp
  ultimately have "batch_closing ts1 ?n
      ((toast_next ^^ ?n) (toast_next ((toast_next ^^ ?n) (toast_next (toast_render ts1)))))"
    using batch_closes [of ?n ts1] q by simp
  then have c: "batch_closing ts1 ?n ((toast_next ^^ (2 * ?n + 2)) (toast_render ts1))"
    by (simp only: funpow_batch)
  have r: "toast_reach ((toast_next ^^ (2 * ?n + 2)) (toast_render ts1))"
    using toast_reach_funpow [OF toast_reach.step [OF assms(1) ts_achievements [of ts achs]]] a
    by (simp only:)
  have "batch_queue ?n q = map (nth q) (filter odd [0..<?n])"
    by (simp add: batch_queue_full odds_upto_def)
  moreover have "list_all tVisible (fresh_toasts now xs)" for now xs
    by (simp add: fresh_toasts_def list_all_iff set_zip)
  moreover have "0 < ?n" using assms(4) by simp
  ultimately show ?thesis using c r q a
    by (simp add: batch_closing_def Let_def)
qed

subsection \<open>Witnesses at concrete inputs\<close>

theorem toast_hides_after_quiet_witness:
  "let a = (hd ACHIEVEMENTS)\<lparr>unlocked := True\<rparr>;
       ts = (toast_achievements [a] (toast0 None))\<lparr>tnow := 4000\<rparr>
   in toast_reach ts \<and> toast_step ts EHide (toast_hide 0 ts) \<and> tnow ts = lastRender ts + 4000"
proof -
  define a where "a = (hd ACHIEVEMENTS)\<lparr>unlocked := True\<rparr>"
  define ts1 where "ts1 = toast_achievements [a] (toast0 None)"
  have u: "unlocked a" by (simp add: a_def)
  have q: "newAchievements (nstate ts1) = [a]" "tnow ts1 = 0" "closes ts1 = []"
    using u by (simp_all add: ts1_def toast_achievements_def toast0_def achievementCheck_def js_simps)
  have t1: "toasts ts1 = fresh_toasts 0 [a]"
    using q by (simp add: ts1_def toast_achievements_def toast_render_def toast0_def)
  have "set (deadlines ts1) = {4000}"
    using q t1 by (simp add: deadlines_def hideAt_fresh)
  then have w: "toast_step ts1 (EWait 4000) (ts1\<lparr>tnow := 4000\<rparr>)"
    using ts_wait [of ts1 4000] q by simp
  have r1: "toast_reach ts1"
    unfolding ts1_def by (rule toast_reach.step [OF toast_reach.init ts_achievements])
  have r: "toast_reach (ts1\<lparr>tnow := 4000\<rparr>)" by (rule toast_reach.step [OF r1 w])
  have "first_due 4000 (toasts (ts1\<lparr>tnow := 4000\<rparr>)) = Some 0"
    using t1 by (simp add: fresh_toasts_def)
  then have h: "toast_step (ts1\<lparr>tnow := 4000\<rparr>) EHide (toast_hide 0 (ts1\<lparr>tnow := 4000\<rparr>))"
    using ts_hide [of "ts1\<lparr>tnow := 4000\<rparr>" 0] by simp
  have "tnow (ts1\<lparr>tnow := 4000\<rparr>) = lastRender (ts1\<lparr>tnow := 4000\<rparr>) + 4000"
    by (rule toast_hides_after_quiet [OF r h])
  with r h show ?thesis by (simp add: a_def [symmetric] ts1_def [symmetric])
qed

theorem toast_batch_close_witness:
  "let achs = map (\<lambda>a. a\<lparr>unlocked := True\<rparr>) (take 3 ACHIEVEMENTS);
       ts' = (toast_next ^^ 8) (toast_achievements achs (toast0 None))
   in toast_reach ts' \<and> tnow ts' = 4300 \<and> newAchievements (nstate ts') = [achs ! 1]
      \<and> list_all tVisible (toasts ts')"
proof -
  define achs where "achs = map (\<lambda>a. a\<lparr>unlocked := True\<rparr>) (take 3 ACHIEVEMENTS)"
  have l: "length achs = 3" by (simp add: achs_def ACHIEVEMENTS_def)
  have u: "filter unlocked achs = achs" by (simp add: achs_def)
  have q: "newAchievements (achievementCheck achs (nstate (toast0 None))) = achs"
    using u l by (simp add: toast0_def achievementCheck_def js_simps)
  have ne: "achs \<noteq> []" using l by auto
  have c: "closes (toast0 None) = []" by (simp add: toast0_def)
  have e: "2 * length achs + 2 = 8" using l by simp
  have o: "map (nth achs) (filter odd [0..<length achs]) = [achs ! 1]"
    using l by (simp add: upt_rec)
  have "let ts' = (toast_next ^^ (2 * length achs + 2)) (toast_achievements achs (toast0 None))
        in toast_reach ts' \<and> tnow ts' = tnow (toast0 None) + 4300
           \<and> newAchievements (nstate ts') = map (nth achs) (filter odd [0..<length achs])
           \<and> list_all tVisible (toasts ts')"
    by (rule toast_batch_close [OF toast_reach.init c q [symmetric] ne])
  then have "let ts' = (toast_next ^^ 8) (toast_achievements achs (toast0 None))
        in toast_reach ts' \<and> tnow ts' = 4300 \<and> newAchievements (nstate ts') = [achs ! 1]
           \<and> list_all tVisible (toasts ts')"
    unfolding e o by (simp add: toast0_def)
  then show ?thesis unfolding achs_def Let_def .
qed

end
