(* ===== verification/Arena.thy ===== *)
theory Arena
  imports Driver
begin

section \<open>The duel screen (src/src/components/GameArena.tsx)\<close>

text \<open>
  What the arena shows during a duel, from the game state: the status-effect and
  cooldown badges (\<open>getStatusEffectDisplay\<close>, \<open>getCooldownDisplay\<close>), the two
  player cards with their labels and progress-bar values (\<open>playerCard\<close>,
  \<open>arenaCards\<close>), the turn line of the header (\<open>turnText\<close>) and the last-spell card
  (\<open>lastSpellText\<close>). Markup, classes and the 800 ms animation flag are not modelled.
  The invariant \<open>frame_ok\<close> holds in every reachable state of the driver: the
  maxima stay 100, no status effect is ever set, and the players are the ones
  \<open>startGame\<close> made for the mode. From it follow the bounds of the bars, the absence
  of status badges and the turn line; the last-spell card is read off \<open>castSpell\<close>.
\<close>

definition statusEffectDisplay :: "player option \<Rightarrow> string list option" where
  "statusEffectDisplay player =
     (case player of
        None \<Rightarrow> None
      | Some p \<Rightarrow>
          (let effects = statusEffects p
           in if effects = [] then None
              else Some (map (\<lambda>(eff, duration). eff @ '' ('' @ js_int_toString duration @ '')'') effects)))"

definition cooldownDisplay :: "player option \<Rightarrow> string list option" where
  "cooldownDisplay player =
     (case player of
        None \<Rightarrow> None
      | Some p \<Rightarrow>
          (let cds = cooldowns p
           in if cds = [] then None
              else Some (map (\<lambda>(sp, cd). sp @ '': '' @ js_int_toString cd @ ''s'') cds)))"

text \<open>
  A bar's value \<open>hp / maxHp * 100\<close>: \<open>None\<close> stands for the values that are not finite
  numbers in JavaScript (a missing player gives \<open>NaN\<close>, a zero maximum \<open>NaN\<close> or
  \<open>Infinity\<close>).
\<close>

definition bar_value :: "int \<Rightarrow> int \<Rightarrow> rat option" where
  "bar_value v m = (if m = 0 then None else Some (of_int v / of_int m * 100))"

record cardView =
  cardTitle :: string
  healthLabel :: string
  healthValue :: "rat option"
  staminaLabel :: string
  staminaValue :: "rat option"
  effectBadges :: "string list option"
  cooldownBadges :: "string list option"

text \<open>\<open>undefined\<close> renders as nothing, so a missing player's labels read \<open>/\<close>.\<close>

definition playerCard :: "player option \<Rightarrow> cardView" where
  "playerCard player =
     (case player of
        None \<Rightarrow> \<lparr>cardTitle = [], healthLabel = ''/'', healthValue = None, staminaLabel = ''/'',
                 staminaValue = None, effectBadges = None, cooldownBadges = None\<rparr>
      | Some p \<Rightarrow>
          \<lparr>cardTitle = playerName p,
           healthLabel = js_int_toString (hp p) @ ''/'' @ js_int_toString (maxHp p),
           healthValue = bar_value (hp p) (maxHp p),
           staminaLabel = js_int_toString (stamina p) @ ''/'' @ js_int_toString (maxStamina p),
           staminaValue = bar_value (stamina p) (maxStamina p),
           effectBadges = statusEffectDisplay player,
           cooldownBadges = cooldownDisplay player\<rparr>)"

text \<open>The grid of the two player cards, for \<open>players[0]\<close> and \<open>players[1]\<close>.\<close>

definition arenaCards :: "gameState \<Rightarrow> cardView \<times> cardView" where
  "arenaCards s = (playerCard (js_at (players s) 0), playerCard (js_at (players s) 1))"

definition turnText :: "gameState \<Rightarrow> string" where
  "turnText s =
     (case js_at (players s) (currentPlayer s) of
        Some p \<Rightarrow> if \<not> isAI p then ''Your turn to cast a spell'' else playerName p @ CHR 0x27 # ''s turn''
      | None \<Rightarrow> ''undefined'' @ CHR 0x27 # ''s turn'')"

definition lastSpellText :: "gameState \<Rightarrow> (string \<times> string) option" where
  "lastSpellText s =
     (case lastSpell s of
        None \<Rightarrow> None
      | Some ls \<Rightarrow> Some (lsCaster ls @ '' cast '' @ name (lsSpell ls) @ ''!'', description (lsSpell ls)))"

text \<open>
  The invariant of what the arena shows: the maxima stay 100, no status effect is ever
  set, and the two players are the ones \<open>startGame\<close> made for the mode, by name and
  control.
\<close>

definition roster :: "gameMode \<Rightarrow> (string \<times> bool) list" where
  "roster m = (if m = AIMode then [(''Player 1'', False), (''Dark Wizard'', True)]
               else [(''Player 1'', False), (''Player 2'', False)])"

definition frame_ok :: "gameState \<Rightarrow> bool" where
  "frame_ok s \<longleftrightarrow>
     list_all (\<lambda>p. maxHp p = 100 \<and> maxStamina p = 100 \<and> statusEffects p = []) (players s)
     \<and> (players s = [] \<or> map (\<lambda>p. (playerName p, isAI p)) (players s) = roster (mode s))"

lemma list_all_update2:
  "list_all P xs \<Longrightarrow> P a \<Longrightarrow> P b \<Longrightarrow> list_all P (xs[i := a, j := b])"
  by (intro list_all_update)

lemma map_update2_same:
  assumes "i < length xs" "j < length xs" "f a = f (xs ! i)" "f b = f (xs ! j)"
  shows "map f (xs[i := a, j := b]) = map f xs"
proof -
  have "(map f xs)[i := f (xs ! i)] = map f xs" "(map f xs)[j := f (xs ! j)] = map f xs"
    using assms(1,2) by (metis list_update_id nth_map)+
  then show ?thesis using assms(3,4) by (simp add: map_update)
qed

lemma apply_spell_frame:
  assumes "frame_ok s" "apply_spell sp s = Inr s'"
  shows "frame_ok s'"
  using assms(2)
proof (rule apply_spell_Inr)
  fix c0 t0 d c' t'
  assume c0: "js_at (players s) (currentPlayer s) = Some c0"
    and t0: "js_at (players s) (1 - currentPlayer s) = Some t0"
    and eff: "spell_effect sp (c0\<lparr>stamina := max 0 (stamina c0 - staminaCost sp),
        cooldowns := js_map_set (cooldowns c0) (name sp) (cooldown sp)\<rparr>) t0 = (d, c', t')"
    and s': "s' = s\<lparr>players := (players s)[nat (currentPlayer s) := c', nat (1 - currentPlayer s) := t'],
                currentPlayer := 1 - currentPlayer s,
                phase := (if hp t' \<le> 0 then Ended else Playing),
                lastSpell := Some \<lparr>lsCaster = playerName c', lsSpell = sp,
                                   lsTarget = playerName t', lsSuccess = True\<rparr>,
                gameStats := cast_stats sp d (gameStats s)\<rparr>"
  let ?P = "\<lambda>p. maxHp p = 100 \<and> maxStamina p = 100 \<and> statusEffects p = []"
  let ?f = "\<lambda>p. (playerName p, isAI p)"
  have "?P c0" "?P t0"
    using assms(1) c0 t0 by (auto simp: frame_ok_def list_all_iff js_at_Some_iff)
  moreover obtain hc ht where "c' = (c0\<lparr>stamina := max 0 (stamina c0 - staminaCost sp),
        cooldowns := js_map_set (cooldowns c0) (name sp) (cooldown sp)\<rparr>)\<lparr>hp := hc\<rparr>"
      and "t' = t0\<lparr>hp := ht\<rparr>"
    using spell_effect_fields [OF eff] by blast
  ultimately have "?P c'" "?P t'" "?f c' = ?f c0" "?f t' = ?f t0" by simp_all
  moreover have "map ?f (players s') = map ?f (players s)"
    using c0 t0 calculation(3,4) unfolding s' js_at_Some_iff
    by (auto intro!: map_update2_same)
  ultimately show ?thesis
    using assms(1) s' by (auto simp: frame_ok_def list_all_update2)
qed

lemma castSpell_frame:
  assumes "frame_ok s" "castSpell s i = Inr (r, s')"
  shows "frame_ok s'"
  using castSpell_cases [OF assms(2)] assms(1) apply_spell_frame [OF assms(1)]
  by (auto simp: frame_ok_def)

lemma game_step_frame: "game_step s s' \<Longrightarrow> frame_ok s \<Longrightarrow> frame_ok s'"
proof (induction rule: game_step.induct)
  case (start_game s m d)
  then show ?case by (simp add: frame_ok_def startGame_def initialPlayer_def roster_def Let_def)
next
  case (regen_tick s)
  then show ?case by (simp add: frame_ok_def regenTick_def regen_player_def list_all_iff comp_def)
next
  case (auto_end s w)
  then show ?case by (simp add: frame_ok_def endGame_def Let_def)
next
  case (leave_arena s)
  then show ?case by (simp add: frame_ok_def resetGame_def)
qed (auto elim: castSpell_frame)

lemma reachable_frame: "reachable s \<Longrightarrow> frame_ok s"
proof (induction rule: reachable.induct)
  case init
  then show ?case by (simp add: frame_ok_def initialState_def)
next
  case (step s s')
  then show ?case by (blast intro: game_step_frame)
qed

lemma reachable_arena_players:
  assumes "reachable s" "mode s \<noteq> Menu" "i = 0 \<or> i = 1"
  shows "\<exists>p. js_at (players s) i = Some p \<and> player_ok p \<and> maxHp p = 100 \<and> maxStamina p = 100
           \<and> statusEffects p = [] \<and> (playerName p, isAI p) = roster (mode s) ! nat i"
proof -
  have inv: "driver_inv s" and fr: "frame_ok s"
    using assms(1) by (auto intro: reachable_inv reachable_frame)
  then have two: "length (players s) = 2" and ok: "list_all player_ok (players s)"
    using assms(2) by (auto simp: driver_inv_def state_ok_def)
  define p where "p = players s ! nat i"
  have lt: "nat i < length (players s)" using two assms(3) by auto
  then have at: "js_at (players s) i = Some p" and mem: "p \<in> set (players s)"
    using assms(3) by (auto simp: js_at_Some_iff p_def)
  have "map (\<lambda>p. (playerName p, isAI p)) (players s) = roster (mode s)"
    using fr two by (auto simp: frame_ok_def)
  moreover have "map (\<lambda>p. (playerName p, isAI p)) (players s) ! nat i = (playerName p, isAI p)"
    unfolding p_def by (rule nth_map [OF lt])
  ultimately have "(playerName p, isAI p) = roster (mode s) ! nat i" by simp
  moreover have "player_ok p" using ok mem by (simp add: list_all_iff)
  moreover have "maxHp p = 100 \<and> maxStamina p = 100 \<and> statusEffects p = []"
    using fr mem by (simp add: frame_ok_def list_all_iff)
  ultimately show ?thesis using at by blast
qed

lemma reachable_turn_player:
  assumes "reachable s" "phase s = Playing"
  shows "\<exists>p. js_at (players s) (currentPlayer s) = Some p \<and> (currentPlayer s = 0 \<or> currentPlayer s = 1)
           \<and> (playerName p, isAI p) = roster (mode s) ! nat (currentPlayer s)"
proof -
  have inv: "driver_inv s" using assms(1) by (rule reachable_inv)
  then have "mode s \<noteq> Menu" "currentPlayer s = 0 \<or> currentPlayer s = 1"
    using assms(2) by (auto simp: driver_inv_def state_ok_def)
  then show ?thesis using reachable_arena_players [OF assms(1)] by blast
qed

text \<open>
  C34: In every reachable playing state the arena's header reads 'Dark Wizard's turn'
  exactly on the AI's turn of a vs-computer match and 'Your turn to cast a spell'
  otherwise, so in a two-player match it never says whose turn it is.
\<close>

theorem reachable_turn_text:
  assumes "reachable s" "phase s = Playing"
  shows "turnText s = (if mode s = AIMode \<and> currentPlayer s = 1
                       then ''Dark Wizard'' @ CHR 0x27 # ''s turn'' else ''Your turn to cast a spell'')"
  using reachable_turn_player [OF assms]
  by (auto simp: turnText_def roster_def split: if_split_asm)


lemma reachable_card_no_badges:
  "reachable s \<Longrightarrow> effectBadges (playerCard (js_at (players s) i)) = None"
proof (cases "js_at (players s) i")
  case (Some p)
  assume "reachable s"
  then have "list_all (\<lambda>p. statusEffects p = []) (players s)"
    by (auto dest!: reachable_frame simp: frame_ok_def list_all_iff)
  then have "statusEffects p = []"
    using Some by (auto simp: list_all_iff js_at_Some_iff)
  then show ?thesis using Some by (simp add: playerCard_def statusEffectDisplay_def)
qed (simp add: playerCard_def)

text \<open>
  C32: In every reachable state neither player card ever shows a status-effect badge: no
  spell sets a status effect, although buff and debuff spells name one.
\<close>

theorem reachable_no_status_badges:
  "reachable s \<Longrightarrow> effectBadges (fst (arenaCards s)) = None \<and> effectBadges (snd (arenaCards s)) = None"
  by (simp add: arenaCards_def reachable_card_no_badges)

lemma apply_spell_lastSpell:
  assumes "apply_spell sp s = Inr s'" "js_at (players s) (currentPlayer s) = Some c"
  shows "lastSpellText s' = Some (playerName c @ '' cast '' @ name sp @ ''!'', description sp)"
  using assms(1)
proof (rule apply_spell_Inr)
  fix c0 t0 d c' t'
  assume c0: "js_at (players s) (currentPlayer s) = Some c0"
    and eff: "spell_effect sp (c0\<lparr>stamina := max 0 (stamina c0 - staminaCost sp),
        cooldowns := js_map_set (cooldowns c0) (name sp) (cooldown sp)\<rparr>) t0 = (d, c', t')"
    and s': "s' = s\<lparr>players := (players s)[nat (currentPlayer s) := c', nat (1 - currentPlayer s) := t'],
                currentPlayer := 1 - currentPlayer s,
                phase := (if hp t' \<le> 0 then Ended else Playing),
                lastSpell := Some \<lparr>lsCaster = playerName c', lsSpell = sp,
                                   lsTarget = playerName t', lsSuccess = True\<rparr>,
                gameStats := cast_stats sp d (gameStats s)\<rparr>"
  obtain hc where "c' = (c0\<lparr>stamina := max 0 (stamina c0 - staminaCost sp),
        cooldowns := js_map_set (cooldowns c0) (name sp) (cooldown sp)\<rparr>)\<lparr>hp := hc\<rparr>"
    using spell_effect_fields [OF eff] by blast
  moreover have "c0 = c" using c0 assms(2) by simp
  ultimately show ?thesis using s' by (simp add: lastSpellText_def)
qed

text \<open>
  C33: After a successful cast the arena's last-spell card reads '<caster> cast
  <spell>!' with the resolved spell's description, the caster being the player whose
  turn it was; after a failed cast it still shows the previous card.
\<close>

theorem castSpell_last_spell_card:
  assumes "castSpell s i = Inr (r, s')"
  shows "(success r \<longrightarrow> (\<exists>sp c. findSpell i = Some sp \<and> js_at (players s) (currentPlayer s) = Some c
             \<and> lastSpellText s' = Some (playerName c @ '' cast '' @ name sp @ ''!'', description sp)))
         \<and> (\<not> success r \<longrightarrow> lastSpellText s' = lastSpellText s)"
proof (intro conjI impI)
  assume "success r"
  then obtain sp c where "findSpell i = Some sp" "js_at (players s) (currentPlayer s) = Some c"
      "apply_spell sp s = Inr s'"
    using castSpell_cases [OF assms] by auto
  then show "\<exists>sp c. findSpell i = Some sp \<and> js_at (players s) (currentPlayer s) = Some c
             \<and> lastSpellText s' = Some (playerName c @ '' cast '' @ name sp @ ''!'', description sp)"
    using apply_spell_lastSpell by blast
next
  assume "\<not> success r"
  then have "lastSpell s' = lastSpell s" using castSpell_cases [OF assms] by auto
  then show "lastSpellText s' = lastSpellText s" by (simp add: lastSpellText_def)
qed

subsection \<open>Witnesses at concrete inputs\<close>


theorem reachable_turn_text_witness:
  "case human_run (startGame AIMode Easy initialState) [''Stupefy''] of
     None \<Rightarrow> False
   | Some s \<Rightarrow> reachable s \<and> phase s = Playing \<and> turnText s = ''Dark Wizard'' @ CHR 0x27 # ''s turn''"
proof -
  have "case human_run (startGame AIMode Easy initialState) [''Stupefy''] of None \<Rightarrow> False
          | Some s \<Rightarrow> phase s = Playing \<and> mode s = AIMode \<and> currentPlayer s = 1"
    by code_simp
  then obtain s where run: "human_run (startGame AIMode Easy initialState) [''Stupefy''] = Some s"
    and st: "phase s = Playing" "mode s = AIMode" "currentPlayer s = 1"
    by (rule human_run_obtain) auto
  have r0: "reachable (startGame AIMode Easy initialState)"
    by (rule reachable_start) (simp add: menu_buttons_def)
  have r: "reachable s" by (rule human_run_reachable [OF r0 run])
  show ?thesis using reachable_turn_text [OF r st(1)] r st run by simp
qed

theorem reachable_no_status_badges_witness:
  "reachable (startGame AIMode Hard initialState)
   \<and> effectBadges (snd (arenaCards (startGame AIMode Hard initialState))) = None"
proof -
  have r: "reachable (startGame AIMode Hard initialState)"
    by (rule reachable_start) (simp add: menu_buttons_def)
  show ?thesis using reachable_no_status_badges [OF r] r by (simp add: arenaCards_def)
qed

theorem castSpell_last_spell_card_witness:
  "case castSpell (startGame PvP Normal initialState) ''  stupefy '' of
     Inl _ \<Rightarrow> False
   | Inr (r, s') \<Rightarrow> success r
       \<and> lastSpellText s' = Some (''Player 1 cast Stupefy!'', description (SPELLS ! 2))"
proof -
  let ?s = "startGame PvP Normal initialState"
  have "case castSpell ?s ''  stupefy '' of Inl _ \<Rightarrow> False | Inr (r, s') \<Rightarrow> success r"
    by code_simp
  then obtain r s' where c: "castSpell ?s ''  stupefy '' = Inr (r, s')" and ok: "success r"
    by (rule castSpell_Inr_obtain)
  have f: "findSpell ''  stupefy '' = Some (SPELLS ! 2)" by code_simp
  have p: "js_at (players ?s) (currentPlayer ?s) = Some (initialPlayer ''player1'' ''Player 1'' False)"
    by (simp add: startGame_def)
  have "name (SPELLS ! 2) = ''Stupefy''" by (simp add: SPELLS_def)
  moreover have "lastSpellText s' = Some (playerName (initialPlayer ''player1'' ''Player 1'' False)
      @ '' cast '' @ name (SPELLS ! 2) @ ''!'', description (SPELLS ! 2))"
    using castSpell_last_spell_card [OF c] ok f p by auto
  ultimately have "lastSpellText s' = Some (''Player 1 cast Stupefy!'', description (SPELLS ! 2))"
    by (simp add: initialPlayer_def)
  then show ?thesis using c ok by simp
qed

end
