(* ===== verification/Guide.thy ===== *)
theory Guide
  imports Views
begin

section \<open>The spell guide's entries (src/src/components/SpellGuide.tsx)\<close>

text \<open>
  The guide renders \<open>Object.entries(spellsByType)\<close>: for each type key a heading with
  the capitalised key, and for each spell its name, a badge with the stamina cost in the
  type's colour, the description, and a row of numbers. Each optional number is rendered
  by \<open>{spell.damage && <span>...</span>}\<close>: an absent field renders nothing, and a
  field that is 0 renders the text \<open>0\<close> (React prints a falsy number), which
  \<open>ZeroText\<close> records. The icons are emoji and not modelled.
\<close>

datatype statItem = DmgItem int | HealItem int | BlockItem int | ZeroText | CooldownItem int

definition js_and_num :: "int option \<Rightarrow> (int \<Rightarrow> statItem) \<Rightarrow> statItem list" where
  "js_and_num v item = (case v of None \<Rightarrow> [] | Some x \<Rightarrow> if x = 0 then [ZeroText] else [item x])"

definition guideStats :: "spell \<Rightarrow> statItem list" where
  "guideStats spell =
     js_and_num (damage spell) DmgItem @ js_and_num (healing spell) HealItem
     @ js_and_num (blockAmount spell) BlockItem @ [CooldownItem (cooldown spell)]"

primrec typeColors :: "spellType \<Rightarrow> string" where
  "typeColors Attack = ''destructive''"
| "typeColors Defense = ''secondary''"
| "typeColors Healing = ''default''"
| "typeColors Buff = ''outline''"
| "typeColors Debuff = ''secondary''"
| "typeColors Special = ''default''"

record guideEntry =
  entryName :: string
  entryVariant :: string
  entryCost :: int
  entryDescription :: string
  entryStats :: "statItem list"

definition spellEntry :: "spell \<Rightarrow> guideEntry" where
  "spellEntry spell =
     \<lparr>entryName = name spell, entryVariant = typeColors (type spell), entryCost = staminaCost spell,
      entryDescription = description spell, entryStats = guideStats spell\<rparr>"

definition sectionHeading :: "string \<Rightarrow> string" where
  "sectionHeading ty = js_toUpperCase (take 1 ty) @ drop 1 ty @ '' Spells''"

definition guideSections :: "(string \<times> guideEntry list) list" where
  "guideSections = map (\<lambda>(ty, spells). (sectionHeading ty, map spellEntry spells)) spellsByType"

text \<open>The damage the guide advertises: the number of its damage item, 0 without one.\<close>

definition shownDamage :: "spell \<Rightarrow> int" where
  "shownDamage spell = (case [x. DmgItem x \<leftarrow> guideStats spell] of x # _ \<Rightarrow> x | [] \<Rightarrow> 0)"

subsection \<open>Lemmas\<close>

lemma shownDamage_or_zero: "damage sp \<noteq> Some 0 \<Longrightarrow> shownDamage sp = or_zero (damage sp)"
  by (auto simp: shownDamage_def guideStats_def js_and_num_def or_zero_def split: option.split)

lemma spell_effect_damage:
  "fst (spell_effect sp c t) = (if type sp = Attack \<or> type sp = Special then or_zero (damage sp) else 0)"
  by (cases "type sp") (simp_all add: spell_effect_def Let_def)

lemma spell_effect_Defense: "type sp = Defense \<Longrightarrow> spell_effect sp c t = (0, c, t)"
  by (simp add: spell_effect_def)

lemma BlockItem_guideStats: "BlockItem b \<in> set (guideStats sp) \<Longrightarrow> blockAmount sp = Some b"
  by (auto simp: guideStats_def js_and_num_def split: option.splits if_splits)

lemma SPELLS_guide_facts:
  "list_all (\<lambda>sp. damage sp \<noteq> Some 0 \<and> healing sp \<noteq> Some 0 \<and> blockAmount sp \<noteq> Some 0
      \<and> (blockAmount sp \<noteq> None \<longrightarrow> type sp = Defense)
      \<and> ((type sp = Attack \<or> type sp = Special \<or> damage sp = None) \<longleftrightarrow> name sp \<noteq> ''Crucio'')) SPELLS"
  by (simp add: SPELLS_def)

text \<open>
  C35: For every catalog spell the damage the spell guide shows equals the damage the
  engine deals on a cast, except for Crucio, whose advertised 10 damage is never dealt;
  and a spell whose guide entry shows a block (Protego) changes neither player.
\<close>

theorem guide_vs_engine:
  assumes "sp \<in> set SPELLS"
  shows "(fst (spell_effect sp c t) = shownDamage sp \<longleftrightarrow> name sp \<noteq> ''Crucio'')
         \<and> (\<forall>b. BlockItem b \<in> set (guideStats sp) \<longrightarrow> spell_effect sp c t = (0, c, t))"
proof -
  have f: "damage sp \<noteq> Some 0" "blockAmount sp \<noteq> None \<longrightarrow> type sp = Defense"
    "(type sp = Attack \<or> type sp = Special \<or> damage sp = None) \<longleftrightarrow> name sp \<noteq> ''Crucio''"
    using SPELLS_guide_facts assms by (simp_all add: list_all_iff)
  have "fst (spell_effect sp c t) = shownDamage sp
          \<longleftrightarrow> (type sp = Attack \<or> type sp = Special \<or> damage sp = None)"
    using f(1) by (auto simp: spell_effect_damage shownDamage_or_zero or_zero_def split: option.split)
  moreover have "\<forall>b. BlockItem b \<in> set (guideStats sp) \<longrightarrow> spell_effect sp c t = (0, c, t)"
    using f(2) by (auto dest: BlockItem_guideStats intro: spell_effect_Defense)
  ultimately show ?thesis using f(3) by simp
qed

subsection \<open>Witnesses at concrete inputs\<close>

theorem guide_vs_engine_witness:
  "let p = initialPlayer ''player1'' ''Player 1'' False
   in SPELLS ! 7 \<in> set SPELLS \<and> name (SPELLS ! 7) = ''Crucio'' \<and> shownDamage (SPELLS ! 7) = 10
      \<and> fst (spell_effect (SPELLS ! 7) p p) \<noteq> shownDamage (SPELLS ! 7)
      \<and> SPELLS ! 1 \<in> set SPELLS \<and> BlockItem 25 \<in> set (guideStats (SPELLS ! 1))
      \<and> spell_effect (SPELLS ! 1) p p = (0, p, p)"
proof -
  define p where "p = initialPlayer ''player1'' ''Player 1'' False"
  have m7: "SPELLS ! 7 \<in> set SPELLS" and m1: "SPELLS ! 1 \<in> set SPELLS"
    by (simp_all add: SPELLS_def)
  have c: "name (SPELLS ! 7) = ''Crucio''" "shownDamage (SPELLS ! 7) = 10"
    by (simp_all add: SPELLS_def shownDamage_def guideStats_def js_and_num_def)
  have b: "BlockItem 25 \<in> set (guideStats (SPELLS ! 1))"
    by (simp add: SPELLS_def guideStats_def js_and_num_def)
  have "fst (spell_effect (SPELLS ! 7) p p) \<noteq> shownDamage (SPELLS ! 7)"
    using guide_vs_engine [OF m7, of p p] c by simp
  moreover have "spell_effect (SPELLS ! 1) p p = (0, p, p)"
    using guide_vs_engine [OF m1, of p p] b by blast
  ultimately show ?thesis using m7 m1 c b by (simp add: p_def [symmetric])
qed

end
