(* ===== verification/Spec2Isabelle.thy ===== *)
theory Spec2Isabelle
  imports EventLoop Toasts Arena Guide
begin

text \<open>
  \<^bold>\<open>A verified model of the Harry Potter duel game (src/src).\<close>

  \<^bold>\<open>The program.\<close> A React single-page game. The hook \<open>useGameState\<close>
  (src/src/hooks/useGameState.ts) owns the game state and exports \<open>startGame\<close>,
  \<open>castSpell\<close>, \<open>endGame\<close> and \<open>resetGame\<close>; it also runs two effects, the AI move
  (a 1500 ms timeout) and the regeneration interval (every 1000 ms). \<open>castSpell\<close>
  resolves typed text with \<open>findSpell\<close> of src/src/data/spells.ts (exact match on the
  lower-cased trimmed text, else the closest name within Levenshtein distance 3);
  \<open>endGame\<close> updates the statistics and unlocks achievements with \<open>checkAchievements\<close>
  of src/src/data/achievements.ts. The page Index.tsx wires the hook to the menu
  (GameMenu.tsx) and the arena (GameArena.tsx, with the SpellGuide.tsx grimoire), runs the
  auto-end effect that calls \<open>endGame\<close> when a player's health reaches 0, and queues
  achievement notifications with a count kept in \<open>localStorage\<close>.

  \<^bold>\<open>Theories\<close>, each a part of the program, in import order:
  \<^item> \<open>Prelude\<close>: the JavaScript primitives the code uses (\<open>x || 0\<close>, \<open>toLowerCase\<close>,
    \<open>toUpperCase\<close>, \<open>trim\<close>, \<open>Map\<close> as an association list, array reads that may be
    \<open>undefined\<close>, \<open>String(n)\<close> and \<open>parseInt\<close> with their round trip, \<open>slice\<close>,
    truthiness), with their rewrite rules in the collection \<open>js_simps\<close>.
  \<^item> \<open>Spells\<close>: the \<open>Spell\<close> record, its type union and the catalog \<open>SPELLS\<close>, entry
    by entry, with the catalog facts the other theories use.
  \<^item> \<open>Resolver\<close>: \<open>levenshteinDistance\<close> as the source's row-by-row matrix (\<open>lev_row\<close>,
    \<open>lev_fill\<close>) and \<open>findSpell\<close> with its fuzzy loop \<open>fuzzy_scan\<close>. The matrix equals
    the recursive edit distance (C17), the loop implements the contract \<open>best_match\<close>
    (C18), and \<open>findSpell\<close> is characterised on each branch (C19 to C22).
  \<^item> \<open>Achievements\<close>: \<open>GameStats\<close>, \<open>Achievement\<close>, \<open>ACHIEVEMENTS\<close>,
    \<open>checkAchievements\<close> and the id-based merge of \<open>endGame\<close>
    (\<open>evaluate_achievements\<close>): a pass unlocks exactly the achievements whose condition
    holds (C25) and a second pass finds nothing new (C24).
  \<^item> \<open>Notify\<close>: the notification effect and close handler of Index.tsx. The effect
    announces the unlocked achievements by position past the stored count (C26), which is
    exact for unlocks in catalog order (C27) and misses an out-of-order unlock; the stored
    count round-trips through \<open>toString\<close> and \<open>parseInt\<close> (C28); a count surviving a
    reload silences the next unlocks (C29).
  \<^item> \<open>Engine\<close>: the state records and every state-changing function of the hook. Each
    \<open>setGameState\<close> updater is a function \<open>prev \<Rightarrow> next\<close>; \<open>castSpell\<close> returns
    \<open>jsError + castResult \<times> gameState\<close>, the left side being the \<open>TypeError\<close> of reading
    a missing player; its check on the rendered state and its update of \<open>prev\<close> are
    serialised. Proved: \<open>castSpell\<close> and the regeneration tick keep a state well formed
    (C9, C16), failures change nothing but the unknown-spell counters (C10), the turn
    alternates (C11), the phase is ended exactly when someone is at 0 health (C12), the
    error branches come in the source's order (C13, C14), a cooldown of \<open>c\<close> expires after
    exactly \<open>c\<close> ticks (C15), and the perfect-game rule of \<open>endGame\<close> tests the loser's
    health, so it never counts when the loser is at 0 (C23).
  \<^item> \<open>AI\<close>: \<open>getAISpell\<close> with the random index as a parameter \<open>r\<close> (the draw is
    \<open>r mod n\<close>), so its lemmas hold for every draw: every choice resolves to a catalog
    spell (C37) and on normal and hard difficulty an AI with 18 stamina or more can pay for
    its choice (C38).
  \<^item> \<open>Views\<close>: what GameMenu, SpellGuide, GameArena and Index compute from the state:
    titles and counter, the spell guide's grouping (equal to a reference grouping, C36),
    and the screen shown (\<open>render\<close>), whose spell input guards the driver's human cast.
  \<^item> \<open>Driver\<close>: the inductive step relation \<open>game_step\<close> of the UI events (menu start,
    human cast, AI cast, regeneration tick, auto-end, leaving the arena) and its reachable
    states. By rule induction over an invariant: no game is ever won or lost and no
    achievement unlocks through the UI (C1), because a playing state has everyone alive
    (C5) and a running match is ended exactly when someone is at 0 (C6), so the auto-end
    effect never fires; an ended match only allows leaving (C7); every reachable state is
    well formed (C8).
  \<^item> \<open>Arena\<close>: the duel screen of GameArena.tsx: badges, player cards with labels and bar
    values, the header's turn line and the last-spell card, with the invariant
    \<open>frame_ok\<close> over reachable states. The bars stay within 0 to 100 (C31), no status
    badge is ever shown (C32), the last-spell card names the caster and the spell of the
    last successful cast (C33), and the turn line only ever names the AI (C34).
  \<^item> \<open>Guide\<close>: the spell guide's entries (SpellGuide.tsx), with React's rendering of
    \<open>x && ...\<close>; its damage numbers agree with the engine except for Crucio, and its
    block number does nothing (C35).
  \<^item> \<open>Timers\<close>: React's effect semantics over a clock: an effect whose dependencies
    changed is cleaned up and re-run after the render, arrays compared by reference. The
    timed step relation refines the driver (C4); the AI's timeout never fires, because the
    regeneration tick always comes first and its new \<open>players\<close> array re-runs the AI
    effect, which clears the timeout (C2); so once it is the AI's turn nothing but
    regeneration ever happens until the player retreats (C3).
  \<^item> \<open>Toasts\<close>: the notification components of Index with their timers
    (AchievementNotification.tsx): each render of Index passes a new \<open>onClose\<close>, which
    re-runs the component's effect and restarts its 4000 ms timer, and the 300 ms close
    timers capture the index a toast had when it hid. A toast hides only 4000 ms after the
    last render of Index (C39); a batch of notifications shown together ends, after the
    browser has fired all their timers, with the ones at odd positions queued again (C40).
  \<^item> \<open>EventLoop\<close>: the browser's timer loop as a terminating \<^theory_text>\<open>function\<close>
    firing every timer due up to a horizon; its states are reachable clocks.
  The root theory holds the properties across components: in every reachable state the
  victory screen names a living winner with the right heading (C30).

  \<^bold>\<open>Bounds and fuel.\<close> Every function of the model is total. The loops of the source
  run over the catalog, the input strings or the cooldown map and are structural
  recursions; the timer loop \<open>run_timers\<close> terminates by the measure \<open>h + 1 - t\<close> for the
  next deadline \<open>t\<close>, since firing the timers due at \<open>t\<close> leaves only later deadlines.
  Game numbers (hp, stamina, costs) are JavaScript numbers that stay small integers; they
  are \<open>int\<close>, counters \<open>nat\<close>, times \<open>nat\<close> milliseconds, bar values \<open>rat\<close> with
  \<open>None\<close> for JavaScript's \<open>NaN\<close> and \<open>Infinity\<close>. \<open>human_run\<close> replays a finite list
  of typed inputs; the witnesses of C1 and C5 to C8 run a five-cast two-player match to its
  end through it. Timers fire exactly at their deadlines; since the AI deadline is always
  at least 500 ms after the next regeneration tick, timer jitter below that changes nothing.
  The notification timers run through \<open>toast_next\<close>, which fires the earliest due
  timer (those with one deadline in the order they were set) or waits for the next
  deadline; a batch of \<open>n\<close> notifications needs exactly \<open>2 n + 2\<close> of its steps:
  one wait, \<open>n\<close> hides, one wait and \<open>n\<close> closes.

  \<^bold>\<open>Not modelled.\<close> Markup, styling, icons and animations of the components, and the
  arena's \<open>useToast\<close> messages after a cast;
  audio (commented out in the source); the in-place mutation of player objects in the
  \<open>castSpell\<close> updater (the model copies), which only matters under React StrictMode's
  double-invoked updaters; characters outside ASCII (the source compares UTF-16 code
  units; the model reads bytes); the \<open>0x\<close> prefix of \<open>parseInt\<close>, which the game never
  writes.
\<close>

section \<open>Properties across components\<close>

lemma reachable_menu_no_titles:
  assumes "reachable s" "render s = MenuScreen ts n cnt"
  shows "ts = [] \<and> n = 0 \<and> cnt = 10"
proof -
  have inv: "driver_inv s" using assms(1) by (rule reachable_inv)
  from assms(2) have "ts = unlockedTitles (achievements s)" "n = unlockedCount (achievements s)"
    "cnt = length (achievements s)"
    by (auto simp: render_def split: if_splits)
  with inv show ?thesis
    by (simp add: driver_inv_def unlockedTitles_def unlockedCount_def ACHIEVEMENTS_def)
qed

text \<open>
  C30: In every reachable state the victory screen names a living winner next to a
  defeated player, and its heading is 'Dark Arts Triumph!' exactly when the winner is
  the AI (the screen never shows an undefined winner).
\<close>

theorem reachable_ended_screen_winner:
  assumes "reachable s" "render s = EndedScreen w"
  shows "\<exists>p. w = Some p \<and> p \<in> set (players s) \<and> 0 < hp p \<and> (\<exists>l\<in>set (players s). hp l = 0)
           \<and> endedTitle w = (if isAI p then ''Dark Arts Triumph!'' else ''Victory Achieved!'')"
proof -
  have inv: "driver_inv s" using assms(1) by (rule reachable_inv)
  from assms(2) have m: "mode s \<noteq> Menu" "phase s = Ended" "w = find (\<lambda>p. 0 < hp p) (players s)"
    by (auto simp: render_def split: if_splits)
  with inv have dead: "\<exists>l\<in>set (players s). hp l = 0" and alive: "\<exists>p\<in>set (players s). 0 < hp p"
    by (auto simp: driver_inv_def)
  from alive obtain p where "find (\<lambda>p. 0 < hp p) (players s) = Some p"
    by (metis find_None_iff option.exhaust)
  then have "p \<in> set (players s)" "0 < hp p" by (auto simp: find_Some_iff nth_mem)
  with m(3) dead \<open>find (\<lambda>p. 0 < hp p) (players s) = Some p\<close> show ?thesis
    by (auto simp: endedTitle_def)
qed

subsection \<open>Witnesses at concrete inputs\<close>

theorem reachable_ended_screen_winner_witness:
  "case human_run (startGame PvP Normal initialState)
          [''Avada Kedavra'', ''Stupefy'', ''Sectumsempra'', ''Expelliarmus'', ''Stupefy''] of
     None \<Rightarrow> False
   | Some s \<Rightarrow> reachable s \<and> render s = EndedScreen (find (\<lambda>p. 0 < hp p) (players s))
       \<and> endedTitle (find (\<lambda>p. 0 < hp p) (players s)) = ''Victory Achieved!''"
proof -
  let ?xs = "[''Avada Kedavra'', ''Stupefy'', ''Sectumsempra'', ''Expelliarmus'', ''Stupefy'']"
  have "case human_run (startGame PvP Normal initialState) ?xs of None \<Rightarrow> False
          | Some s \<Rightarrow> render s = EndedScreen (find (\<lambda>p. 0 < hp p) (players s))
                     \<and> list_all (\<lambda>p. \<not> isAI p) (players s)"
    by code_simp
  then obtain s where run: "human_run (startGame PvP Normal initialState) ?xs = Some s"
    and e: "render s = EndedScreen (find (\<lambda>p. 0 < hp p) (players s))"
    and h: "list_all (\<lambda>p. \<not> isAI p) (players s)"
    by (rule human_run_obtain) auto
  have r: "reachable s" using reachable_start_pvp run by (blast intro: human_run_reachable)
  obtain p where "find (\<lambda>p. 0 < hp p) (players s) = Some p" "p \<in> set (players s)"
    "endedTitle (find (\<lambda>p. 0 < hp p) (players s))
       = (if isAI p then ''Dark Arts Triumph!'' else ''Victory Achieved!'')"
    using reachable_ended_screen_winner [OF r e] by auto
  with h r e run show ?thesis by (auto simp: list_all_iff)
qed

end
